(* ===== verification/Prelude.thy ===== *)
theory Prelude
  imports Main "HOL-Library.Word" "HOL-Library.AList" "HOL-Library.Sublist"
    "HOL-Library.Multiset"
begin

text \<open>
  Shared vocabulary of the development: machine-integer and identifier types, results with
  errors as values, the hash-map and hash-set operations of the Rust standard library on
  association lists, the per-key vector index that several components keep, and the
  "push when unseen" loop. The lemmas about them are collected in the named theorem
  collections below and carry the component proofs.

  A \<open>HashMap\<close> or \<open>DashMap\<close> is an association list with distinct keys. The order of
  the list stands for the iteration order, which Rust leaves unspecified: a statement about
  every list is a statement about every order.
\<close>

section \<open>Types\<close>

type_synonym u8 = "8 word"
type_synonym u16 = "16 word"
type_synonym u32 = "32 word"
type_synonym u64 = "64 word"

text \<open>
  A \<open>Uuid\<close>, a public key and an event id are represented by their canonical text
  (hyphenated lower-case, lower-case hex), so \<open>to_string\<close> and \<open>to_hex\<close> are the identity.
\<close>

type_synonym uuid = string
type_synonym pubkey = string
type_synonym event_id = string

text \<open>\<open>Result<A, E>\<close>: the left injection carries the error.\<close>

type_synonym ('a, 'e) result = "'e + 'a"

abbreviation Ok :: "'a \<Rightarrow> ('a, 'e) result" where
  "Ok \<equiv> Inr"

abbreviation Err :: "'e \<Rightarrow> ('a, 'e) result" where
  "Err \<equiv> Inl"

text \<open>The \<open>?\<close> operator: continue with the value, or return the error.\<close>

definition and_then :: "('a, 'e) result \<Rightarrow> ('a \<Rightarrow> ('b, 'e) result) \<Rightarrow> ('b, 'e) result" where
  "and_then r k = (case r of Inl e \<Rightarrow> Inl e | Inr a \<Rightarrow> k a)"

definition is_ok :: "('a, 'e) result \<Rightarrow> bool" where
  "is_ok r = (case r of Inl _ \<Rightarrow> False | Inr _ \<Rightarrow> True)"

named_theorems kind_defs "the numeric event kinds"
named_theorems map_laws "lookup laws of the hash-map operations"

lemma and_then_simps [simp]:
  "and_then (Inl e) k = Inl e" "and_then (Inr a) k = k a"
  by (simp_all add: and_then_def)

lemma and_then_Inr: "and_then r k = Inr b \<longleftrightarrow> (\<exists>a. r = Inr a \<and> k a = Inr b)"
  by (cases r) simp_all

lemma is_ok_simps [simp]: "\<not> is_ok (Inl e)" "is_ok (Inr a)"
  by (simp_all add: is_ok_def)

text \<open>\<open>Option::is_some_and\<close>, \<open>Option::is_none_or\<close> and \<open>Option::or\<close>.\<close>

definition is_some_and :: "('a \<Rightarrow> bool) \<Rightarrow> 'a option \<Rightarrow> bool" where
  "is_some_and P v = (case v of None \<Rightarrow> False | Some a \<Rightarrow> P a)"

definition is_none_or :: "('a \<Rightarrow> bool) \<Rightarrow> 'a option \<Rightarrow> bool" where
  "is_none_or P v = (case v of None \<Rightarrow> True | Some a \<Rightarrow> P a)"

definition or_option :: "'a option \<Rightarrow> 'a option \<Rightarrow> 'a option" where
  "or_option v w = (case v of None \<Rightarrow> w | Some a \<Rightarrow> Some a)"

lemma option_test_simps [simp]:
  "\<not> is_some_and P None" "is_some_and P (Some a) = P a" "is_none_or P None" "is_none_or P (Some a) = P a"
  "or_option None w = w" "or_option (Some a) w = Some a"
  by (simp_all add: is_some_and_def is_none_or_def or_option_def)

lemma is_some_and_iff: "is_some_and P v \<longleftrightarrow> (\<exists>a. v = Some a \<and> P a)"
  by (cases v) simp_all

lemma is_none_or_iff: "is_none_or P v \<longleftrightarrow> (\<forall>a. v = Some a \<longrightarrow> P a)"
  by (cases v) simp_all

text \<open>\<open>str::to_ascii_lowercase\<close> and \<open>str::eq_ignore_ascii_case\<close>.\<close>

definition ascii_lower :: "string \<Rightarrow> string" where
  "ascii_lower s = map (\<lambda>c. let n = of_char c :: nat in if 65 \<le> n \<and> n \<le> 90 then char_of (n + 32) else c) s"

definition eq_ignore_ascii_case :: "string \<Rightarrow> string \<Rightarrow> bool" where
  "eq_ignore_ascii_case s t = (ascii_lower s = ascii_lower t)"

lemma eq_ignore_ascii_case_refl [simp]: "eq_ignore_ascii_case s s"
  by (simp add: eq_ignore_ascii_case_def)

section \<open>Hash maps\<close>

type_synonym ('k, 'v) hashmap = "('k \<times> 'v) list"

definition hm_insert :: "'k \<Rightarrow> 'v \<Rightarrow> ('k, 'v) hashmap \<Rightarrow> ('k, 'v) hashmap" where
  "hm_insert k v m = AList.update k v m"

definition hm_remove :: "'k \<Rightarrow> ('k, 'v) hashmap \<Rightarrow> ('k, 'v) hashmap" where
  "hm_remove k m = AList.delete k m"

definition hm_keys :: "('k, 'v) hashmap \<Rightarrow> 'k list" where
  "hm_keys m = map fst m"

text \<open>Every key occurs once: the representation invariant of a hash map.\<close>

definition hm_wf :: "('k, 'v) hashmap \<Rightarrow> bool" where
  "hm_wf m = distinct (map fst m)"

text \<open>\<open>map.get(k).unwrap_or_default()\<close> for a vector-valued map.\<close>

definition hm_vec :: "('k, 'v list) hashmap \<Rightarrow> 'k \<Rightarrow> 'v list" where
  "hm_vec m k = (case map_of m k of None \<Rightarrow> [] | Some l \<Rightarrow> l)"

lemma map_of_hm_insert [simp, map_laws]: "map_of (hm_insert k v m) = (map_of m)(k \<mapsto> v)"
  by (simp add: hm_insert_def update_conv')

lemma map_of_hm_remove [simp, map_laws]: "map_of (hm_remove k m) = (map_of m)(k := None)"
  by (simp add: hm_remove_def delete_conv')

lemma set_hm_keys [simp]: "set (hm_keys m) = dom (map_of m)"
  by (simp add: hm_keys_def dom_map_of_conv_image_fst)

lemma hm_wf_Nil [simp]: "hm_wf []"
  by (simp add: hm_wf_def)

lemma hm_wf_insert [simp]: "hm_wf m \<Longrightarrow> hm_wf (hm_insert k v m)"
  by (simp add: hm_wf_def hm_insert_def distinct_update)

lemma hm_wf_remove [simp]: "hm_wf m \<Longrightarrow> hm_wf (hm_remove k m)"
  by (simp add: hm_wf_def hm_remove_def distinct_delete)

lemma hm_wf_lookup: "hm_wf m \<Longrightarrow> (k, v) \<in> set m \<longleftrightarrow> map_of m k = Some v"
  by (simp add: hm_wf_def)

lemma hm_wf_filter [simp]: "hm_wf m \<Longrightarrow> hm_wf (filter P m)"
  by (simp add: hm_wf_def distinct_map_filter)

lemma hm_vec_Nil [simp]: "hm_vec [] k = []"
  by (simp add: hm_vec_def)

lemma hm_vec_insert [simp]: "hm_vec (hm_insert k v m) k' = (if k' = k then v else hm_vec m k')"
  by (simp add: hm_vec_def)

lemma hm_vec_remove [simp]: "hm_vec (hm_remove k m) k' = (if k' = k then [] else hm_vec m k')"
  by (simp add: hm_vec_def)

lemma map_of_filter_key:
  "hm_wf m \<Longrightarrow> map_of (filter (\<lambda>(k, v). P k v) m) k =
     (case map_of m k of None \<Rightarrow> None | Some v \<Rightarrow> if P k v then Some v else None)"
proof (induction m)
  case Nil
  then show ?case by simp
next
  case (Cons a m)
  obtain k' v' where a: "a = (k', v')" by (cases a)
  from Cons.prems have wf: "hm_wf m" and notin: "map_of m k' = None"
    by (auto simp: a hm_wf_def map_of_eq_None_iff)
  then have "map_of (filter (\<lambda>(k, v). P k v) m) k' = None"
    using Cons.IH [OF wf] by (auto simp: map_of_eq_None_iff)
  then show ?case using Cons.IH [OF wf] notin by (auto simp: a)
qed

section \<open>The per-key vector index\<close>

text \<open>
  \<open>idx_push\<close> is \<open>map.entry(k).or_default().push(v)\<close>; \<open>idx_retain\<close> is
  \<open>get_mut(k)\<close>, \<open>retain\<close>, and the removal of the entry that became empty.
\<close>

definition idx_push :: "'k \<Rightarrow> 'v \<Rightarrow> ('k, 'v list) hashmap \<Rightarrow> ('k, 'v list) hashmap" where
  "idx_push k v m = hm_insert k (hm_vec m k @ [v]) m"

definition idx_retain :: "'k \<Rightarrow> ('v \<Rightarrow> bool) \<Rightarrow> ('k, 'v list) hashmap \<Rightarrow> ('k, 'v list) hashmap" where
  "idx_retain k P m =
     (case map_of m k of
        None \<Rightarrow> m
      | Some l \<Rightarrow> (let l' = filter P l in if l' = [] then hm_remove k m else hm_insert k l' m))"

text \<open>No vector of the index is empty: an entry is dropped with its last element.\<close>

definition idx_no_empty :: "('k, 'v list) hashmap \<Rightarrow> bool" where
  "idx_no_empty m = (\<forall>k. map_of m k \<noteq> Some [])"

text \<open>
  The contract the clients of an index rely on: what a lookup returns after a push and
  after a retain. The bulk operations of the components are loops over keys, so their
  lookup laws follow once and for all.
\<close>

locale multi_index =
  fixes get :: "'m \<Rightarrow> 'k \<Rightarrow> 'v list"
    and push :: "'k \<Rightarrow> 'v \<Rightarrow> 'm \<Rightarrow> 'm"
    and retain :: "'k \<Rightarrow> ('v \<Rightarrow> bool) \<Rightarrow> 'm \<Rightarrow> 'm"
  assumes get_push: "get (push k v m) k' = (if k' = k then get m k @ [v] else get m k')"
    and get_retain: "get (retain k P m) k' = (if k' = k then filter P (get m k) else get m k')"
begin

lemma set_get_push_all:
  "set (get (fold (\<lambda>k. push k v) ks m) k') = set (get m k') \<union> (if k' \<in> set ks then {v} else {})"
  by (induction ks arbitrary: m) (auto simp: get_push)

lemma get_retain_all:
  "get (fold (\<lambda>k. retain k P) ks m) k' = (if k' \<in> set ks then filter P (get m k') else get m k')"
  by (induction ks arbitrary: m) (auto simp: get_retain)

text \<open>
  An index mirrors a store \<open>L\<close> when a point is listed under exactly the keys of its
  entry. Adding, shrinking and removing an entry with its keys keeps the mirror exact.
\<close>

lemma mirrors_add:
  assumes "\<And>q k. q \<in> set (get m k) \<longleftrightarrow> (\<exists>e. L q = Some e \<and> k \<in> set (keys_of e))"
    and "L p = None"
  shows "q \<in> set (get (fold (\<lambda>k. push k p) (keys_of e) m) k) \<longleftrightarrow>
           (\<exists>e'. (L(p \<mapsto> e)) q = Some e' \<and> k \<in> set (keys_of e'))"
  using assms by (auto simp: set_get_push_all)

lemma mirrors_shrink:
  assumes "\<And>q k. q \<in> set (get m k) \<longleftrightarrow> (\<exists>e. L q = Some e \<and> k \<in> set (keys_of e))"
    and "L p = Some e" and "set (keys_of e') = set (keys_of e) - set ks"
  shows "q \<in> set (get (fold (\<lambda>k. retain k (\<lambda>r. r \<noteq> p)) ks m) k) \<longleftrightarrow>
           (\<exists>e''. (L(p \<mapsto> e')) q = Some e'' \<and> k \<in> set (keys_of e''))"
  using assms by (auto simp: get_retain_all)

lemma mirrors_remove:
  assumes "\<And>q k. q \<in> set (get m k) \<longleftrightarrow> (\<exists>e. L q = Some e \<and> k \<in> set (keys_of e))"
    and "L p = Some e" and "set (keys_of e) \<subseteq> set ks"
  shows "q \<in> set (get (fold (\<lambda>k. retain k (\<lambda>r. r \<noteq> p)) ks m) k) \<longleftrightarrow>
           (\<exists>e'. (L(p := None)) q = Some e' \<and> k \<in> set (keys_of e'))"
  using assms by (auto simp: get_retain_all)

end

interpretation idx: multi_index hm_vec idx_push idx_retain
proof
  show "hm_vec (idx_push k v m) k' = (if k' = k then hm_vec m k @ [v] else hm_vec m k')"
    for k k' :: 'k and v :: 'v and m
    by (simp add: idx_push_def)
  show "hm_vec (idx_retain k P m) k' = (if k' = k then filter P (hm_vec m k) else hm_vec m k')"
    for k k' :: 'k and P :: "'v \<Rightarrow> bool" and m
    by (auto simp: idx_retain_def hm_vec_def Let_def split: option.splits)
qed

lemma idx_no_empty_Nil [simp]: "idx_no_empty []"
  by (simp add: idx_no_empty_def)

lemma idx_no_empty_push [simp]: "idx_no_empty m \<Longrightarrow> idx_no_empty (idx_push k v m)"
  by (simp add: idx_no_empty_def idx_push_def)

lemma idx_no_empty_retain [simp]: "idx_no_empty m \<Longrightarrow> idx_no_empty (idx_retain k P m)"
  by (auto simp: idx_no_empty_def idx_retain_def Let_def split: option.splits)

lemma hm_wf_idx_push [simp]: "hm_wf m \<Longrightarrow> hm_wf (idx_push k v m)"
  by (simp add: idx_push_def)

lemma hm_wf_idx_retain [simp]: "hm_wf m \<Longrightarrow> hm_wf (idx_retain k P m)"
  by (simp add: idx_retain_def Let_def split: option.splits)

text \<open>An operation that keeps a predicate keeps it through a loop over keys.\<close>

lemma fold_invariant: "(\<And>x s. I s \<Longrightarrow> I (f x s)) \<Longrightarrow> I s \<Longrightarrow> I (fold f xs s)"
  by (induction xs arbitrary: s) auto

section \<open>Push when unseen\<close>

text \<open>
  \<open>if seen.insert(x) { out.push(x) }\<close>, where \<open>seen\<close> holds exactly the elements of
  \<open>out\<close>: the first occurrence of each element is kept, in order.
\<close>

definition push_unseen :: "'a \<Rightarrow> 'a list \<Rightarrow> 'a list" where
  "push_unseen x out = (if x \<in> set out then out else out @ [x])"

lemma set_push_unseen [simp]: "set (push_unseen x out) = insert x (set out)"
  by (auto simp: push_unseen_def)

lemma distinct_push_unseen [simp]: "distinct out \<Longrightarrow> distinct (push_unseen x out)"
  by (simp add: push_unseen_def)

lemma set_fold_push_unseen [simp]: "set (fold push_unseen xs out) = set xs \<union> set out"
  by (induction xs arbitrary: out) auto

lemma distinct_fold_push_unseen [simp]: "distinct out \<Longrightarrow> distinct (fold push_unseen xs out)"
  by (rule fold_invariant [where I = distinct]) simp_all

section \<open>Iterator minimum\<close>

text \<open>\<open>Iterator::min_by_key\<close>: the first of the elements with the least key.\<close>

definition min_by_key :: "('a \<Rightarrow> 'b::linorder) \<Rightarrow> 'a list \<Rightarrow> 'a option" where
  "min_by_key f xs =
     (case xs of [] \<Rightarrow> None | x # ys \<Rightarrow> Some (fold (\<lambda>y best. if f y < f best then y else best) ys x))"

lemma fold_min_key:
  "fold (\<lambda>y best. if f y < f best then y else best) ys x \<in> insert x (set ys) \<and>
   (\<forall>z\<in>insert x (set ys). f (fold (\<lambda>y best. if f y < f best then y else best) ys x) \<le> (f z :: 'b::linorder))"
proof (induction ys arbitrary: x)
  case Nil
  then show ?case by simp
next
  case (Cons y ys)
  show ?case
    using Cons.IH [of x] Cons.IH [of y] by (cases "f y < f x") (auto intro: order.trans less_imp_le)
qed

lemma min_by_key_Some:
  assumes "min_by_key f xs = Some m"
  shows "m \<in> set xs \<and> (\<forall>z\<in>set xs. f m \<le> f z)"
  using assms fold_min_key [of f] by (cases xs) (auto simp: min_by_key_def)

lemma min_by_key_None [simp]: "min_by_key f xs = None \<longleftrightarrow> xs = []"
  by (simp add: min_by_key_def split: list.split)

section \<open>Strings\<close>

text \<open>\<open>str::split(c)\<close>: one part more than there are separators.\<close>

fun split_on :: "'a \<Rightarrow> 'a list \<Rightarrow> 'a list list" where
  "split_on c [] = [[]]"
| "split_on c (x # xs) =
     (if x = c then [] # split_on c xs
      else (case split_on c xs of [] \<Rightarrow> [[x]] | p # ps \<Rightarrow> (x # p) # ps))"

text \<open>\<open>str::strip_prefix\<close>.\<close>

definition strip_prefix :: "string \<Rightarrow> string \<Rightarrow> string option" where
  "strip_prefix p s = (if prefix p s then Some (drop (length p) s) else None)"

fun join_with :: "'a \<Rightarrow> 'a list list \<Rightarrow> 'a list" where
  "join_with c [] = []"
| "join_with c [p] = p"
| "join_with c (p # q # ps) = p @ c # join_with c (q # ps)"

lemma split_on_nonempty [simp]: "split_on c s \<noteq> []"
  by (induction s) (auto split: list.split)

lemma join_split: "join_with c (split_on c s) = s"
proof (induction s)
  case Nil
  then show ?case by simp
next
  case (Cons x s)
  then show ?case
    by (cases "split_on c s"; cases "tl (split_on c s)") (auto split: list.splits)
qed

lemma split_on_no_sep: "list_all (\<lambda>p. c \<notin> set p) (split_on c s)"
  by (induction s) (auto split: list.split)

lemma split_on_append: "c \<notin> set p \<Longrightarrow> split_on c (p @ c # s) = p # split_on c s"
  by (induction p) auto

lemma split_on_single: "c \<notin> set p \<Longrightarrow> split_on c p = [p]"
  by (induction p) auto

lemma split_join: "ps \<noteq> [] \<Longrightarrow> list_all (\<lambda>p. c \<notin> set p) ps \<Longrightarrow> split_on c (join_with c ps) = ps"
  by (induction ps rule: join_with.induct) (simp_all add: split_on_append split_on_single)

text \<open>Identifiers are hexadecimal text; keys join them with colons.\<close>

definition no_colon :: "string \<Rightarrow> bool" where
  "no_colon s \<longleftrightarrow> CHR '':'' \<notin> set s"

lemma no_colon_append:
  "no_colon a \<Longrightarrow> no_colon b \<Longrightarrow> a @ CHR '':'' # x = b @ CHR '':'' # y \<longleftrightarrow> a = b \<and> x = y"
proof (induction a arbitrary: b)
  case Nil
  then show ?case by (cases b) (auto simp: no_colon_def)
next
  case (Cons c a)
  then show ?case by (cases b) (auto simp: no_colon_def)
qed

section \<open>Decimal text\<close>

text \<open>\<open>Display\<close> of an unsigned integer, and its inverse on digit strings.\<close>

fun show_nat :: "nat \<Rightarrow> string" where
  "show_nat n = (if n < 10 then [char_of (48 + n)] else show_nat (n div 10) @ [char_of (48 + n mod 10)])"

declare show_nat.simps [simp del]

definition read_nat :: "string \<Rightarrow> nat" where
  "read_nat s = fold (\<lambda>c acc. acc * 10 + (of_char c - 48)) s 0"

lemma of_char_digit: "d < 10 \<Longrightarrow> of_char (char_of (48 + d) :: char) = (48 + d :: nat)"
  by simp

lemma read_show_nat: "read_nat (show_nat n) = n"
proof (induction n rule: show_nat.induct)
  case (1 n)
  show ?case
  proof (cases "n < 10")
    case True
    then show ?thesis by (subst show_nat.simps) (simp add: read_nat_def)
  next
    case False
    then have "read_nat (show_nat (n div 10)) = n div 10" using 1 by simp
    with False show ?thesis by (subst show_nat.simps) (simp add: read_nat_def)
  qed
qed

lemma read_nat_zeros: "read_nat (replicate k CHR ''0'' @ s) = read_nat s"
  by (induction k) (simp_all add: read_nat_def)

lemma length_show_nat: "n < 10 ^ k \<Longrightarrow> 0 < k \<Longrightarrow> length (show_nat n) \<le> k"
proof (induction n arbitrary: k rule: show_nat.induct)
  case (1 n)
  show ?case
  proof (cases "n < 10")
    case True
    with 1 show ?thesis by (subst show_nat.simps) simp
  next
    case False
    obtain j where k: "k = Suc j" using 1(3) by (cases k) auto
    have j: "0 < j" using 1(2) False k by (cases j) auto
    have "n div 10 < 10 ^ j" using 1(2) k by (simp add: less_mult_imp_div_less mult.commute)
    from 1(1) [OF False this j] show ?thesis
      using False k by (subst show_nat.simps) simp
  qed
qed

definition is_digit :: "char \<Rightarrow> bool" where
  "is_digit c = (48 \<le> (of_char c :: nat) \<and> (of_char c :: nat) \<le> 57)"

lemma read_nat_snoc: "read_nat (s @ [c]) = read_nat s * 10 + (of_char c - 48)"
  by (simp add: read_nat_def)

lemma show_nat_digits: "list_all is_digit (show_nat n)"
proof (induction n rule: show_nat.induct)
  case (1 n)
  have d: "is_digit (char_of (48 + k))" if "k < 10" for k :: nat using that by (simp add: is_digit_def)
  show ?case using 1 d [of n] d [of "n mod 10"] by (cases "n < 10"; subst show_nat.simps) simp_all
qed

lemma show_nat_nonempty [simp]: "show_nat n \<noteq> []"
  by (subst show_nat.simps) simp

lemma char_of_zero_digit: "char_of (48 :: nat) = CHR ''0''"
  using char_of_char [of "CHR ''0''", where 'a = nat] by simp

lemma digit_zero: "k < (10 :: nat) \<Longrightarrow> char_of (48 + k) = CHR ''0'' \<longleftrightarrow> k = 0"
proof
  assume "k < 10" "char_of (48 + k) = CHR ''0''"
  from arg_cong [OF this(2), of "of_char :: char \<Rightarrow> nat"] this(1) show "k = 0" by simp
qed (simp add: char_of_zero_digit)

lemma char_of_digit: "is_digit c \<Longrightarrow> char_of (48 + (of_char c - 48 :: nat)) = c"
  by (simp add: is_digit_def)

lemma show_nat_no_leading_zero: "length (show_nat n) > 1 \<Longrightarrow> hd (show_nat n) \<noteq> CHR ''0''"
proof (induction n rule: show_nat.induct)
  case (1 n)
  show ?case
  proof (cases "n < 10")
    case True
    with 1(2) show ?thesis by (subst (asm) show_nat.simps) simp
  next
    case False
    have hd: "hd (show_nat n) = hd (show_nat (n div 10))" using False by (subst show_nat.simps) simp
    show ?thesis
    proof (cases "n div 10 < 10")
      case True
      with False have "0 < n div 10" by linarith
      with True have "char_of (48 + n div 10) \<noteq> CHR ''0''" by (simp add: digit_zero)
      with True show ?thesis unfolding hd by (subst show_nat.simps) simp
    next
      case large: False
      have "length (show_nat (n div 10)) > 1" using large by (subst show_nat.simps) (simp add: Suc_lessI)
      with 1(1) [OF False] show ?thesis unfolding hd .
    qed
  qed
qed

text \<open>A digit string without a leading zero is the text of its value.\<close>

lemma show_read_nat:
  "s \<noteq> [] \<Longrightarrow> list_all is_digit s \<Longrightarrow> (length s > 1 \<longrightarrow> hd s \<noteq> CHR ''0'') \<Longrightarrow> show_nat (read_nat s) = s"
proof (induction s rule: rev_induct)
  case (snoc c xs)
  let ?d = "of_char c - 48 :: nat"
  have d: "?d < 10" "char_of (48 + ?d) = c" using snoc.prems(2) by (auto simp: is_digit_def)
  show ?case
  proof (cases "xs = []")
    case True
    then show ?thesis using d by (subst show_nat.simps) (simp add: read_nat_def)
  next
    case False
    with snoc.prems(3) have hd: "hd xs \<noteq> CHR ''0''" by (cases xs) auto
    with snoc False have IH: "show_nat (read_nat xs) = xs" by simp
    have "read_nat xs \<noteq> 0"
    proof
      assume "read_nat xs = 0"
      with IH have "xs = show_nat 0" by simp
      with hd show False by (subst (asm) show_nat.simps) (simp add: char_of_zero_digit)
    qed
    then show ?thesis using IH d by (subst show_nat.simps) (simp add: read_nat_snoc)
  qed
qed simp

lemma read_nat_inj_show: "show_nat m = show_nat n \<longleftrightarrow> m = n"
  by (metis read_show_nat)

section \<open>Step systems\<close>

text \<open>
  A component whose operations are steps on a state: what the initial states satisfy and
  every step keeps holds in every state that a sequence of steps reaches.
\<close>

locale step_system =
  fixes init :: "'s \<Rightarrow> bool" and step :: "'s \<Rightarrow> 's \<Rightarrow> bool" and inv :: "'s \<Rightarrow> bool"
  assumes init_inv: "init s \<Longrightarrow> inv s"
    and step_inv: "inv s \<Longrightarrow> step s t \<Longrightarrow> inv t"
begin

lemma steps_inv: "step\<^sup>*\<^sup>* s t \<Longrightarrow> inv s \<Longrightarrow> inv t"
  by (induction rule: rtranclp_induct) (auto intro: step_inv)

lemma reachable_inv: "init s \<Longrightarrow> step\<^sup>*\<^sup>* s t \<Longrightarrow> inv t"
  using init_inv steps_inv by blast

end

end
