(* ===== verification/Events.thy ===== *)
theory Events
  imports Prelude
begin

text \<open>
  The data that flows through the relay. \<open>event\<close>, \<open>tag\<close> and \<open>nostr_filter\<close> are the
  values of the \<open>nostr\<close> crate as this repository observes them: a tag is what its three
  accessors \<open>kind().to_string()\<close>, \<open>content()\<close> and \<open>as_slice()\<close> return, and a
  single-letter tag key of a filter is its text. Nothing is assumed about how these
  observations relate, so every statement holds for any tag the crate can build.
  \<open>stored_event\<close> is the relay's own wrapper (\<open>buzz-core/src/event.rs\<close>).
\<close>

record tag =
  tag_kind :: string
  tag_content :: "string option"
  tag_slice :: "string list"

record event =
  ev_id :: event_id
  ev_pubkey :: pubkey
  ev_created_at :: u64
  ev_kind :: u16
  ev_tags :: "tag list"
  ev_content :: string

record nostr_filter =
  f_ids :: "event_id list option"
  f_authors :: "pubkey list option"
  f_kinds :: "u16 list option"
  f_since :: "u64 option"
  f_until :: "u64 option"
  f_generic_tags :: "(string \<times> string list) list"
  f_search :: "string option"
  f_limit :: "nat option"

text \<open>A Nostr event with the metadata the relay assigns to it.\<close>

record stored_event =
  se_event :: event
  se_received_at :: nat
  se_channel_id :: "uuid option"
  se_verified :: bool

text \<open>\<open>StoredEvent::new\<close>, with the wall clock as an argument.\<close>

definition stored_event_new :: "nat \<Rightarrow> event \<Rightarrow> uuid option \<Rightarrow> stored_event" where
  "stored_event_new now ev ch =
     \<lparr>se_event = ev, se_received_at = now, se_channel_id = ch, se_verified = False\<rparr>"

definition is_verified :: "stored_event \<Rightarrow> bool" where
  "is_verified se = se_verified se"

definition with_received_at :: "event \<Rightarrow> nat \<Rightarrow> uuid option \<Rightarrow> bool \<Rightarrow> stored_event" where
  "with_received_at ev t ch v =
     \<lparr>se_event = ev, se_received_at = t, se_channel_id = ch, se_verified = v\<rparr>"

end
