(* ===== verification/Kinds.thy ===== *)
theory Kinds
  imports Events
begin

text \<open>
  The event-kind registry of \<open>buzz-core/src/kind.rs\<close>: every kind constant at its width
  (\<open>u32\<close>), the gated-kind lists, the classification predicates that decide how the relay
  routes, stores and reveals an event, and the shared-tag read gate. The lemmas show that
  the registry has no clashing numbers, that the storage and dispatch classes do not
  overlap, and what exactly opens the shared gate.
\<close>

section \<open>Kind constants\<close>

definition KIND_PROFILE :: u32 where
  [kind_defs]: "KIND_PROFILE = 0"

definition KIND_TEXT_NOTE :: u32 where
  [kind_defs]: "KIND_TEXT_NOTE = 1"

definition KIND_CONTACT_LIST :: u32 where
  [kind_defs]: "KIND_CONTACT_LIST = 3"

definition KIND_MUTE_LIST :: u32 where
  [kind_defs]: "KIND_MUTE_LIST = 10000"

definition KIND_PIN_LIST :: u32 where
  [kind_defs]: "KIND_PIN_LIST = 10001"

definition KIND_NIP65_RELAY_LIST_METADATA :: u32 where
  [kind_defs]: "KIND_NIP65_RELAY_LIST_METADATA = 10002"

definition KIND_BOOKMARK_LIST :: u32 where
  [kind_defs]: "KIND_BOOKMARK_LIST = 10003"

definition KIND_EMOJI_LIST :: u32 where
  [kind_defs]: "KIND_EMOJI_LIST = 10030"

definition KIND_FOLLOW_SET :: u32 where
  [kind_defs]: "KIND_FOLLOW_SET = 30000"

definition KIND_BOOKMARK_SET :: u32 where
  [kind_defs]: "KIND_BOOKMARK_SET = 30003"

definition KIND_EMOJI_SET :: u32 where
  [kind_defs]: "KIND_EMOJI_SET = 30030"

definition KIND_CHANNEL_METADATA :: u32 where
  [kind_defs]: "KIND_CHANNEL_METADATA = 41"

definition KIND_DELETION :: u32 where
  [kind_defs]: "KIND_DELETION = 5"

definition KIND_REACTION :: u32 where
  [kind_defs]: "KIND_REACTION = 7"

definition KIND_GIFT_WRAP :: u32 where
  [kind_defs]: "KIND_GIFT_WRAP = 1059"

definition KIND_FILE_METADATA :: u32 where
  [kind_defs]: "KIND_FILE_METADATA = 1063"

definition KIND_LONG_FORM :: u32 where
  [kind_defs]: "KIND_LONG_FORM = 30023"

definition KIND_USER_STATUS :: u32 where
  [kind_defs]: "KIND_USER_STATUS = 30315"

definition KIND_READ_STATE :: u32 where
  [kind_defs]: "KIND_READ_STATE = 30078"

definition KIND_AUTH :: u32 where
  [kind_defs]: "KIND_AUTH = 22242"

definition KIND_BLOSSOM_AUTH :: u32 where
  [kind_defs]: "KIND_BLOSSOM_AUTH = 24242"

definition KIND_NOSTR_IDENTITY_BINDING :: u32 where
  [kind_defs]: "KIND_NOSTR_IDENTITY_BINDING = 24243"

definition KIND_HTTP_AUTH :: u32 where
  [kind_defs]: "KIND_HTTP_AUTH = 27235"

definition KIND_AGENT_PROFILE :: u32 where
  [kind_defs]: "KIND_AGENT_PROFILE = 10100"

definition KIND_AGENT_ENGRAM :: u32 where
  [kind_defs]: "KIND_AGENT_ENGRAM = 30174"

definition KIND_EVENT_REMINDER :: u32 where
  [kind_defs]: "KIND_EVENT_REMINDER = 30300"

definition KIND_PUSH_LEASE :: u32 where
  [kind_defs]: "KIND_PUSH_LEASE = 30350"

definition KIND_PRIVATE_MANAGED_AGENT :: u32 where
  [kind_defs]: "KIND_PRIVATE_MANAGED_AGENT = 30179"

definition KIND_PERSONA :: u32 where
  [kind_defs]: "KIND_PERSONA = 30175"

definition KIND_TEAM :: u32 where
  [kind_defs]: "KIND_TEAM = 30176"

definition KIND_MANAGED_AGENT :: u32 where
  [kind_defs]: "KIND_MANAGED_AGENT = 30177"

definition KIND_TEAM_CATALOG :: u32 where
  [kind_defs]: "KIND_TEAM_CATALOG = 30178"

definition KIND_REPORT :: u32 where
  [kind_defs]: "KIND_REPORT = 1984"

definition KIND_PRODUCT_FEEDBACK :: u32 where
  [kind_defs]: "KIND_PRODUCT_FEEDBACK = 42000"

definition KIND_NIP29_PUT_USER :: u32 where
  [kind_defs]: "KIND_NIP29_PUT_USER = 9000"

definition KIND_NIP29_REMOVE_USER :: u32 where
  [kind_defs]: "KIND_NIP29_REMOVE_USER = 9001"

definition KIND_NIP29_EDIT_METADATA :: u32 where
  [kind_defs]: "KIND_NIP29_EDIT_METADATA = 9002"

definition KIND_NIP29_DELETE_EVENT :: u32 where
  [kind_defs]: "KIND_NIP29_DELETE_EVENT = 9005"

definition KIND_NIP29_CREATE_GROUP :: u32 where
  [kind_defs]: "KIND_NIP29_CREATE_GROUP = 9007"

definition KIND_NIP29_DELETE_GROUP :: u32 where
  [kind_defs]: "KIND_NIP29_DELETE_GROUP = 9008"

definition KIND_NIP29_CREATE_INVITE :: u32 where
  [kind_defs]: "KIND_NIP29_CREATE_INVITE = 9009"

definition KIND_NIP29_JOIN_REQUEST :: u32 where
  [kind_defs]: "KIND_NIP29_JOIN_REQUEST = 9021"

definition KIND_NIP29_LEAVE_REQUEST :: u32 where
  [kind_defs]: "KIND_NIP29_LEAVE_REQUEST = 9022"

definition KIND_MODERATION_BAN :: u32 where
  [kind_defs]: "KIND_MODERATION_BAN = 9040"

definition KIND_MODERATION_UNBAN :: u32 where
  [kind_defs]: "KIND_MODERATION_UNBAN = 9041"

definition KIND_MODERATION_TIMEOUT :: u32 where
  [kind_defs]: "KIND_MODERATION_TIMEOUT = 9042"

definition KIND_MODERATION_UNTIMEOUT :: u32 where
  [kind_defs]: "KIND_MODERATION_UNTIMEOUT = 9043"

definition KIND_MODERATION_RESOLVE_REPORT :: u32 where
  [kind_defs]: "KIND_MODERATION_RESOLVE_REPORT = 9044"

definition RELAY_ADMIN_ADD_MEMBER :: u32 where
  [kind_defs]: "RELAY_ADMIN_ADD_MEMBER = 9030"

definition RELAY_ADMIN_REMOVE_MEMBER :: u32 where
  [kind_defs]: "RELAY_ADMIN_REMOVE_MEMBER = 9031"

definition RELAY_ADMIN_CHANGE_ROLE :: u32 where
  [kind_defs]: "RELAY_ADMIN_CHANGE_ROLE = 9032"

definition RELAY_ADMIN_SET_WORKSPACE_PROFILE :: u32 where
  [kind_defs]: "RELAY_ADMIN_SET_WORKSPACE_PROFILE = 9033"

definition KIND_NIP43_MEMBERSHIP_LIST :: u32 where
  [kind_defs]: "KIND_NIP43_MEMBERSHIP_LIST = 13534"

definition KIND_NIP43_MEMBER_ADDED :: u32 where
  [kind_defs]: "KIND_NIP43_MEMBER_ADDED = 8000"

definition KIND_NIP43_MEMBER_REMOVED :: u32 where
  [kind_defs]: "KIND_NIP43_MEMBER_REMOVED = 8001"

definition KIND_NIP43_LEAVE_REQUEST :: u32 where
  [kind_defs]: "KIND_NIP43_LEAVE_REQUEST = 28936"

definition KIND_IA_ARCHIVE_REQUEST :: u32 where
  [kind_defs]: "KIND_IA_ARCHIVE_REQUEST = 9035"

definition KIND_IA_UNARCHIVE_REQUEST :: u32 where
  [kind_defs]: "KIND_IA_UNARCHIVE_REQUEST = 9036"

definition KIND_IA_ARCHIVED :: u32 where
  [kind_defs]: "KIND_IA_ARCHIVED = 8002"

definition KIND_IA_UNARCHIVED :: u32 where
  [kind_defs]: "KIND_IA_UNARCHIVED = 8003"

definition KIND_IA_ARCHIVED_LIST :: u32 where
  [kind_defs]: "KIND_IA_ARCHIVED_LIST = 13535"

definition KIND_NIP29_GROUP_METADATA :: u32 where
  [kind_defs]: "KIND_NIP29_GROUP_METADATA = 39000"

definition KIND_NIP29_GROUP_ADMINS :: u32 where
  [kind_defs]: "KIND_NIP29_GROUP_ADMINS = 39001"

definition KIND_NIP29_GROUP_MEMBERS :: u32 where
  [kind_defs]: "KIND_NIP29_GROUP_MEMBERS = 39002"

definition KIND_NIP29_GROUP_ROLES :: u32 where
  [kind_defs]: "KIND_NIP29_GROUP_ROLES = 39003"

definition KIND_THREAD_SUMMARY :: u32 where
  [kind_defs]: "KIND_THREAD_SUMMARY = 39005"

definition KIND_WINDOW_BOUNDS :: u32 where
  [kind_defs]: "KIND_WINDOW_BOUNDS = 39006"

definition KIND_WORKFLOW_DEF :: u32 where
  [kind_defs]: "KIND_WORKFLOW_DEF = 30620"

definition KIND_DM_VISIBILITY :: u32 where
  [kind_defs]: "KIND_DM_VISIBILITY = 30622"

definition PARAM_REPLACEABLE_KIND_MIN :: u32 where
  [kind_defs]: "PARAM_REPLACEABLE_KIND_MIN = 30000"

definition PARAM_REPLACEABLE_KIND_MAX :: u32 where
  [kind_defs]: "PARAM_REPLACEABLE_KIND_MAX = 39999"

definition EPHEMERAL_KIND_MIN :: u32 where
  [kind_defs]: "EPHEMERAL_KIND_MIN = 20000"

definition EPHEMERAL_KIND_MAX :: u32 where
  [kind_defs]: "EPHEMERAL_KIND_MAX = 29999"

definition KIND_PRESENCE_UPDATE :: u32 where
  [kind_defs]: "KIND_PRESENCE_UPDATE = 20001"

definition KIND_PAIRING :: u32 where
  [kind_defs]: "KIND_PAIRING = 24134"

definition KIND_TYPING_INDICATOR :: u32 where
  [kind_defs]: "KIND_TYPING_INDICATOR = 20002"

definition KIND_AGENT_OBSERVER_FRAME :: u32 where
  [kind_defs]: "KIND_AGENT_OBSERVER_FRAME = 24200"

definition KIND_HUDDLE_REACTION :: u32 where
  [kind_defs]: "KIND_HUDDLE_REACTION = 24810"

definition KIND_STREAM_MESSAGE :: u32 where
  [kind_defs]: "KIND_STREAM_MESSAGE = 9"

definition KIND_STREAM_MESSAGE_V2 :: u32 where
  [kind_defs]: "KIND_STREAM_MESSAGE_V2 = 40002"

definition KIND_STREAM_MESSAGE_EDIT :: u32 where
  [kind_defs]: "KIND_STREAM_MESSAGE_EDIT = 40003"

definition KIND_STREAM_MESSAGE_PINNED :: u32 where
  [kind_defs]: "KIND_STREAM_MESSAGE_PINNED = 40004"

definition KIND_STREAM_MESSAGE_BOOKMARKED :: u32 where
  [kind_defs]: "KIND_STREAM_MESSAGE_BOOKMARKED = 40005"

definition KIND_STREAM_MESSAGE_SCHEDULED :: u32 where
  [kind_defs]: "KIND_STREAM_MESSAGE_SCHEDULED = 40006"

definition KIND_STREAM_REMINDER :: u32 where
  [kind_defs]: "KIND_STREAM_REMINDER = 40007"

definition KIND_STREAM_MESSAGE_DIFF :: u32 where
  [kind_defs]: "KIND_STREAM_MESSAGE_DIFF = 40008"

definition KIND_CANVAS :: u32 where
  [kind_defs]: "KIND_CANVAS = 40100"

definition KIND_SYSTEM_MESSAGE :: u32 where
  [kind_defs]: "KIND_SYSTEM_MESSAGE = 40099"

definition KIND_CHANNEL_SUMMARY :: u32 where
  [kind_defs]: "KIND_CHANNEL_SUMMARY = 40901"

definition KIND_PRESENCE_SNAPSHOT :: u32 where
  [kind_defs]: "KIND_PRESENCE_SNAPSHOT = 40902"

definition KIND_DM_OPEN :: u32 where
  [kind_defs]: "KIND_DM_OPEN = 41010"

definition KIND_DM_ADD_MEMBER :: u32 where
  [kind_defs]: "KIND_DM_ADD_MEMBER = 41011"

definition KIND_DM_HIDE :: u32 where
  [kind_defs]: "KIND_DM_HIDE = 41012"

definition KIND_DM_CREATED :: u32 where
  [kind_defs]: "KIND_DM_CREATED = 41001"

definition KIND_JOB_REQUEST :: u32 where
  [kind_defs]: "KIND_JOB_REQUEST = 43001"

definition KIND_JOB_ACCEPTED :: u32 where
  [kind_defs]: "KIND_JOB_ACCEPTED = 43002"

definition KIND_JOB_PROGRESS :: u32 where
  [kind_defs]: "KIND_JOB_PROGRESS = 43003"

definition KIND_JOB_RESULT :: u32 where
  [kind_defs]: "KIND_JOB_RESULT = 43004"

definition KIND_JOB_CANCEL :: u32 where
  [kind_defs]: "KIND_JOB_CANCEL = 43005"

definition KIND_JOB_ERROR :: u32 where
  [kind_defs]: "KIND_JOB_ERROR = 43006"

definition KIND_MEMBER_ADDED_NOTIFICATION :: u32 where
  [kind_defs]: "KIND_MEMBER_ADDED_NOTIFICATION = 44100"

definition KIND_MEMBER_REMOVED_NOTIFICATION :: u32 where
  [kind_defs]: "KIND_MEMBER_REMOVED_NOTIFICATION = 44101"

definition KIND_AGENT_TURN_METRIC :: u32 where
  [kind_defs]: "KIND_AGENT_TURN_METRIC = 44200"

definition KIND_FORUM_POST :: u32 where
  [kind_defs]: "KIND_FORUM_POST = 45001"

definition KIND_FORUM_VOTE :: u32 where
  [kind_defs]: "KIND_FORUM_VOTE = 45002"

definition KIND_FORUM_COMMENT :: u32 where
  [kind_defs]: "KIND_FORUM_COMMENT = 45003"

definition KIND_WORKFLOW_TRIGGER :: u32 where
  [kind_defs]: "KIND_WORKFLOW_TRIGGER = 46020"

definition KIND_APPROVAL_GRANT :: u32 where
  [kind_defs]: "KIND_APPROVAL_GRANT = 46030"

definition KIND_APPROVAL_DENY :: u32 where
  [kind_defs]: "KIND_APPROVAL_DENY = 46031"

definition KIND_WORKFLOW_TRIGGERED :: u32 where
  [kind_defs]: "KIND_WORKFLOW_TRIGGERED = 46001"

definition KIND_WORKFLOW_STEP_STARTED :: u32 where
  [kind_defs]: "KIND_WORKFLOW_STEP_STARTED = 46002"

definition KIND_WORKFLOW_STEP_COMPLETED :: u32 where
  [kind_defs]: "KIND_WORKFLOW_STEP_COMPLETED = 46003"

definition KIND_WORKFLOW_STEP_FAILED :: u32 where
  [kind_defs]: "KIND_WORKFLOW_STEP_FAILED = 46004"

definition KIND_WORKFLOW_COMPLETED :: u32 where
  [kind_defs]: "KIND_WORKFLOW_COMPLETED = 46005"

definition KIND_WORKFLOW_FAILED :: u32 where
  [kind_defs]: "KIND_WORKFLOW_FAILED = 46006"

definition KIND_WORKFLOW_CANCELLED :: u32 where
  [kind_defs]: "KIND_WORKFLOW_CANCELLED = 46007"

definition KIND_WORKFLOW_APPROVAL_REQUESTED :: u32 where
  [kind_defs]: "KIND_WORKFLOW_APPROVAL_REQUESTED = 46010"

definition KIND_WORKFLOW_APPROVAL_GRANTED :: u32 where
  [kind_defs]: "KIND_WORKFLOW_APPROVAL_GRANTED = 46011"

definition KIND_WORKFLOW_APPROVAL_DENIED :: u32 where
  [kind_defs]: "KIND_WORKFLOW_APPROVAL_DENIED = 46012"

definition KIND_AUDIT_ENTRY :: u32 where
  [kind_defs]: "KIND_AUDIT_ENTRY = 48001"

definition KIND_HUDDLE_STARTED :: u32 where
  [kind_defs]: "KIND_HUDDLE_STARTED = 48100"

definition KIND_HUDDLE_PARTICIPANT_JOINED :: u32 where
  [kind_defs]: "KIND_HUDDLE_PARTICIPANT_JOINED = 48101"

definition KIND_HUDDLE_PARTICIPANT_LEFT :: u32 where
  [kind_defs]: "KIND_HUDDLE_PARTICIPANT_LEFT = 48102"

definition KIND_HUDDLE_ENDED :: u32 where
  [kind_defs]: "KIND_HUDDLE_ENDED = 48103"

definition KIND_HUDDLE_GUIDELINES :: u32 where
  [kind_defs]: "KIND_HUDDLE_GUIDELINES = 48106"

definition KIND_MEDIA_UPLOAD :: u32 where
  [kind_defs]: "KIND_MEDIA_UPLOAD = 49001"

definition KIND_GIT_REPO_ANNOUNCEMENT :: u32 where
  [kind_defs]: "KIND_GIT_REPO_ANNOUNCEMENT = 30617"

definition KIND_GIT_REPO_STATE :: u32 where
  [kind_defs]: "KIND_GIT_REPO_STATE = 30618"

definition KIND_GIT_PATCH :: u32 where
  [kind_defs]: "KIND_GIT_PATCH = 1617"

definition KIND_GIT_PULL_REQUEST :: u32 where
  [kind_defs]: "KIND_GIT_PULL_REQUEST = 1618"

definition KIND_GIT_PR_UPDATE :: u32 where
  [kind_defs]: "KIND_GIT_PR_UPDATE = 1619"

definition KIND_GIT_ISSUE :: u32 where
  [kind_defs]: "KIND_GIT_ISSUE = 1621"

definition KIND_GIT_STATUS_OPEN :: u32 where
  [kind_defs]: "KIND_GIT_STATUS_OPEN = 1630"

definition KIND_GIT_STATUS_MERGED :: u32 where
  [kind_defs]: "KIND_GIT_STATUS_MERGED = 1631"

definition KIND_GIT_STATUS_CLOSED :: u32 where
  [kind_defs]: "KIND_GIT_STATUS_CLOSED = 1632"

definition KIND_GIT_STATUS_DRAFT :: u32 where
  [kind_defs]: "KIND_GIT_STATUS_DRAFT = 1633"

definition KIND_PROJECT :: u32 where
  [kind_defs]: "KIND_PROJECT = 30621"

section \<open>Gated kinds and the registry\<close>

definition AUTHOR_ONLY_KINDS :: "u32 list" where
  "AUTHOR_ONLY_KINDS = [
    KIND_EVENT_REMINDER, KIND_PUSH_LEASE, KIND_PRIVATE_MANAGED_AGENT]"

definition RESULT_GATED_KINDS :: "u32 list" where
  "RESULT_GATED_KINDS = [
    KIND_DM_VISIBILITY, KIND_AGENT_TURN_METRIC]"

definition P_GATED_KINDS :: "u32 list" where
  "P_GATED_KINDS = [
    KIND_AGENT_OBSERVER_FRAME, KIND_MEMBER_ADDED_NOTIFICATION,
    KIND_MEMBER_REMOVED_NOTIFICATION, KIND_GIFT_WRAP, KIND_DM_VISIBILITY,
    KIND_AGENT_TURN_METRIC]"

definition SHARED_GATED_KINDS :: "u32 list" where
  "SHARED_GATED_KINDS = [
    KIND_PERSONA, KIND_TEAM_CATALOG]"

definition ALL_KINDS :: "u32 list" where
  "ALL_KINDS = [
    KIND_PROFILE, KIND_TEXT_NOTE, KIND_CONTACT_LIST, KIND_MUTE_LIST, KIND_PIN_LIST,
    KIND_NIP65_RELAY_LIST_METADATA, KIND_BOOKMARK_LIST, KIND_EMOJI_LIST, KIND_FOLLOW_SET,
    KIND_BOOKMARK_SET, KIND_EMOJI_SET, KIND_CHANNEL_METADATA, KIND_DELETION, KIND_REACTION,
    KIND_GIFT_WRAP, KIND_FILE_METADATA, KIND_AGENT_PROFILE, KIND_AGENT_ENGRAM,
    KIND_EVENT_REMINDER, KIND_PERSONA, KIND_TEAM, KIND_MANAGED_AGENT, KIND_TEAM_CATALOG,
    KIND_PRIVATE_MANAGED_AGENT, KIND_REPORT, KIND_PRODUCT_FEEDBACK, KIND_NIP29_PUT_USER,
    KIND_NIP29_REMOVE_USER, KIND_NIP29_EDIT_METADATA, KIND_NIP29_DELETE_EVENT,
    KIND_NIP29_CREATE_GROUP, KIND_NIP29_DELETE_GROUP, KIND_NIP29_CREATE_INVITE,
    KIND_NIP29_JOIN_REQUEST, KIND_NIP29_LEAVE_REQUEST, KIND_MODERATION_BAN,
    KIND_MODERATION_UNBAN, KIND_MODERATION_TIMEOUT, KIND_MODERATION_UNTIMEOUT,
    KIND_MODERATION_RESOLVE_REPORT, RELAY_ADMIN_ADD_MEMBER, RELAY_ADMIN_REMOVE_MEMBER,
    RELAY_ADMIN_CHANGE_ROLE, RELAY_ADMIN_SET_WORKSPACE_PROFILE, KIND_NIP43_MEMBERSHIP_LIST,
    KIND_NIP43_MEMBER_ADDED, KIND_NIP43_MEMBER_REMOVED, KIND_NIP43_LEAVE_REQUEST,
    KIND_IA_ARCHIVE_REQUEST, KIND_IA_UNARCHIVE_REQUEST, KIND_IA_ARCHIVED, KIND_IA_UNARCHIVED,
    KIND_IA_ARCHIVED_LIST, KIND_NIP29_GROUP_METADATA, KIND_NIP29_GROUP_ADMINS,
    KIND_NIP29_GROUP_MEMBERS, KIND_NIP29_GROUP_ROLES, KIND_THREAD_SUMMARY, KIND_WINDOW_BOUNDS,
    KIND_PRESENCE_UPDATE, KIND_TYPING_INDICATOR, KIND_HUDDLE_REACTION, KIND_BLOSSOM_AUTH,
    KIND_PAIRING, KIND_AGENT_OBSERVER_FRAME, KIND_HTTP_AUTH, KIND_STREAM_MESSAGE,
    KIND_STREAM_MESSAGE_V2, KIND_STREAM_MESSAGE_EDIT, KIND_STREAM_MESSAGE_PINNED,
    KIND_STREAM_MESSAGE_BOOKMARKED, KIND_STREAM_MESSAGE_SCHEDULED, KIND_STREAM_REMINDER,
    KIND_STREAM_MESSAGE_DIFF, KIND_CANVAS, KIND_SYSTEM_MESSAGE, KIND_CHANNEL_SUMMARY,
    KIND_PRESENCE_SNAPSHOT, KIND_DM_VISIBILITY, KIND_DM_OPEN, KIND_DM_ADD_MEMBER,
    KIND_DM_HIDE, KIND_DM_CREATED, KIND_JOB_REQUEST, KIND_JOB_ACCEPTED, KIND_JOB_PROGRESS,
    KIND_JOB_RESULT, KIND_JOB_CANCEL, KIND_JOB_ERROR, KIND_MEMBER_ADDED_NOTIFICATION,
    KIND_MEMBER_REMOVED_NOTIFICATION, KIND_AGENT_TURN_METRIC, KIND_WORKFLOW_DEF,
    KIND_LONG_FORM, KIND_USER_STATUS, KIND_READ_STATE, KIND_FORUM_POST, KIND_FORUM_VOTE,
    KIND_FORUM_COMMENT, KIND_WORKFLOW_TRIGGER, KIND_APPROVAL_GRANT, KIND_APPROVAL_DENY,
    KIND_WORKFLOW_TRIGGERED, KIND_WORKFLOW_STEP_STARTED, KIND_WORKFLOW_STEP_COMPLETED,
    KIND_WORKFLOW_STEP_FAILED, KIND_WORKFLOW_COMPLETED, KIND_WORKFLOW_FAILED,
    KIND_WORKFLOW_CANCELLED, KIND_WORKFLOW_APPROVAL_REQUESTED, KIND_WORKFLOW_APPROVAL_GRANTED,
    KIND_WORKFLOW_APPROVAL_DENIED, KIND_AUDIT_ENTRY, KIND_HUDDLE_STARTED,
    KIND_HUDDLE_PARTICIPANT_JOINED, KIND_HUDDLE_PARTICIPANT_LEFT, KIND_HUDDLE_ENDED,
    KIND_HUDDLE_GUIDELINES, KIND_MEDIA_UPLOAD, KIND_GIT_REPO_ANNOUNCEMENT,
    KIND_GIT_REPO_STATE, KIND_GIT_PATCH, KIND_GIT_PULL_REQUEST, KIND_GIT_PR_UPDATE,
    KIND_GIT_ISSUE, KIND_GIT_STATUS_OPEN, KIND_GIT_STATUS_MERGED, KIND_GIT_STATUS_CLOSED,
    KIND_GIT_STATUS_DRAFT, KIND_PROJECT]"

section \<open>Classification\<close>

definition is_shared_gated_kind :: "u32 \<Rightarrow> bool" where
  "is_shared_gated_kind kind = (kind \<in> set SHARED_GATED_KINDS)"

definition is_moderation_command_kind :: "u32 \<Rightarrow> bool" where
  "is_moderation_command_kind kind = (kind \<in> {KIND_MODERATION_BAN, KIND_MODERATION_UNBAN,
     KIND_MODERATION_TIMEOUT, KIND_MODERATION_UNTIMEOUT, KIND_MODERATION_RESOLVE_REPORT})"

definition is_ephemeral :: "u32 \<Rightarrow> bool" where
  "is_ephemeral kind = (kind \<ge> EPHEMERAL_KIND_MIN \<and> kind \<le> EPHEMERAL_KIND_MAX)"

definition is_replaceable :: "u32 \<Rightarrow> bool" where
  "is_replaceable kind =
     (kind = 0 \<or> kind = 3 \<or> kind = KIND_CHANNEL_METADATA \<or> (10000 \<le> kind \<and> kind \<le> 19999))"

definition is_parameterized_replaceable :: "u32 \<Rightarrow> bool" where
  "is_parameterized_replaceable kind =
     (kind \<ge> PARAM_REPLACEABLE_KIND_MIN \<and> kind \<le> PARAM_REPLACEABLE_KIND_MAX)"

definition is_workflow_execution_kind :: "u32 \<Rightarrow> bool" where
  "is_workflow_execution_kind kind =
     (kind \<ge> KIND_WORKFLOW_TRIGGERED \<and> kind \<le> KIND_WORKFLOW_APPROVAL_DENIED)"

definition is_relay_admin_kind :: "u32 \<Rightarrow> bool" where
  "is_relay_admin_kind kind = (kind \<in> {RELAY_ADMIN_ADD_MEMBER, RELAY_ADMIN_REMOVE_MEMBER,
     RELAY_ADMIN_CHANGE_ROLE, RELAY_ADMIN_SET_WORKSPACE_PROFILE})"

definition is_identity_archive_request_kind :: "u32 \<Rightarrow> bool" where
  "is_identity_archive_request_kind kind =
     (kind \<in> {KIND_IA_ARCHIVE_REQUEST, KIND_IA_UNARCHIVE_REQUEST})"

definition is_command_kind :: "u32 \<Rightarrow> bool" where
  "is_command_kind kind = (kind \<in> {KIND_WORKFLOW_DEF, KIND_DM_OPEN, KIND_DM_ADD_MEMBER,
     KIND_DM_HIDE, KIND_WORKFLOW_TRIGGER, KIND_APPROVAL_GRANT, KIND_APPROVAL_DENY})"

definition is_relay_only_kind :: "u32 \<Rightarrow> bool" where
  "is_relay_only_kind kind = (kind \<in> {KIND_NIP43_MEMBERSHIP_LIST, KIND_CHANNEL_SUMMARY,
     KIND_PRESENCE_SNAPSHOT, KIND_DM_VISIBILITY, KIND_THREAD_SUMMARY, KIND_WINDOW_BOUNDS})"

lemmas kind_class_defs =
  is_shared_gated_kind_def is_moderation_command_kind_def is_ephemeral_def is_replaceable_def
  is_parameterized_replaceable_def is_workflow_execution_kind_def is_relay_admin_kind_def
  is_identity_archive_request_kind_def is_command_kind_def is_relay_only_kind_def

text \<open>The kind of an event as \<open>u32\<close>, and as the \<open>i32\<close> of a Postgres column.\<close>

definition event_kind_u32 :: "event \<Rightarrow> u32" where
  "event_kind_u32 ev = ucast (ev_kind ev)"

definition event_kind_i32 :: "event \<Rightarrow> 32 word" where
  "event_kind_i32 ev = ucast (ev_kind ev)"

section \<open>The shared-tag read gate\<close>

text \<open>
  The loop of \<open>event_is_shared\<close>: \<open>None\<close> is the early \<open>return false\<close>, \<open>Some n\<close> the
  number of exact \<open>["shared", "true"]\<close> tags seen so far.
\<close>

fun shared_count :: "tag list \<Rightarrow> nat \<Rightarrow> nat option" where
  "shared_count [] n = Some n"
| "shared_count (t # ts) n =
     (let parts = tag_slice t in
      if length parts = 2 \<and> parts ! 0 = ''shared'' then
        (if parts ! 1 \<noteq> ''true'' then None else shared_count ts (n + 1))
      else if parts \<noteq> [] \<and> parts ! 0 = ''shared'' then None
      else shared_count ts n)"

definition event_is_shared :: "event \<Rightarrow> bool" where
  "event_is_shared ev = (shared_count (ev_tags ev) 0 = Some 1)"

definition is_unshared_gated_event :: "event \<Rightarrow> pubkey \<Rightarrow> bool" where
  "is_unshared_gated_event ev requester =
     (if \<not> is_shared_gated_kind (event_kind_u32 ev) then False
      else if ev_pubkey ev = requester then False
      else \<not> event_is_shared ev)"

section \<open>Facts about the registry\<close>

lemma distinct_by_ints: "distinct (map uint xs) \<Longrightarrow> distinct xs"
  by (simp add: distinct_map)

lemma ALL_KINDS_distinct: "distinct ALL_KINDS"
  by (rule distinct_by_ints) (unfold ALL_KINDS_def kind_defs, simp)

lemma ALL_KINDS_u16: "list_all (\<lambda>k. k \<le> 0xFFFF) ALL_KINDS"
  unfolding ALL_KINDS_def kind_defs by simp

lemma registry_gaps:
  "KIND_AUTH \<notin> set ALL_KINDS" "KIND_NOSTR_IDENTITY_BINDING \<notin> set ALL_KINDS"
  "KIND_PUSH_LEASE \<notin> set ALL_KINDS"
  unfolding ALL_KINDS_def kind_defs by simp_all

lemma storage_classes_disjoint:
  "is_ephemeral k \<Longrightarrow> \<not> is_replaceable k" "is_ephemeral k \<Longrightarrow> \<not> is_parameterized_replaceable k"
  "is_replaceable k \<Longrightarrow> \<not> is_parameterized_replaceable k"
  by (auto simp: kind_class_defs kind_defs) unat_arith+

lemma workflow_execution_not_listed:
  "is_workflow_execution_kind k \<Longrightarrow> \<not> is_relay_only_kind k \<and> \<not> is_moderation_command_kind k \<and>
     \<not> is_relay_admin_kind k \<and> \<not> is_identity_archive_request_kind k \<and> \<not> is_command_kind k"
  by (auto simp: kind_class_defs kind_defs)

lemma ephemeral_not_listed:
  "is_ephemeral k \<Longrightarrow> \<not> is_relay_only_kind k \<and> \<not> is_moderation_command_kind k \<and>
     \<not> is_relay_admin_kind k \<and> \<not> is_identity_archive_request_kind k \<and> \<not> is_command_kind k"
  by (auto simp: kind_class_defs kind_defs)

lemma ephemeral_not_workflow: "is_ephemeral k \<Longrightarrow> \<not> is_workflow_execution_kind k"
  by (auto simp: kind_class_defs kind_defs) unat_arith

lemma listed_classes_disjoint:
  "is_relay_only_kind k \<Longrightarrow> \<not> is_moderation_command_kind k \<and> \<not> is_relay_admin_kind k \<and>
     \<not> is_identity_archive_request_kind k \<and> \<not> is_command_kind k"
  "is_moderation_command_kind k \<Longrightarrow> \<not> is_relay_admin_kind k \<and>
     \<not> is_identity_archive_request_kind k \<and> \<not> is_command_kind k"
  "is_relay_admin_kind k \<Longrightarrow> \<not> is_identity_archive_request_kind k \<and> \<not> is_command_kind k"
  "is_identity_archive_request_kind k \<Longrightarrow> \<not> is_command_kind k"
  by (auto simp: kind_class_defs kind_defs)

lemmas class_disjointness = storage_classes_disjoint workflow_execution_not_listed
  ephemeral_not_listed ephemeral_not_workflow listed_classes_disjoint

lemma event_kind_u32_uint [simp]: "uint (event_kind_u32 ev) = uint (ev_kind ev)"
  using uint_lt2p [of "ev_kind ev"]
  by (simp add: event_kind_u32_def unsigned_ucast_eq take_bit_eq_mod)

lemma event_kind_i32_sint [simp]: "sint (event_kind_i32 ev) = uint (ev_kind ev)"
  using uint_lt2p [of "ev_kind ev"]
  by (simp add: event_kind_i32_def signed_ucast_eq signed_take_bit_eq_if_positive
      take_bit_int_eq_self not_le bit_iff_odd)

text \<open>The tags that a reader of the event sees as \<open>shared\<close>, of whatever shape.\<close>

definition shared_tags :: "tag list \<Rightarrow> tag list" where
  "shared_tags ts = filter (\<lambda>t. tag_slice t \<noteq> [] \<and> hd (tag_slice t) = ''shared'') ts"

lemma shared_count_Some:
  "shared_count ts n = Some m \<longleftrightarrow>
     (\<forall>t\<in>set (shared_tags ts). tag_slice t = [''shared'', ''true'']) \<and> m = n + length (shared_tags ts)"
proof (induction ts arbitrary: n)
  case Nil
  then show ?case by (auto simp: shared_tags_def)
next
  case (Cons t ts)
  consider "tag_slice t = []" | a where "tag_slice t = [a]" | a b where "tag_slice t = [a, b]"
    | a b c xs where "tag_slice t = a # b # c # xs"
    by (metis list.exhaust)
  then show ?case
    by cases (auto simp: Cons.IH Let_def shared_tags_def)
qed

lemma event_is_shared_iff:
  "event_is_shared ev \<longleftrightarrow> map tag_slice (shared_tags (ev_tags ev)) = [[''shared'', ''true'']]"
  by (cases "shared_tags (ev_tags ev)") (auto simp: event_is_shared_def shared_count_Some)

section \<open>Properties\<close>

text \<open>
  The dispatch of a submitted event is unambiguous: no kind number, registered or not,
  is in two of the classes the ingest path branches on, and none is in two of the storage
  classes (ephemeral, replaceable, parameterized replaceable).
\<close>

theorem dispatch_classes_exclusive:
  "length (filter (\<lambda>class. class k)
     [is_workflow_execution_kind, is_relay_only_kind, is_moderation_command_kind, is_relay_admin_kind,
      is_identity_archive_request_kind, is_command_kind, is_ephemeral]) \<le> 1 \<and>
   length (filter (\<lambda>class. class k) [is_ephemeral, is_replaceable, is_parameterized_replaceable]) \<le> 1"
  using class_disjointness [of k] by auto

text \<open>
  The kind registry has no collisions and fits the wire format: all its kinds are
  distinct and below 2^16, as the compile-time assertion requires. Three kinds the file
  declares are not in it.
\<close>

theorem registry_sound:
  "distinct ALL_KINDS \<and> list_all (\<lambda>k. k \<le> 0xFFFF) ALL_KINDS \<and>
   list_all (\<lambda>k. k \<notin> set ALL_KINDS) [KIND_AUTH, KIND_NOSTR_IDENTITY_BINDING, KIND_PUSH_LEASE]"
  by (simp add: ALL_KINDS_distinct ALL_KINDS_u16 registry_gaps)

text \<open>
  The shared gate fails closed: an event counts as shared exactly when it carries one
  tag whose first element is \<open>shared\<close> and that tag is \<open>["shared", "true"]\<close>. A gated
  event is withheld exactly from readers other than its author, and exactly while it is not
  shared.
\<close>

theorem shared_gate_fails_closed:
  "is_unshared_gated_event ev reader \<longleftrightarrow>
     event_kind_u32 ev \<in> set SHARED_GATED_KINDS \<and> ev_pubkey ev \<noteq> reader \<and>
     map tag_slice (shared_tags (ev_tags ev)) \<noteq> [[''shared'', ''true'']]"
  by (auto simp: is_unshared_gated_event_def is_shared_gated_kind_def event_is_shared_iff)

end
