(* ===== verification/Filters.thy ===== *)
theory Filters
  imports Kinds
begin

text \<open>
  NIP-01 filter matching and the result-level read gate (\<open>buzz-core/src/filter.rs\<close>).
  The early returns of \<open>filter_match_one\<close> are the conjuncts below, in the order of the
  code. \<open>filter_match_spec\<close> is the declarative reading of NIP-01 with the repository's
  rule for \<open>#h\<close>, and the lemmas show that the code implements it.
\<close>

section \<open>The code\<close>

definition tag_values :: "event \<Rightarrow> string \<Rightarrow> string list" where
  "tag_values ev k = List.map_filter tag_content (filter (\<lambda>t. tag_kind t = k) (ev_tags ev))"

text \<open>One entry of \<open>generic_tags\<close>: the body of the loop, \<open>False\<close> for its \<open>return false\<close>.\<close>

definition generic_tag_ok :: "stored_event \<Rightarrow> string \<times> string list \<Rightarrow> bool" where
  "generic_tag_ok ev entry =
     (let (tag_key_str, vals) = entry;
          has_match = list_ex (\<lambda>filter_val.
             list_ex (\<lambda>event_val. event_val = filter_val) (tag_values (se_event ev) tag_key_str)) vals
      in if \<not> has_match \<and> tag_key_str = ''h'' then
           (let event_has_h_tags = list_ex (\<lambda>t. tag_kind t = ''h'') (ev_tags (se_event ev))
            in if \<not> event_has_h_tags then
                 (case se_channel_id ev of
                    Some ch_str \<Rightarrow> list_ex (\<lambda>v. v = ch_str) vals
                  | None \<Rightarrow> False)
               else False)
         else has_match)"

definition filter_match_one :: "nostr_filter \<Rightarrow> stored_event \<Rightarrow> bool" where
  "filter_match_one f ev =
     (if (case f_kinds f of Some kinds \<Rightarrow> ev_kind (se_event ev) \<notin> set kinds | None \<Rightarrow> False) then False
      else if (case f_authors f of Some authors \<Rightarrow> ev_pubkey (se_event ev) \<notin> set authors
               | None \<Rightarrow> False) then False
      else if (case f_since f of Some since \<Rightarrow> ev_created_at (se_event ev) < since
               | None \<Rightarrow> False) then False
      else if (case f_until f of Some until \<Rightarrow> ev_created_at (se_event ev) > until
               | None \<Rightarrow> False) then False
      else if (case f_ids f of Some ids \<Rightarrow> \<not> list_ex (\<lambda>i. prefix i (ev_id (se_event ev))) ids
               | None \<Rightarrow> False) then False
      else list_all (generic_tag_ok ev) (f_generic_tags f))"

definition filters_match :: "nostr_filter list \<Rightarrow> stored_event \<Rightarrow> bool" where
  "filters_match filters ev = list_ex (\<lambda>f. filter_match_one f ev) filters"

definition reader_authorized_for_event :: "event \<Rightarrow> pubkey \<Rightarrow> bool" where
  "reader_authorized_for_event ev reader =
     (let kind = event_kind_u32 ev
      in if kind \<noteq> KIND_DM_VISIBILITY \<and> kind \<noteq> KIND_AGENT_TURN_METRIC then True
         else list_ex (\<lambda>t. tag_content t = Some reader)
                (filter (\<lambda>t. tag_kind t = ''p'') (ev_tags ev)))"

section \<open>What it means\<close>

text \<open>
  A tag constraint \<open>(k, vals)\<close> holds when some tag of kind \<open>k\<close> carries one of the values;
  for \<open>h\<close>, an event without any \<open>h\<close> tag counts as carrying its stored channel.
\<close>

definition tag_constraint :: "stored_event \<Rightarrow> string \<Rightarrow> string list \<Rightarrow> bool" where
  "tag_constraint ev k vals \<longleftrightarrow>
     (\<exists>v\<in>set vals.
        (\<exists>t\<in>set (ev_tags (se_event ev)). tag_kind t = k \<and> tag_content t = Some v) \<or>
        (k = ''h'' \<and> (\<forall>t\<in>set (ev_tags (se_event ev)). tag_kind t \<noteq> ''h'') \<and>
         se_channel_id ev = Some v))"

definition filter_match_spec :: "nostr_filter \<Rightarrow> stored_event \<Rightarrow> bool" where
  "filter_match_spec f ev \<longleftrightarrow>
     (\<forall>ks. f_kinds f = Some ks \<longrightarrow> ev_kind (se_event ev) \<in> set ks) \<and>
     (\<forall>as. f_authors f = Some as \<longrightarrow> ev_pubkey (se_event ev) \<in> set as) \<and>
     (\<forall>s. f_since f = Some s \<longrightarrow> s \<le> ev_created_at (se_event ev)) \<and>
     (\<forall>u. f_until f = Some u \<longrightarrow> ev_created_at (se_event ev) \<le> u) \<and>
     (\<forall>is. f_ids f = Some is \<longrightarrow> (\<exists>i\<in>set is. prefix i (ev_id (se_event ev)))) \<and>
     (\<forall>(k, vals)\<in>set (f_generic_tags f). tag_constraint ev k vals)"

lemma tag_values_iff:
  "v \<in> set (tag_values ev k) \<longleftrightarrow> (\<exists>t\<in>set (ev_tags ev). tag_kind t = k \<and> tag_content t = Some v)"
  by (force simp: tag_values_def List.map_filter_def)

lemma generic_tag_ok_iff: "generic_tag_ok ev (k, vals) \<longleftrightarrow> tag_constraint ev k vals"
proof -
  have "list_ex (\<lambda>fv. list_ex (\<lambda>x. x = fv) (tag_values (se_event ev) k)) vals \<longleftrightarrow>
        (\<exists>v\<in>set vals. \<exists>t\<in>set (ev_tags (se_event ev)). tag_kind t = k \<and> tag_content t = Some v)"
    by (auto simp: list_ex_iff tag_values_iff)
  then show ?thesis
    by (auto simp: generic_tag_ok_def tag_constraint_def Let_def list_ex_iff split: option.splits)
qed

lemma filter_match_one_iff: "filter_match_one f ev \<longleftrightarrow> filter_match_spec f ev"
  by (auto simp: filter_match_one_def filter_match_spec_def list_all_iff list_ex_iff
      generic_tag_ok_iff not_le not_less split: option.splits)

lemma filters_match_iff: "filters_match fs ev \<longleftrightarrow> (\<exists>f\<in>set fs. filter_match_spec f ev)"
  by (simp add: filters_match_def list_ex_iff filter_match_one_iff)

text \<open>What an index may rely on: a matching filter constrains the kind and the \<open>p\<close> tags.\<close>

lemma filter_match_kind: "filter_match_one f ev \<Longrightarrow> f_kinds f = Some ks \<Longrightarrow> ev_kind (se_event ev) \<in> set ks"
  by (simp add: filter_match_one_iff filter_match_spec_def)

lemma filter_match_p_tag:
  assumes "filter_match_one f ev" and "map_of (f_generic_tags f) ''p'' = Some vals"
  shows "\<exists>v\<in>set vals. \<exists>t\<in>set (ev_tags (se_event ev)). tag_kind t = ''p'' \<and> tag_content t = Some v"
proof -
  from assms(2) have "(''p'', vals) \<in> set (f_generic_tags f)" by (rule map_of_SomeD)
  with assms(1) have "tag_constraint ev ''p'' vals"
    by (auto simp: filter_match_one_iff filter_match_spec_def)
  then show ?thesis by (auto simp: tag_constraint_def)
qed

section \<open>Properties\<close>

text \<open>
  A filter list matches an event exactly when one of its filters does in the
  declarative reading: every constraint present holds, ids by prefix, times inclusively,
  tags by value, with \<open>#h\<close> falling back on the stored channel when the event has no
  \<open>h\<close> tag at all.
\<close>

theorem filters_match_sound_complete:
  "filters_match fs ev \<longleftrightarrow> (\<exists>f\<in>set fs. filter_match_spec f ev)"
  by (rule filters_match_iff)

text \<open>
  The result-level read gate: an event of one of the two reader-gated kinds is released
  to a reader exactly when a \<open>p\<close> tag names the reader; the author has no privilege. Every
  other kind passes.
\<close>

theorem reader_gate_exact:
  "reader_authorized_for_event ev reader \<longleftrightarrow>
     (if event_kind_u32 ev \<in> {KIND_DM_VISIBILITY, KIND_AGENT_TURN_METRIC}
      then reader \<in> set (tag_values ev ''p'') else True)"
  by (auto simp: reader_authorized_for_event_def Let_def list_ex_iff tag_values_iff)

end
