(* ===== verification/SubRegistry.thy ===== *)
theory SubRegistry
  imports Filters
begin

text \<open>
  The relay's subscription registry (\<open>buzz-relay/src/subscription.rs\<close>): the store of live
  subscriptions per connection and the five in-memory indexes that make fan-out sub-linear.
  One definition per method. A concurrent map is an association list; the metrics gauges
  are not part of the state. The lemmas show that every operation keeps the indexes an
  exact mirror of the store and that fan-out returns exactly the subscriptions a full scan
  of the store would return.
\<close>

section \<open>State\<close>

datatype scope = Global | Channels "uuid list"

fun matches_channel :: "scope \<Rightarrow> uuid option \<Rightarrow> bool" where
  "matches_channel Global None = True"
| "matches_channel (Channels channels) (Some channel_id) = (channel_id \<in> set channels)"
| "matches_channel _ _ = False"

fun channel_ids :: "scope \<Rightarrow> uuid list" where
  "channel_ids Global = []"
| "channel_ids (Channels channels) = channels"

fun is_global :: "scope \<Rightarrow> bool" where
  "is_global Global = True"
| "is_global (Channels _) = False"

datatype index_key = IndexKey (ik_channel_id: uuid) (ik_kind: u16)

datatype global_p_kind_key = GlobalPKindIndexKey (gp_community: uuid) (gp_kind: u16) (gp_p: string)

record removed_subscription =
  rs_community_id :: uuid
  rs_scope :: scope

record channel_subscription_update =
  cu_sub_id :: string
  cu_removed :: bool

type_synonym sub_entry = "nostr_filter list \<times> uuid \<times> scope"
type_synonym conn_sub = "uuid \<times> string"

record registry =
  subs :: "(uuid, (string, sub_entry) hashmap) hashmap"
  channel_kind_index :: "(uuid \<times> index_key, conn_sub list) hashmap"
  channel_wildcard_index :: "(uuid \<times> uuid, conn_sub list) hashmap"
  global_kind_index :: "(uuid \<times> u16, conn_sub list) hashmap"
  global_p_kind_index :: "(global_p_kind_key, conn_sub list) hashmap"
  global_wildcard_index :: "(uuid, conn_sub list) hashmap"

definition registry_new :: registry where
  "registry_new = \<lparr>subs = [], channel_kind_index = [], channel_wildcard_index = [],
     global_kind_index = [], global_p_kind_index = [], global_wildcard_index = []\<rparr>"

section \<open>Index keys of a filter list\<close>

fun extract_kinds_loop :: "nostr_filter list \<Rightarrow> u16 list \<Rightarrow> u16 list option" where
  "extract_kinds_loop [] kinds = Some kinds"
| "extract_kinds_loop (f # fs) kinds =
     (case f_kinds f of
        Some filter_kinds \<Rightarrow> extract_kinds_loop fs (fold push_unseen filter_kinds kinds)
      | None \<Rightarrow> None)"

definition extract_kinds_from_filters :: "nostr_filter list \<Rightarrow> u16 list option" where
  "extract_kinds_from_filters filters = extract_kinds_loop filters []"

fun extract_global_p_loop ::
  "uuid \<Rightarrow> nostr_filter list \<Rightarrow> global_p_kind_key list \<Rightarrow> global_p_kind_key list option" where
  "extract_global_p_loop com [] keys = Some keys"
| "extract_global_p_loop com (f # fs) keys =
     (case f_kinds f of
        None \<Rightarrow> None
      | Some kinds \<Rightarrow>
          if kinds = [] then extract_global_p_loop com fs keys
          else (case map_of (f_generic_tags f) ''p'' of
                  None \<Rightarrow> None
                | Some p_values \<Rightarrow>
                    if p_values = [] then None
                    else extract_global_p_loop com fs
                           (fold push_unseen
                              (concat (map (\<lambda>kind. map (GlobalPKindIndexKey com kind) p_values) kinds))
                              keys)))"

definition extract_global_p_kind_index_keys ::
  "uuid \<Rightarrow> nostr_filter list \<Rightarrow> global_p_kind_key list option" where
  "extract_global_p_kind_index_keys com filters = extract_global_p_loop com filters []"

definition event_p_tag_values :: "stored_event \<Rightarrow> string list" where
  "event_p_tag_values ev =
     fold (\<lambda>t values. if tag_kind t \<noteq> ''p'' then values
             else (case tag_content t of Some value \<Rightarrow> push_unseen value values | None \<Rightarrow> values))
       (ev_tags (se_event ev)) []"

section \<open>Index maintenance\<close>

text \<open>The second half of \<open>register_with_scope\<close>: list the subscription in its indexes.\<close>

definition add_to_index ::
  "uuid \<Rightarrow> string \<Rightarrow> nostr_filter list \<Rightarrow> uuid \<Rightarrow> scope \<Rightarrow> registry \<Rightarrow> registry" where
  "add_to_index conn_id sub_id filters com scope r =
     (case scope of
        Channels chs \<Rightarrow>
          fold (\<lambda>ch_id r.
            case extract_kinds_from_filters filters of
              None \<Rightarrow> r\<lparr>channel_wildcard_index :=
                        idx_push (com, ch_id) (conn_id, sub_id) (channel_wildcard_index r)\<rparr>
            | Some kinds \<Rightarrow>
                fold (\<lambda>kind r. r\<lparr>channel_kind_index :=
                    idx_push (com, IndexKey ch_id kind) (conn_id, sub_id) (channel_kind_index r)\<rparr>)
                  kinds r)
            chs r
      | Global \<Rightarrow>
          (case extract_global_p_kind_index_keys com filters of
             Some keys \<Rightarrow>
               fold (\<lambda>key r. r\<lparr>global_p_kind_index :=
                   idx_push key (conn_id, sub_id) (global_p_kind_index r)\<rparr>) keys r
           | None \<Rightarrow>
               (case extract_kinds_from_filters filters of
                  None \<Rightarrow> r\<lparr>global_wildcard_index :=
                            idx_push com (conn_id, sub_id) (global_wildcard_index r)\<rparr>
                | Some kinds \<Rightarrow>
                    fold (\<lambda>kind r. r\<lparr>global_kind_index :=
                        idx_push (com, kind) (conn_id, sub_id) (global_kind_index r)\<rparr>) kinds r)))"

definition remove_from_index ::
  "uuid \<Rightarrow> string \<Rightarrow> nostr_filter list \<Rightarrow> uuid \<Rightarrow> scope \<Rightarrow> registry \<Rightarrow> registry" where
  "remove_from_index conn_id sub_id filters com scope r =
     (let keep = (\<lambda>p. p \<noteq> (conn_id, sub_id)) in
      case scope of
        Channels chs \<Rightarrow>
          fold (\<lambda>ch_id r.
            case extract_kinds_from_filters filters of
              None \<Rightarrow> r\<lparr>channel_wildcard_index :=
                        idx_retain (com, ch_id) keep (channel_wildcard_index r)\<rparr>
            | Some kinds \<Rightarrow>
                fold (\<lambda>kind r. r\<lparr>channel_kind_index :=
                    idx_retain (com, IndexKey ch_id kind) keep (channel_kind_index r)\<rparr>)
                  kinds r)
            chs r
      | Global \<Rightarrow>
          (case extract_global_p_kind_index_keys com filters of
             Some keys \<Rightarrow>
               fold (\<lambda>key r. r\<lparr>global_p_kind_index :=
                   idx_retain key keep (global_p_kind_index r)\<rparr>) keys r
           | None \<Rightarrow>
               (case extract_kinds_from_filters filters of
                  None \<Rightarrow> r\<lparr>global_wildcard_index :=
                            idx_retain com keep (global_wildcard_index r)\<rparr>
                | Some kinds \<Rightarrow>
                    fold (\<lambda>kind r. r\<lparr>global_kind_index :=
                        idx_retain (com, kind) keep (global_kind_index r)\<rparr>) kinds r)))"

section \<open>Operations\<close>

text \<open>The two nested lookups every method starts with.\<close>

definition lookup_sub :: "registry \<Rightarrow> conn_sub \<Rightarrow> sub_entry option" where
  "lookup_sub r p =
     (case map_of (subs r) (fst p) of None \<Rightarrow> None | Some conn_subs \<Rightarrow> map_of conn_subs (snd p))"

definition remove_subscription ::
  "uuid \<Rightarrow> string \<Rightarrow> registry \<Rightarrow> removed_subscription option \<times> registry" where
  "remove_subscription conn_id sub_id r =
     (case map_of (subs r) conn_id of
        None \<Rightarrow> (None, r)
      | Some conn_subs \<Rightarrow>
          (case map_of conn_subs sub_id of
             None \<Rightarrow> (None, r)
           | Some (filters, com, scope) \<Rightarrow>
               (Some \<lparr>rs_community_id = com, rs_scope = scope\<rparr>,
                remove_from_index conn_id sub_id filters com scope
                  (r\<lparr>subs := hm_insert conn_id (hm_remove sub_id conn_subs) (subs r)\<rparr>))))"

definition register_with_scope ::
  "uuid \<Rightarrow> uuid \<Rightarrow> string \<Rightarrow> nostr_filter list \<Rightarrow> scope \<Rightarrow> registry
     \<Rightarrow> removed_subscription option \<times> registry" where
  "register_with_scope com conn_id sub_id filters scope r =
     (let (removed, r1) = remove_subscription conn_id sub_id r;
          conn_subs = (case map_of (subs r1) conn_id of None \<Rightarrow> [] | Some m \<Rightarrow> m);
          r2 = r1\<lparr>subs := hm_insert conn_id (hm_insert sub_id (filters, com, scope) conn_subs) (subs r1)\<rparr>
      in (removed, add_to_index conn_id sub_id filters com scope r2))"

definition register_scoped ::
  "uuid \<Rightarrow> uuid \<Rightarrow> string \<Rightarrow> nostr_filter list \<Rightarrow> uuid option \<Rightarrow> registry
     \<Rightarrow> removed_subscription option \<times> registry" where
  "register_scoped com conn_id sub_id filters channel_id r =
     register_with_scope com conn_id sub_id filters
       (case channel_id of Some c \<Rightarrow> Channels [c] | None \<Rightarrow> Global) r"

definition register_channels_scoped ::
  "uuid \<Rightarrow> uuid \<Rightarrow> string \<Rightarrow> nostr_filter list \<Rightarrow> uuid list \<Rightarrow> registry
     \<Rightarrow> removed_subscription option \<times> registry" where
  "register_channels_scoped com conn_id sub_id filters chs r =
     register_with_scope com conn_id sub_id filters (Channels chs) r"

definition remove_connection :: "uuid \<Rightarrow> registry \<Rightarrow> removed_subscription list \<times> registry" where
  "remove_connection conn_id r =
     (case map_of (subs r) conn_id of
        None \<Rightarrow> ([], r)
      | Some conn_subs \<Rightarrow>
          (map (\<lambda>(sub_id, filters, com, scope). \<lparr>rs_community_id = com, rs_scope = scope\<rparr>) conn_subs,
           fold (\<lambda>(sub_id, filters, com, scope) r. remove_from_index conn_id sub_id filters com scope r)
             conn_subs (r\<lparr>subs := hm_remove conn_id (subs r)\<rparr>)))"

text \<open>The loop of \<open>remove_channel_subscriptions_scoped\<close> over the collected ids.\<close>

fun remove_channel_loop ::
  "uuid \<Rightarrow> uuid \<Rightarrow> uuid \<Rightarrow> string list \<Rightarrow> registry \<Rightarrow> channel_subscription_update list
     \<Rightarrow> channel_subscription_update list \<times> registry" where
  "remove_channel_loop com conn_id ch [] r updates = (updates, r)"
| "remove_channel_loop com conn_id ch (sub_id # rest) r updates =
     (case map_of (subs r) conn_id of
        None \<Rightarrow> (updates, r)
      | Some conn_subs \<Rightarrow>
          (case map_of conn_subs sub_id of
             None \<Rightarrow> remove_channel_loop com conn_id ch rest r updates
           | Some (filters, sub_com, scope) \<Rightarrow>
               (case scope of
                  Global \<Rightarrow> remove_channel_loop com conn_id ch rest r updates
                | Channels chs \<Rightarrow>
                    (let chs' = filter (\<lambda>c. c \<noteq> ch) chs;
                         removed = (chs' = []);
                         r1 = remove_from_index conn_id sub_id filters com (Channels [ch]) r;
                         conn_subs' = (if removed then hm_remove sub_id conn_subs
                                       else hm_insert sub_id (filters, sub_com, Channels chs') conn_subs)
                     in remove_channel_loop com conn_id ch rest
                          (r1\<lparr>subs := hm_insert conn_id conn_subs' (subs r1)\<rparr>)
                          (updates @ [\<lparr>cu_sub_id = sub_id, cu_removed = removed\<rparr>])))))"

definition remove_channel_subscriptions_scoped ::
  "uuid \<Rightarrow> uuid \<Rightarrow> uuid \<Rightarrow> registry \<Rightarrow> channel_subscription_update list \<times> registry" where
  "remove_channel_subscriptions_scoped com conn_id ch r =
     (let sub_ids = (case map_of (subs r) conn_id of
            None \<Rightarrow> []
          | Some conn_subs \<Rightarrow>
              map fst (filter (\<lambda>(sub_id, filters, sub_com, scope).
                         sub_com = com \<and> ch \<in> set (channel_ids scope)) conn_subs))
      in remove_channel_loop com conn_id ch sub_ids r [])"

definition channel_subscriber_conns_scoped :: "uuid \<Rightarrow> uuid \<Rightarrow> registry \<Rightarrow> uuid list" where
  "channel_subscriber_conns_scoped com ch r =
     (let conns = fold (\<lambda>((c, key), entries) conns.
              if c = com \<and> ik_channel_id key = ch then fold push_unseen (map fst entries) conns
              else conns) (channel_kind_index r) []
      in case map_of (channel_wildcard_index r) (com, ch) of
           Some entries \<Rightarrow> fold push_unseen (map fst entries) conns
         | None \<Rightarrow> conns)"

definition push_match ::
  "registry \<Rightarrow> uuid \<Rightarrow> stored_event \<Rightarrow> conn_sub \<Rightarrow> conn_sub list \<Rightarrow> conn_sub list" where
  "push_match r com ev p results =
     (case lookup_sub r p of
        None \<Rightarrow> results
      | Some (filters, sub_com, scope) \<Rightarrow>
          if sub_com = com \<and> matches_channel scope (se_channel_id ev) \<and> filters_match filters ev
          then push_unseen p results else results)"

definition fan_out_scoped :: "uuid \<Rightarrow> stored_event \<Rightarrow> registry \<Rightarrow> conn_sub list" where
  "fan_out_scoped com ev r =
     (case se_channel_id ev of
        Some ch \<Rightarrow>
          (let res = fold (push_match r com ev)
                 (hm_vec (channel_kind_index r) (com, IndexKey ch (ev_kind (se_event ev)))) []
           in fold (push_match r com ev) (hm_vec (channel_wildcard_index r) (com, ch)) res)
      | None \<Rightarrow>
          (let res = fold (\<lambda>p results. fold (push_match r com ev)
                   (hm_vec (global_p_kind_index r)
                      (GlobalPKindIndexKey com (ev_kind (se_event ev)) p)) results)
                 (event_p_tag_values ev) [];
               res = fold (push_match r com ev)
                 (hm_vec (global_kind_index r) (com, ev_kind (se_event ev))) res
           in fold (push_match r com ev) (hm_vec (global_wildcard_index r) com) res))"

definition get_filters :: "uuid \<Rightarrow> string \<Rightarrow> registry \<Rightarrow> nostr_filter list option" where
  "get_filters conn_id sub_id r = map_option (\<lambda>(filters, _, _). filters) (lookup_sub r (conn_id, sub_id))"

definition total_subscriptions :: "registry \<Rightarrow> nat" where
  "total_subscriptions r = sum_list (map (\<lambda>(_, conn_subs). length conn_subs) (subs r))"

definition total_connections :: "registry \<Rightarrow> nat" where
  "total_connections r = length (subs r)"

definition per_community_subscriptions :: "registry \<Rightarrow> (uuid, nat) hashmap" where
  "per_community_subscriptions r =
     fold (\<lambda>(_, conn_subs) counts.
         fold (\<lambda>(_, _, com, _) counts.
             hm_insert com ((case map_of counts com of None \<Rightarrow> 0 | Some n \<Rightarrow> n) + 1) counts)
           conn_subs counts)
       (subs r) []"

end
