(* ===== verification/RegistryCorrect.thy ===== *)
theory RegistryCorrect
  imports SubRegistry
begin

text \<open>
  Correctness of the subscription registry: the key functions that say where an entry is
  listed, the invariant that the five indexes mirror the store, its preservation by every
  operation, and the equivalence of the indexed fan-out with a scan of the store.
\<close>

section \<open>Where an entry is listed\<close>

fun ck_keys :: "sub_entry \<Rightarrow> (uuid \<times> index_key) list" where
  "ck_keys (fs, com, Channels chs) =
     (case extract_kinds_from_filters fs of
        Some ks \<Rightarrow> concat (map (\<lambda>ch. map (\<lambda>k. (com, IndexKey ch k)) ks) chs) | None \<Rightarrow> [])"
| "ck_keys (fs, com, Global) = []"

fun cw_keys :: "sub_entry \<Rightarrow> (uuid \<times> uuid) list" where
  "cw_keys (fs, com, Channels chs) =
     (case extract_kinds_from_filters fs of Some ks \<Rightarrow> [] | None \<Rightarrow> map (Pair com) chs)"
| "cw_keys (fs, com, Global) = []"

fun gp_keys :: "sub_entry \<Rightarrow> global_p_kind_key list" where
  "gp_keys (fs, com, Global) =
     (case extract_global_p_kind_index_keys com fs of Some ks \<Rightarrow> ks | None \<Rightarrow> [])"
| "gp_keys (fs, com, Channels chs) = []"

fun gk_keys :: "sub_entry \<Rightarrow> (uuid \<times> u16) list" where
  "gk_keys (fs, com, Global) =
     (case extract_global_p_kind_index_keys com fs of
        Some _ \<Rightarrow> []
      | None \<Rightarrow> (case extract_kinds_from_filters fs of Some ks \<Rightarrow> map (Pair com) ks | None \<Rightarrow> []))"
| "gk_keys (fs, com, Channels chs) = []"

fun gw_keys :: "sub_entry \<Rightarrow> uuid list" where
  "gw_keys (fs, com, Global) =
     (case extract_global_p_kind_index_keys com fs of
        Some _ \<Rightarrow> []
      | None \<Rightarrow> (case extract_kinds_from_filters fs of Some _ \<Rightarrow> [] | None \<Rightarrow> [com]))"
| "gw_keys (fs, com, Channels chs) = []"

text \<open>Applying one function per index: what both maintenance procedures amount to.\<close>

definition on_indexes where
  "on_indexes ck cw gk gp gw (r :: registry) =
     r\<lparr>channel_kind_index := ck (channel_kind_index r),
       channel_wildcard_index := cw (channel_wildcard_index r),
       global_kind_index := gk (global_kind_index r),
       global_p_kind_index := gp (global_p_kind_index r),
       global_wildcard_index := gw (global_wildcard_index r)\<rparr>"

text \<open>
  A loop that updates one index field is one update of that field by the loop over the
  index: a homomorphism argument, once per field and operation.
\<close>

lemma fold_push_field:
  "fold (\<lambda>k r. r\<lparr>channel_wildcard_index := idx_push (g k) p (channel_wildcard_index r)\<rparr>) ks r =
     r\<lparr>channel_wildcard_index := fold (\<lambda>k. idx_push k p) (map g ks) (channel_wildcard_index r)\<rparr>"
  "fold (\<lambda>k r. r\<lparr>channel_kind_index := idx_push (h k) p (channel_kind_index r)\<rparr>) ks r =
     r\<lparr>channel_kind_index := fold (\<lambda>k. idx_push k p) (map h ks) (channel_kind_index r)\<rparr>"
  "fold (\<lambda>k r. r\<lparr>global_kind_index := idx_push (i k) p (global_kind_index r)\<rparr>) ks r =
     r\<lparr>global_kind_index := fold (\<lambda>k. idx_push k p) (map i ks) (global_kind_index r)\<rparr>"
  "fold (\<lambda>k r. r\<lparr>global_p_kind_index := idx_push (j k) p (global_p_kind_index r)\<rparr>) ks r =
     r\<lparr>global_p_kind_index := fold (\<lambda>k. idx_push k p) (map j ks) (global_p_kind_index r)\<rparr>"
  by (induction ks arbitrary: r) simp_all

lemma fold_retain_field:
  "fold (\<lambda>k r. r\<lparr>channel_wildcard_index := idx_retain (g k) P (channel_wildcard_index r)\<rparr>) ks r =
     r\<lparr>channel_wildcard_index := fold (\<lambda>k. idx_retain k P) (map g ks) (channel_wildcard_index r)\<rparr>"
  "fold (\<lambda>k r. r\<lparr>channel_kind_index := idx_retain (h k) P (channel_kind_index r)\<rparr>) ks r =
     r\<lparr>channel_kind_index := fold (\<lambda>k. idx_retain k P) (map h ks) (channel_kind_index r)\<rparr>"
  "fold (\<lambda>k r. r\<lparr>global_kind_index := idx_retain (i k) P (global_kind_index r)\<rparr>) ks r =
     r\<lparr>global_kind_index := fold (\<lambda>k. idx_retain k P) (map i ks) (global_kind_index r)\<rparr>"
  "fold (\<lambda>k r. r\<lparr>global_p_kind_index := idx_retain (j k) P (global_p_kind_index r)\<rparr>) ks r =
     r\<lparr>global_p_kind_index := fold (\<lambda>k. idx_retain k P) (map j ks) (global_p_kind_index r)\<rparr>"
  by (induction ks arbitrary: r) simp_all

lemma fold_nested_field:
  "fold (\<lambda>ch r. r\<lparr>channel_kind_index :=
       fold (\<lambda>k. idx_push k p) (map (g ch) ks) (channel_kind_index r)\<rparr>) chs r =
     r\<lparr>channel_kind_index :=
        fold (\<lambda>k. idx_push k p) (concat (map (\<lambda>ch. map (g ch) ks) chs)) (channel_kind_index r)\<rparr>"
  "fold (\<lambda>ch r. r\<lparr>channel_kind_index :=
       fold (\<lambda>k. idx_retain k P) (map (g ch) ks) (channel_kind_index r)\<rparr>) chs r =
     r\<lparr>channel_kind_index :=
        fold (\<lambda>k. idx_retain k P) (concat (map (\<lambda>ch. map (g ch) ks) chs)) (channel_kind_index r)\<rparr>"
  by (induction chs arbitrary: r) simp_all

lemmas fold_index_fields = fold_nested_field fold_push_field fold_retain_field
  fold_push_field(4) [where j = "\<lambda>k. k"] fold_retain_field(4) [where j = "\<lambda>k. k"]

lemma add_to_index_eq:
  "add_to_index c s fs com sc r =
     (let e = (fs, com, sc); p = (c, s) in
      on_indexes (fold (\<lambda>k. idx_push k p) (ck_keys e)) (fold (\<lambda>k. idx_push k p) (cw_keys e))
        (fold (\<lambda>k. idx_push k p) (gk_keys e)) (fold (\<lambda>k. idx_push k p) (gp_keys e))
        (fold (\<lambda>k. idx_push k p) (gw_keys e)) r)"
  by (cases sc; cases "extract_kinds_from_filters fs"; cases "extract_global_p_kind_index_keys com fs")
    (simp_all add: add_to_index_def on_indexes_def fold_index_fields)

lemma remove_from_index_eq:
  "remove_from_index c s fs com sc r =
     (let e = (fs, com, sc); P = (\<lambda>q. q \<noteq> (c, s)) in
      on_indexes (fold (\<lambda>k. idx_retain k P) (ck_keys e)) (fold (\<lambda>k. idx_retain k P) (cw_keys e))
        (fold (\<lambda>k. idx_retain k P) (gk_keys e)) (fold (\<lambda>k. idx_retain k P) (gp_keys e))
        (fold (\<lambda>k. idx_retain k P) (gw_keys e)) r)"
  by (cases sc; cases "extract_kinds_from_filters fs"; cases "extract_global_p_kind_index_keys com fs")
    (simp_all add: remove_from_index_def on_indexes_def fold_index_fields)

section \<open>The invariant\<close>

text \<open>
  The store is a well-formed map of well-formed maps, each index lists a subscription under
  exactly the keys of its entry, and no index keeps an empty vector.
\<close>

definition store_wf :: "registry \<Rightarrow> bool" where
  "store_wf r = (hm_wf (subs r) \<and> (\<forall>c m. map_of (subs r) c = Some m \<longrightarrow> hm_wf m))"

definition mirrors :: "(conn_sub \<Rightarrow> 'e option) \<Rightarrow> ('e \<Rightarrow> 'k list) \<Rightarrow> ('k, conn_sub list) hashmap \<Rightarrow> bool" where
  "mirrors L keys_of m =
     ((\<forall>p k. p \<in> set (hm_vec m k) \<longleftrightarrow> (\<exists>e. L p = Some e \<and> k \<in> set (keys_of e))) \<and>
      hm_wf m \<and> idx_no_empty m)"

definition indexes_mirror :: "(conn_sub \<Rightarrow> sub_entry option) \<Rightarrow> registry \<Rightarrow> bool" where
  "indexes_mirror L r =
     (mirrors L ck_keys (channel_kind_index r) \<and> mirrors L cw_keys (channel_wildcard_index r) \<and>
      mirrors L gk_keys (global_kind_index r) \<and> mirrors L gp_keys (global_p_kind_index r) \<and>
      mirrors L gw_keys (global_wildcard_index r))"

definition registry_inv :: "registry \<Rightarrow> bool" where
  "registry_inv r = (store_wf r \<and> indexes_mirror (lookup_sub r) r)"

lemma mirrors_fold_wf:
  "hm_wf m \<Longrightarrow> hm_wf (fold (\<lambda>k. idx_push k p) ks m)" "hm_wf m \<Longrightarrow> hm_wf (fold (\<lambda>k. idx_retain k P) ks m)"
  "idx_no_empty m \<Longrightarrow> idx_no_empty (fold (\<lambda>k. idx_push k p) ks m)"
  "idx_no_empty m \<Longrightarrow> idx_no_empty (fold (\<lambda>k. idx_retain k P) ks m)"
  by (rule fold_invariant; simp)+

lemma mirrors_added:
  "mirrors L keys_of m \<Longrightarrow> L p = None \<Longrightarrow>
     mirrors (L(p \<mapsto> e)) keys_of (fold (\<lambda>k. idx_push k p) (keys_of e) m)"
  using idx.mirrors_add [of m L keys_of p _ e] by (auto simp: mirrors_def mirrors_fold_wf)

text \<open>The keys an optional entry is listed under.\<close>

definition okeys :: "('e \<Rightarrow> 'k list) \<Rightarrow> 'e option \<Rightarrow> 'k set" where
  "okeys keys_of e = (case e of None \<Rightarrow> {} | Some x \<Rightarrow> set (keys_of x))"

lemma okeys_simps [simp]: "okeys f None = {}" "okeys f (Some x) = set (f x)"
  by (simp_all add: okeys_def)

lemma mirrors_changed:
  assumes "mirrors L keys_of m" "L p = Some e" "okeys keys_of e' = set (keys_of e) - set ks"
  shows "mirrors (L(p := e')) keys_of (fold (\<lambda>k. idx_retain k (\<lambda>q. q \<noteq> p)) ks m)"
proof (cases e')
  case None
  then show ?thesis
    using assms idx.mirrors_remove [of m L keys_of p e ks] by (auto simp: mirrors_def mirrors_fold_wf)
next
  case (Some x)
  then show ?thesis
    using assms idx.mirrors_shrink [of m L keys_of p e x ks] by (auto simp: mirrors_def mirrors_fold_wf)
qed

lemma indexes_mirror_subs [simp]: "indexes_mirror L (r\<lparr>subs := m\<rparr>) = indexes_mirror L r"
  by (simp add: indexes_mirror_def)

lemma indexes_mirror_add:
  assumes "indexes_mirror L r" "L (c, s) = None"
  shows "indexes_mirror (L((c, s) \<mapsto> (fs, com, sc))) (add_to_index c s fs com sc r)"
  using assms unfolding indexes_mirror_def add_to_index_eq on_indexes_def Let_def
  by (auto intro: mirrors_added)

lemma indexes_mirror_change:
  assumes "indexes_mirror L r" "L (c, s) = Some e"
    and "okeys ck_keys e' = set (ck_keys e) - set (ck_keys (fs, com, sc))"
    and "okeys cw_keys e' = set (cw_keys e) - set (cw_keys (fs, com, sc))"
    and "okeys gk_keys e' = set (gk_keys e) - set (gk_keys (fs, com, sc))"
    and "okeys gp_keys e' = set (gp_keys e) - set (gp_keys (fs, com, sc))"
    and "okeys gw_keys e' = set (gw_keys e) - set (gw_keys (fs, com, sc))"
  shows "indexes_mirror (L((c, s) := e')) (remove_from_index c s fs com sc r)"
  using assms unfolding indexes_mirror_def remove_from_index_eq on_indexes_def Let_def
  by (auto intro: mirrors_changed)

lemma indexes_mirror_remove:
  "indexes_mirror L r \<Longrightarrow> L (c, s) = Some (fs, com, sc) \<Longrightarrow>
     indexes_mirror (L((c, s) := None)) (remove_from_index c s fs com sc r)"
  by (rule indexes_mirror_change) auto

lemma subs_add [simp]: "subs (add_to_index c s fs com sc r) = subs r"
  by (simp add: add_to_index_eq on_indexes_def Let_def)

lemma subs_remove [simp]: "subs (remove_from_index c s fs com sc r) = subs r"
  by (simp add: remove_from_index_eq on_indexes_def Let_def)

section \<open>Every operation keeps the invariant\<close>

lemma lookup_sub_cong: "subs r = subs r' \<Longrightarrow> lookup_sub r = lookup_sub r'"
  by (rule ext) (simp add: lookup_sub_def)

lemma lookup_sub_store:
  "lookup_sub (r\<lparr>subs := hm_insert c m (subs r)\<rparr>) =
     (\<lambda>p. if fst p = c then map_of m (snd p) else lookup_sub r p)"
  by (rule ext) (simp add: lookup_sub_def)

lemma lookup_sub_insert:
  "map_of (subs r) c = Some m \<or> (map_of (subs r) c = None \<and> m = []) \<Longrightarrow>
   lookup_sub (r\<lparr>subs := hm_insert c (hm_insert s e m) (subs r)\<rparr>) = (lookup_sub r)((c, s) \<mapsto> e)"
  by (rule ext) (auto simp: lookup_sub_def)

lemma lookup_sub_delete:
  "map_of (subs r) c = Some m \<Longrightarrow>
   lookup_sub (r\<lparr>subs := hm_insert c (hm_remove s m) (subs r)\<rparr>) = (lookup_sub r)((c, s) := None)"
  by (rule ext) (auto simp: lookup_sub_def)

lemma store_wf_insert:
  "store_wf r \<Longrightarrow> hm_wf m \<Longrightarrow> store_wf (r\<lparr>subs := hm_insert c m (subs r)\<rparr>)"
  by (simp add: store_wf_def)

lemma registry_inv_new: "registry_inv registry_new"
  by (simp add: registry_inv_def store_wf_def indexes_mirror_def mirrors_def registry_new_def
      lookup_sub_def)

lemma remove_subscription_lookup:
  "lookup_sub (snd (remove_subscription c s r)) = (lookup_sub r)((c, s) := None)"
  by (auto simp: remove_subscription_def lookup_sub_def fun_eq_iff split: option.splits)

lemma store_wf_remove_from_index [simp]:
  "store_wf (remove_from_index c s fs com sc r) = store_wf r" "store_wf (add_to_index c s fs com sc r) = store_wf r"
  by (simp_all add: store_wf_def)

lemma remove_subscription_inv:
  assumes "registry_inv r"
  shows "registry_inv (snd (remove_subscription c s r))"
proof (cases "lookup_sub r (c, s)")
  case None
  with assms show ?thesis
    by (auto simp: remove_subscription_def lookup_sub_def split: option.splits)
next
  case (Some e)
  then obtain m fs com sc where m: "map_of (subs r) c = Some m" and e: "map_of m s = Some (fs, com, sc)"
    by (cases e) (auto simp: lookup_sub_def split: option.splits)
  let ?r = "r\<lparr>subs := hm_insert c (hm_remove s m) (subs r)\<rparr>"
  have wf: "store_wf ?r"
    using assms m by (auto simp: registry_inv_def store_wf_def)
  have "indexes_mirror ((lookup_sub r)((c, s) := None)) (remove_from_index c s fs com sc ?r)"
    using assms m e by (intro indexes_mirror_remove) (auto simp: registry_inv_def lookup_sub_def)
  moreover have "lookup_sub (remove_from_index c s fs com sc ?r) = (lookup_sub r)((c, s) := None)"
    using lookup_sub_delete [OF m] by (simp add: lookup_sub_cong [of "remove_from_index c s fs com sc ?r" ?r])
  ultimately show ?thesis
    using wf m e by (simp add: registry_inv_def remove_subscription_def)
qed

lemma register_with_scope_lookup:
  "lookup_sub (snd (register_with_scope com c s fs sc r)) = (lookup_sub r)((c, s) \<mapsto> (fs, com, sc))"
proof -
  define r1 where "r1 = snd (remove_subscription c s r)"
  define m where "m = (case map_of (subs r1) c of None \<Rightarrow> [] | Some m \<Rightarrow> m)"
  have "lookup_sub (snd (register_with_scope com c s fs sc r)) =
        lookup_sub (r1\<lparr>subs := hm_insert c (hm_insert s (fs, com, sc) m) (subs r1)\<rparr>)"
    by (rule lookup_sub_cong) (simp add: register_with_scope_def r1_def m_def Let_def split: prod.split)
  also have "\<dots> = (lookup_sub r1)((c, s) \<mapsto> (fs, com, sc))"
    by (rule lookup_sub_insert) (auto simp: m_def split: option.splits)
  also have "\<dots> = (lookup_sub r)((c, s) \<mapsto> (fs, com, sc))"
    by (simp add: r1_def remove_subscription_lookup)
  finally show ?thesis .
qed

lemma register_with_scope_inv:
  assumes "registry_inv r"
  shows "registry_inv (snd (register_with_scope com c s fs sc r))"
proof -
  define r1 where "r1 = snd (remove_subscription c s r)"
  define m where "m = (case map_of (subs r1) c of None \<Rightarrow> [] | Some m \<Rightarrow> m)"
  define r2 where "r2 = r1\<lparr>subs := hm_insert c (hm_insert s (fs, com, sc) m) (subs r1)\<rparr>"
  have eq: "snd (register_with_scope com c s fs sc r) = add_to_index c s fs com sc r2"
    by (simp add: register_with_scope_def r1_def r2_def m_def Let_def split: prod.split)
  have inv1: "registry_inv r1" unfolding r1_def by (rule remove_subscription_inv [OF assms])
  have free: "lookup_sub r1 (c, s) = None" by (simp add: r1_def remove_subscription_lookup)
  have "hm_wf m"
    using inv1 by (auto simp: m_def registry_inv_def store_wf_def split: option.splits)
  then have wf: "store_wf r2"
    using inv1 unfolding r2_def by (intro store_wf_insert) (simp_all add: registry_inv_def)
  have "indexes_mirror ((lookup_sub r1)((c, s) \<mapsto> (fs, com, sc))) (add_to_index c s fs com sc r2)"
    using inv1 free by (intro indexes_mirror_add) (simp_all add: r2_def registry_inv_def)
  then show ?thesis
    using wf register_with_scope_lookup [of com c s fs sc r]
    by (simp add: registry_inv_def eq r1_def remove_subscription_lookup)
qed

text \<open>Dropping a whole connection: the loop over its map, with the entries still to drop.\<close>

lemma remove_entries_mirror:
  assumes "indexes_mirror L r" and "distinct (map fst es)"
    and "\<And>s e. (s, e) \<in> set es \<Longrightarrow> L (c, s) = Some e"
  shows "indexes_mirror (\<lambda>p. if fst p = c \<and> snd p \<in> fst ` set es then None else L p)
     (fold (\<lambda>(s, fs, com, sc) r. remove_from_index c s fs com sc r) es r)"
  using assms
proof (induction es arbitrary: L r)
  case Nil
  then show ?case by simp
next
  case (Cons a es)
  obtain s fs com sc where a: "a = (s, fs, com, sc)" by (cases a) auto
  let ?L = "L((c, s) := None)"
  have mir: "indexes_mirror ?L (remove_from_index c s fs com sc r)"
    using Cons.prems by (intro indexes_mirror_remove) (simp_all add: a)
  have left: "?L (c, s') = Some e" if "(s', e) \<in> set es" for s' e
    using Cons.prems that by (auto simp: a image_iff)
  have "distinct (map fst es)" using Cons.prems by simp
  note IH = Cons.IH [OF mir this left]
  have "(\<lambda>p. if fst p = c \<and> snd p \<in> fst ` set es then None else ?L p) =
      (\<lambda>p. if fst p = c \<and> snd p \<in> fst ` set (a # es) then None else L p)"
    by (auto simp: a fun_eq_iff)
  with IH show ?case by (simp add: a)
qed

lemma subs_fold_remove [simp]:
  "subs (fold (\<lambda>(s, fs, com, sc) r. remove_from_index c s fs com sc r) es r) = subs r"
  by (induction es arbitrary: r) auto

lemma remove_connection_lookup:
  "lookup_sub (snd (remove_connection c r)) = (\<lambda>p. if fst p = c then None else lookup_sub r p)"
  by (auto simp: remove_connection_def lookup_sub_def fun_eq_iff split: option.splits)

lemma remove_connection_inv:
  assumes "registry_inv r"
  shows "registry_inv (snd (remove_connection c r))"
proof (cases "map_of (subs r) c")
  case None
  with assms show ?thesis by (simp add: remove_connection_def)
next
  case (Some m)
  have wfm: "hm_wf m" using assms Some by (auto simp: registry_inv_def store_wf_def)
  let ?r = "r\<lparr>subs := hm_remove c (subs r)\<rparr>"
  let ?r' = "fold (\<lambda>(s, fs, com, sc) r. remove_from_index c s fs com sc r) m ?r"
  have "indexes_mirror (\<lambda>p. if fst p = c \<and> snd p \<in> fst ` set m then None else lookup_sub r p) ?r'"
  proof (rule remove_entries_mirror)
    show "indexes_mirror (lookup_sub r) ?r" using assms by (simp add: registry_inv_def)
    show "distinct (map fst m)" using wfm by (simp add: hm_wf_def)
    show "lookup_sub r (c, s) = Some e" if "(s, e) \<in> set m" for s e
      using that Some wfm by (simp add: lookup_sub_def hm_wf_lookup)
  qed
  moreover have "(\<lambda>p. if fst p = c \<and> snd p \<in> fst ` set m then None else lookup_sub r p) = lookup_sub ?r'"
    using Some by (auto simp: lookup_sub_def fun_eq_iff map_of_eq_None_iff split: option.split)
  moreover have "store_wf ?r'"
    using assms by (auto simp: store_wf_def registry_inv_def)
  ultimately show ?thesis
    using Some by (simp add: registry_inv_def remove_connection_def)
qed

lemma set_ck_keys_Some:
  "extract_kinds_from_filters fs = Some ks \<Longrightarrow>
     set (ck_keys (fs, com, Channels chs)) = (\<lambda>(x, k). (com, IndexKey x k)) ` (set chs \<times> set ks)"
  by force

lemma remove_channel_step_mirror:
  assumes "indexes_mirror L r" "L (c, s) = Some (fs, com, Channels chs)"
    and "chs' = filter (\<lambda>x. x \<noteq> ch) chs"
  shows "indexes_mirror (L((c, s) := (if chs' = [] then None else Some (fs, com, Channels chs'))))
           (remove_from_index c s fs com (Channels [ch]) r)"
proof (cases "extract_kinds_from_filters fs")
  case None
  with assms show ?thesis by (intro indexes_mirror_change) (auto simp: filter_empty_conv)
next
  case (Some ks)
  have "inj_on (\<lambda>(x, k). (com, IndexKey x k)) A" for A by (auto simp: inj_on_def)
  then have minus: "(\<lambda>(x, k). (com, IndexKey x k)) ` A - (\<lambda>(x, k). (com, IndexKey x k)) ` B =
      (\<lambda>(x, k). (com, IndexKey x k)) ` (A - B)" for A B
    by (metis image_set_diff)
  have "okeys ck_keys (if chs' = [] then None else Some (fs, com, Channels chs')) =
      set (ck_keys (fs, com, Channels chs)) - set (ck_keys (fs, com, Channels [ch]))"
    unfolding set_ck_keys_Some [OF Some] minus
    using assms(3) by (auto simp del: ck_keys.simps simp: set_ck_keys_Some [OF Some] filter_empty_conv)
  then show ?thesis
    using Some by (intro indexes_mirror_change [OF assms(1,2)]) (simp_all del: ck_keys.simps)
qed

text \<open>
  The state in which the loop over the collected ids runs: each id still names a channel
  subscription of the community that holds the channel.
\<close>

lemma remove_channel_loop_inv:
  assumes "registry_inv r" and "distinct ids"
    and "\<And>s. s \<in> set ids \<Longrightarrow> \<exists>fs chs. lookup_sub r (c, s) = Some (fs, com, Channels chs) \<and> ch \<in> set chs"
  shows "registry_inv (snd (remove_channel_loop com c ch ids r ups)) \<and>
    lookup_sub (snd (remove_channel_loop com c ch ids r ups)) =
      (\<lambda>p. if fst p = c \<and> snd p \<in> set ids then
             (case lookup_sub r p of
                Some (fs, com', Channels chs) \<Rightarrow>
                  (let chs' = filter (\<lambda>x. x \<noteq> ch) chs
                   in if chs' = [] then None else Some (fs, com', Channels chs'))
              | e \<Rightarrow> e)
           else lookup_sub r p)"
  using assms
proof (induction ids arbitrary: r ups)
  case Nil
  then show ?case by (simp add: fun_eq_iff)
next
  case (Cons s ids)
  from Cons.prems(3) [of s] obtain fs chs
    where look: "lookup_sub r (c, s) = Some (fs, com, Channels chs)" and ch: "ch \<in> set chs" by auto
  then obtain m where m: "map_of (subs r) c = Some m" and ms: "map_of m s = Some (fs, com, Channels chs)"
    by (auto simp: lookup_sub_def split: option.splits)
  define chs' where "chs' = filter (\<lambda>x. x \<noteq> ch) chs"
  define e' where "e' = (if chs' = [] then None else Some (fs, com, Channels chs'))"
  define m' where "m' = (if chs' = [] then hm_remove s m else hm_insert s (fs, com, Channels chs') m)"
  define r1 where "r1 = remove_from_index c s fs com (Channels [ch]) r"
  define r2 where "r2 = r1\<lparr>subs := hm_insert c m' (subs r1)\<rparr>"
  have look2: "lookup_sub r2 = (lookup_sub r)((c, s) := e')"
    using m ms by (auto simp: fun_eq_iff lookup_sub_def r2_def r1_def m'_def e'_def)
  have "hm_wf m'" using Cons.prems(1) m by (auto simp: m'_def registry_inv_def store_wf_def)
  then have "store_wf r2"
    using Cons.prems(1) unfolding r2_def r1_def by (intro store_wf_insert) (simp_all add: registry_inv_def)
  moreover have "indexes_mirror (lookup_sub r2) r2"
    using remove_channel_step_mirror [where L = "lookup_sub r", OF _ look chs'_def] Cons.prems(1)
    unfolding look2 e'_def by (simp add: r2_def r1_def registry_inv_def)
  ultimately have inv2: "registry_inv r2" by (simp add: registry_inv_def)
  have step: "remove_channel_loop com c ch (s # ids) r ups =
      remove_channel_loop com c ch ids r2 (ups @ [\<lparr>cu_sub_id = s, cu_removed = (chs' = [])\<rparr>])"
    using m ms by (simp add: Let_def r2_def r1_def m'_def chs'_def)
  have ids: "\<exists>fs chs. lookup_sub r2 (c, t) = Some (fs, com, Channels chs) \<and> ch \<in> set chs"
    if "t \<in> set ids" for t
    using Cons.prems(2,3) that by (auto simp: look2)
  note IH = Cons.IH [OF inv2 _ ids, of "ups @ [\<lparr>cu_sub_id = s, cu_removed = (chs' = [])\<rparr>]"]
  show ?case unfolding step
    using IH Cons.prems(2) look by (auto simp: look2 fun_eq_iff e'_def chs'_def Let_def)
qed

lemma remove_channel_subscriptions_spec:
  assumes "registry_inv r"
  shows "registry_inv (snd (remove_channel_subscriptions_scoped com c ch r)) \<and>
    lookup_sub (snd (remove_channel_subscriptions_scoped com c ch r)) p =
      (case lookup_sub r p of
         Some (fs, com', Channels chs) \<Rightarrow>
           if fst p = c \<and> com' = com \<and> ch \<in> set chs then
             (let chs' = filter (\<lambda>x. x \<noteq> ch) chs
              in if chs' = [] then None else Some (fs, com', Channels chs'))
           else lookup_sub r p
       | e \<Rightarrow> e)"
proof (cases "map_of (subs r) c")
  case None
  then show ?thesis
    using assms by (auto simp: remove_channel_subscriptions_scoped_def lookup_sub_def
        split: option.split prod.split scope.split)
next
  case (Some m)
  define ids where "ids = map fst (filter (\<lambda>(s, fs, com', sc). com' = com \<and> ch \<in> set (channel_ids sc)) m)"
  have wf: "hm_wf m" using assms Some by (auto simp: registry_inv_def store_wf_def)
  have mem: "s \<in> set ids \<longleftrightarrow> (\<exists>fs chs. lookup_sub r (c, s) = Some (fs, com, Channels chs) \<and> ch \<in> set chs)" for s
  proof -
    have "s \<in> set ids \<longleftrightarrow> (\<exists>fs sc. (s, fs, com, sc) \<in> set m \<and> ch \<in> set (channel_ids sc))"
      by (force simp: ids_def)
    also have "\<dots> \<longleftrightarrow> (\<exists>fs sc. lookup_sub r (c, s) = Some (fs, com, sc) \<and> ch \<in> set (channel_ids sc))"
      using Some wf by (simp add: hm_wf_lookup lookup_sub_def)
    also have "\<dots> \<longleftrightarrow> (\<exists>fs chs. lookup_sub r (c, s) = Some (fs, com, Channels chs) \<and> ch \<in> set chs)"
      by (metis channel_ids.simps empty_iff list.set(1) scope.exhaust)
    finally show ?thesis .
  qed
  have dist: "distinct ids" using wf by (simp add: ids_def hm_wf_def distinct_map_filter)
  have eq: "remove_channel_subscriptions_scoped com c ch r = remove_channel_loop com c ch ids r []"
    using Some by (simp add: remove_channel_subscriptions_scoped_def ids_def)
  note loop = remove_channel_loop_inv [OF assms dist, where c = c and com = com and ch = ch and ups = "[]"]
  have conds: "\<exists>fs chs. lookup_sub r (c, s) = Some (fs, com, Channels chs) \<and> ch \<in> set chs"
    if "s \<in> set ids" for s using that mem by simp
  show ?thesis
    using loop [OF conds] mem [of "snd p"] unfolding eq
    by (cases p; cases "lookup_sub r p") (auto split: scope.split)
qed

section \<open>Fan-out\<close>

text \<open>The authoritative check of \<open>push_match\<close>, and the reference: a scan of the store.\<close>

definition deliverable :: "registry \<Rightarrow> uuid \<Rightarrow> stored_event \<Rightarrow> conn_sub \<Rightarrow> bool" where
  "deliverable r com ev p \<longleftrightarrow>
     (\<exists>fs sc. lookup_sub r p = Some (fs, com, sc) \<and> matches_channel sc (se_channel_id ev) \<and>
        filters_match fs ev)"

lemma push_match_eq:
  "push_match r com ev p results = (if deliverable r com ev p then push_unseen p results else results)"
  by (auto simp: push_match_def deliverable_def split: option.splits)

lemma fold_push_match_set:
  "set (fold (push_match r com ev) ps results) = set results \<union> {p \<in> set ps. deliverable r com ev p}"
  by (induction ps arbitrary: results) (auto simp: push_match_eq)

lemma fold_push_match_distinct:
  "distinct results \<Longrightarrow> distinct (fold (push_match r com ev) ps results)"
  by (rule fold_invariant [where I = distinct]) (simp_all add: push_match_eq)

lemma fold_push_match_nested:
  "set (fold (\<lambda>v. fold (push_match r com ev) (g v)) vs results) =
     set results \<union> {p \<in> (\<Union>v\<in>set vs. set (g v)). deliverable r com ev p}"
  "distinct results \<Longrightarrow> distinct (fold (\<lambda>v. fold (push_match r com ev) (g v)) vs results)"
  by (induction vs arbitrary: results) (auto simp: fold_push_match_set fold_push_match_distinct)

text \<open>The candidates the five indexes offer for an event.\<close>

definition candidates :: "registry \<Rightarrow> uuid \<Rightarrow> stored_event \<Rightarrow> conn_sub set" where
  "candidates r com ev =
     (case se_channel_id ev of
        Some ch \<Rightarrow> set (hm_vec (channel_kind_index r) (com, IndexKey ch (ev_kind (se_event ev)))) \<union>
                   set (hm_vec (channel_wildcard_index r) (com, ch))
      | None \<Rightarrow> (\<Union>p\<in>set (event_p_tag_values ev).
                   set (hm_vec (global_p_kind_index r) (GlobalPKindIndexKey com (ev_kind (se_event ev)) p))) \<union>
                 set (hm_vec (global_kind_index r) (com, ev_kind (se_event ev))) \<union>
                 set (hm_vec (global_wildcard_index r) com))"

lemma fan_out_scoped_set:
  "set (fan_out_scoped com ev r) = {p \<in> candidates r com ev. deliverable r com ev p}"
  by (auto simp: fan_out_scoped_def candidates_def Let_def fold_push_match_set fold_push_match_nested
      split: option.splits)

lemma fan_out_scoped_distinct: "distinct (fan_out_scoped com ev r)"
  by (auto simp: fan_out_scoped_def Let_def intro!: fold_push_match_distinct fold_push_match_nested(2)
      split: option.splits)

subsection \<open>A matching entry is among the candidates\<close>

lemma extract_kinds_loop_Some:
  "extract_kinds_loop fs ks0 = Some ks \<Longrightarrow>
     set ks = set ks0 \<union> (\<Union>f\<in>set fs. set (the (f_kinds f))) \<and> (\<forall>f\<in>set fs. f_kinds f \<noteq> None)"
  by (induction fs arbitrary: ks0) (auto split: option.splits)

lemma extract_kinds_covers:
  assumes "extract_kinds_from_filters fs = Some ks" "filters_match fs ev"
  shows "ev_kind (se_event ev) \<in> set ks"
proof -
  from assms(2) obtain f where f: "f \<in> set fs" "filter_match_one f ev"
    by (auto simp: filters_match_def list_ex_iff)
  from extract_kinds_loop_Some [OF assms(1) [unfolded extract_kinds_from_filters_def]] f(1)
  obtain kf where "f_kinds f = Some kf" and "set kf \<subseteq> set ks" by fastforce
  with filter_match_kind [OF f(2)] show ?thesis by auto
qed

lemma extract_global_p_loop_mono:
  "extract_global_p_loop com fs keys0 = Some keys \<Longrightarrow> set keys0 \<subseteq> set keys"
proof (induction fs arbitrary: keys0)
  case Nil
  then show ?case by simp
next
  case (Cons f fs)
  from Cons.prems obtain keys1 where "extract_global_p_loop com fs keys1 = Some keys" "set keys0 \<subseteq> set keys1"
    by (fastforce split: option.splits if_splits)
  with Cons.IH show ?case by blast
qed

lemma extract_global_p_loop_Some:
  assumes "extract_global_p_loop com fs keys0 = Some keys" "f \<in> set fs"
  shows "\<exists>kinds. f_kinds f = Some kinds \<and>
    (kinds = [] \<or> (\<exists>ps. map_of (f_generic_tags f) ''p'' = Some ps \<and>
       (\<forall>k\<in>set kinds. \<forall>p\<in>set ps. GlobalPKindIndexKey com k p \<in> set keys)))"
  using assms
proof (induction fs arbitrary: keys0)
  case Nil
  then show ?case by simp
next
  case (Cons g fs)
  show ?case
  proof (cases "f = g")
    case True
    with Cons.prems(1) obtain kinds where kinds: "f_kinds f = Some kinds"
      by (auto split: option.splits)
    show ?thesis
    proof (cases "kinds = []")
      case False
      with Cons.prems(1) True kinds obtain ps where ps: "map_of (f_generic_tags f) ''p'' = Some ps"
        and rest: "extract_global_p_loop com fs (fold push_unseen
          (concat (map (\<lambda>kind. map (GlobalPKindIndexKey com kind) ps) kinds)) keys0) = Some keys"
        by (auto split: option.splits if_splits)
      with extract_global_p_loop_mono [OF rest] kinds show ?thesis by auto
    qed (simp add: kinds)
  next
    case False
    with Cons show ?thesis by (auto split: option.splits if_splits)
  qed
qed

lemma event_p_tag_values_set:
  "set (event_p_tag_values ev) = {v. \<exists>t\<in>set (ev_tags (se_event ev)). tag_kind t = ''p'' \<and> tag_content t = Some v}"
proof -
  have *: "set (fold (\<lambda>t values. if tag_kind t \<noteq> ''p'' then values
             else (case tag_content t of Some value \<Rightarrow> push_unseen value values | None \<Rightarrow> values)) ts vs) =
      set vs \<union> {v. \<exists>t\<in>set ts. tag_kind t = ''p'' \<and> tag_content t = Some v}" for ts vs
    by (induction ts arbitrary: vs) (auto split: option.splits)
  show ?thesis unfolding event_p_tag_values_def * by simp
qed

lemma filters_match_global_key:
  assumes "extract_global_p_kind_index_keys com fs = Some keys" "filters_match fs ev"
  shows "\<exists>p\<in>set (event_p_tag_values ev). GlobalPKindIndexKey com (ev_kind (se_event ev)) p \<in> set keys"
proof -
  from assms(2) obtain f where f: "f \<in> set fs" "filter_match_one f ev"
    by (auto simp: filters_match_def list_ex_iff)
  from extract_global_p_loop_Some [OF assms(1) [unfolded extract_global_p_kind_index_keys_def] f(1)]
  obtain kinds where kinds: "f_kinds f = Some kinds" and
    or: "kinds = [] \<or> (\<exists>ps. map_of (f_generic_tags f) ''p'' = Some ps \<and>
       (\<forall>k\<in>set kinds. \<forall>p\<in>set ps. GlobalPKindIndexKey com k p \<in> set keys))" by blast
  have k: "ev_kind (se_event ev) \<in> set kinds" by (rule filter_match_kind [OF f(2) kinds])
  with or obtain ps where ps: "map_of (f_generic_tags f) ''p'' = Some ps"
    and all: "\<forall>k\<in>set kinds. \<forall>p\<in>set ps. GlobalPKindIndexKey com k p \<in> set keys" by auto
  from filter_match_p_tag [OF f(2) ps] k all show ?thesis
    by (auto simp: event_p_tag_values_set)
qed

lemma mirrors_listed: "mirrors L keys_of m \<Longrightarrow> L p = Some e \<Longrightarrow> k \<in> set (keys_of e) \<Longrightarrow> p \<in> set (hm_vec m k)"
  unfolding mirrors_def by blast

lemma deliverable_candidate:
  assumes "registry_inv r" "deliverable r com ev p"
  shows "p \<in> candidates r com ev"
proof -
  from assms(2) obtain fs sc where e: "lookup_sub r p = Some (fs, com, sc)"
    and ch: "matches_channel sc (se_channel_id ev)" and fm: "filters_match fs ev"
    by (auto simp: deliverable_def)
  have listed: "mirrors (lookup_sub r) ck_keys (channel_kind_index r)"
      "mirrors (lookup_sub r) cw_keys (channel_wildcard_index r)"
      "mirrors (lookup_sub r) gk_keys (global_kind_index r)"
      "mirrors (lookup_sub r) gp_keys (global_p_kind_index r)"
      "mirrors (lookup_sub r) gw_keys (global_wildcard_index r)"
    using assms(1) by (simp_all add: registry_inv_def indexes_mirror_def)
  note at = listed [THEN mirrors_listed, OF e]
  let ?k = "ev_kind (se_event ev)"
  note kind = extract_kinds_covers [OF _ fm]
  show ?thesis
  proof (cases "se_channel_id ev")
    case (Some c)
    with ch obtain chs where sc: "sc = Channels chs" "c \<in> set chs" by (cases sc) auto
    show ?thesis
    proof (cases "extract_kinds_from_filters fs")
      case None
      with at(2) [of "(com, c)"] sc Some show ?thesis by (simp add: candidates_def)
    next
      case (Some ks)
      with at(1) [of "(com, IndexKey c ?k)"] sc kind [OF Some] \<open>se_channel_id ev = Some c\<close>
      show ?thesis by (auto simp: candidates_def)
    qed
  next
    case None
    with ch have sc: "sc = Global" by (cases sc) auto
    show ?thesis
    proof (cases "extract_global_p_kind_index_keys com fs")
      case (Some keys)
      from filters_match_global_key [OF Some fm] obtain v where
        "v \<in> set (event_p_tag_values ev)" "GlobalPKindIndexKey com ?k v \<in> set keys" by blast
      with at(4) [of "GlobalPKindIndexKey com ?k v"] sc Some None show ?thesis
        by (auto simp: candidates_def)
    next
      case no_p: None
      show ?thesis
        using at(3) [of "(com, ?k)"] at(5) [of com] kind sc no_p None
        by (cases "extract_kinds_from_filters fs") (auto simp: candidates_def)
    qed
  qed
qed

lemma fan_out_scan: "registry_inv r \<Longrightarrow> set (fan_out_scoped com ev r) = {p. deliverable r com ev p}"
  using deliverable_candidate [of r com ev] by (auto simp: fan_out_scoped_set)

section \<open>Life of a registry\<close>

text \<open>The states the relay can bring its registry into: the public operations, in any order.\<close>

inductive registry_reachable :: "registry \<Rightarrow> bool" where
  reach_new: "registry_reachable registry_new"
| reach_register: "registry_reachable r \<Longrightarrow> registry_reachable (snd (register_scoped com c s fs ch r))"
| reach_channels: "registry_reachable r \<Longrightarrow> registry_reachable (snd (register_channels_scoped com c s fs chs r))"
| reach_remove: "registry_reachable r \<Longrightarrow> registry_reachable (snd (remove_subscription c s r))"
| reach_disconnect: "registry_reachable r \<Longrightarrow> registry_reachable (snd (remove_connection c r))"
| reach_revoke:
    "registry_reachable r \<Longrightarrow> registry_reachable (snd (remove_channel_subscriptions_scoped com c ch r))"

lemma registry_reachable_inv: "registry_reachable r \<Longrightarrow> registry_inv r"
proof (induction rule: registry_reachable.induct)
  case (reach_revoke r com c ch)
  then show ?case using remove_channel_subscriptions_spec by blast
qed (simp_all add: registry_inv_new register_with_scope_inv remove_subscription_inv
    remove_connection_inv register_scoped_def register_channels_scoped_def)

lemma set_conns_fold:
  "set (fold (\<lambda>((c, key), entries) conns.
      if c = com \<and> ik_channel_id key = ch then fold push_unseen (map fst entries) conns else conns) m conns) =
   set conns \<union> (\<Union>((c, key), entries)\<in>set m. if c = com \<and> ik_channel_id key = ch then fst ` set entries else {})"
  by (induction m arbitrary: conns) (auto split: if_splits)

lemma ck_keys_channel:
  "(\<exists>k. (com, IndexKey ch k) \<in> set (ck_keys (fs, com', Channels chs))) \<longleftrightarrow>
     com' = com \<and> ch \<in> set chs \<and> (\<exists>k ks. extract_kinds_from_filters fs = Some (k # ks))"
proof (cases "extract_kinds_from_filters fs")
  case (Some ks)
  show ?thesis
    unfolding set_ck_keys_Some [OF Some] using Some by (cases ks) auto
qed simp

lemma in_fst_image: "x \<in> fst ` A \<longleftrightarrow> (\<exists>s. (x, s) \<in> A)"
  by force

lemma conns_of_index:
  assumes "hm_wf m"
  shows "x \<in> (\<Union>((c, key), entries)\<in>set m. if c = com \<and> ik_channel_id key = ch then fst ` set entries else {})
    \<longleftrightarrow> (\<exists>s k. (x, s) \<in> set (hm_vec m (com, IndexKey ch k)))" (is "?l \<longleftrightarrow> ?r")
proof
  assume ?l
  then obtain c key entries where mem: "((c, key), entries) \<in> set m" "c = com" "ik_channel_id key = ch"
    and x: "x \<in> fst ` set entries" by (auto split: if_splits)
  then have "hm_vec m (com, IndexKey ch (ik_kind key)) = entries"
    using assms by (cases key) (simp add: hm_wf_lookup hm_vec_def)
  with x show ?r by force
next
  assume ?r
  then obtain s k entries where "map_of m (com, IndexKey ch k) = Some entries" "(x, s) \<in> set entries"
    by (auto simp: hm_vec_def split: option.splits dest: sym)
  moreover from this have "((com, IndexKey ch k), entries) \<in> set m" using assms by (simp add: hm_wf_lookup)
  ultimately show ?l by (intro UN_I) force+
qed

text \<open>A channel key or a channel wildcard lists a subscription of that channel.\<close>

lemma channel_subscriber_conns_set:
  assumes "registry_inv r"
  shows "c \<in> set (channel_subscriber_conns_scoped com ch r) \<longleftrightarrow>
    (\<exists>s fs chs. lookup_sub r (c, s) = Some (fs, com, Channels chs) \<and> ch \<in> set chs \<and>
       extract_kinds_from_filters fs \<noteq> Some [])" (is "?l \<longleftrightarrow> ?r")
proof -
  have wf: "hm_wf (channel_kind_index r)"
    and ck: "\<And>p k. p \<in> set (hm_vec (channel_kind_index r) k) \<longleftrightarrow>
        (\<exists>e. lookup_sub r p = Some e \<and> k \<in> set (ck_keys e))"
    and cw: "\<And>p k. p \<in> set (hm_vec (channel_wildcard_index r) k) \<longleftrightarrow>
        (\<exists>e. lookup_sub r p = Some e \<and> k \<in> set (cw_keys e))"
    using assms by (auto simp: registry_inv_def indexes_mirror_def mirrors_def)
  have "?l \<longleftrightarrow> (\<exists>s k. (c, s) \<in> set (hm_vec (channel_kind_index r) (com, IndexKey ch k))) \<or>
      (\<exists>s. (c, s) \<in> set (hm_vec (channel_wildcard_index r) (com, ch)))"
    using conns_of_index [OF wf, of c com ch]
    by (auto simp: channel_subscriber_conns_scoped_def Let_def set_conns_fold hm_vec_def in_fst_image
        simp del: UN_iff split: option.split)
  also have "\<dots> \<longleftrightarrow> (\<exists>s e. lookup_sub r (c, s) = Some e \<and>
      ((\<exists>k. (com, IndexKey ch k) \<in> set (ck_keys e)) \<or> (com, ch) \<in> set (cw_keys e)))"
    unfolding ck cw by blast
  also have "\<dots> \<longleftrightarrow> ?r"
  proof -
    have "((\<exists>k. (com, IndexKey ch k) \<in> set (ck_keys e)) \<or> (com, ch) \<in> set (cw_keys e)) \<longleftrightarrow>
        (\<exists>fs chs. e = (fs, com, Channels chs) \<and> ch \<in> set chs \<and> extract_kinds_from_filters fs \<noteq> Some [])" for e
    proof -
      obtain fs com' sc where e: "e = (fs, com', sc)" by (metis surj_pair)
      show ?thesis
      proof (cases sc)
        case (Channels chs)
        then show ?thesis
          unfolding e Channels ck_keys_channel
          by (cases "extract_kinds_from_filters fs") (auto simp: neq_Nil_conv)
      qed (simp add: e)
    qed
    then show ?thesis by auto
  qed
  finally show ?thesis .
qed

section \<open>Properties\<close>

text \<open>
  C18: Every operation of the registry keeps the invariant that the five indexes mirror the
  store exactly: in every state the relay can reach from an empty registry, a subscription
  is listed under exactly the index keys its filters and scope call for.
\<close>

theorem registry_indexes_mirror_store:
  assumes "registry_reachable r"
  shows "registry_inv r"
  by (rule registry_reachable_inv [OF assms])

text \<open>
  C1: fan-out is complete and exact: in every reachable state it returns, without
  duplicates, exactly the subscriptions that a scan of the whole store would select, those
  of the event's community whose scope covers the event's channel and one of whose filters
  matches.
\<close>

theorem fan_out_equals_store_scan:
  assumes "registry_reachable r"
  shows "set (fan_out_scoped com ev r) =
      {p. \<exists>fs sc. lookup_sub r p = Some (fs, com, sc) \<and> matches_channel sc (se_channel_id ev) \<and>
          filters_match fs ev} \<and>
    distinct (fan_out_scoped com ev r)"
  by (simp add: fan_out_scan registry_reachable_inv [OF assms] fan_out_scoped_distinct deliverable_def)

text \<open>
  fan-out never leaks, whatever the indexes hold: even on a registry whose indexes are
  stale, a returned pair is a live subscription of the same community, scoped to the
  event's channel, with a matching filter.
\<close>

theorem fan_out_never_leaks:
  assumes "(c, s) \<in> set (fan_out_scoped com ev r)"
  shows "\<exists>fs sc. lookup_sub r (c, s) = Some (fs, com, sc) \<and> matches_channel sc (se_channel_id ev) \<and>
    (\<exists>f\<in>set fs. filter_match_spec f ev)"
  using assms by (auto simp: fan_out_scoped_set deliverable_def filters_match_iff)

text \<open>
  Revoking a channel takes effect and touches nothing else: afterwards the connection
  receives no event of that channel in that community, while events of other channels and
  communities, global events and other connections are delivered as before.
\<close>

theorem revoked_channel_is_silent:
  assumes "registry_reachable r"
  shows "set (fan_out_scoped com' ev (snd (remove_channel_subscriptions_scoped com c ch r))) =
      {p \<in> set (fan_out_scoped com' ev r). \<not> (fst p = c \<and> com' = com \<and> se_channel_id ev = Some ch)}"
proof -
  define r' where "r' = snd (remove_channel_subscriptions_scoped com c ch r)"
  have inv: "registry_inv r" "registry_inv r'"
    using registry_reachable_inv [OF assms(1)] remove_channel_subscriptions_spec by (auto simp: r'_def)
  have look: "lookup_sub r' p = (case lookup_sub r p of
         Some (fs, com', Channels chs) \<Rightarrow>
           if fst p = c \<and> com' = com \<and> ch \<in> set chs then
             (let chs' = filter (\<lambda>x. x \<noteq> ch) chs
              in if chs' = [] then None else Some (fs, com', Channels chs'))
           else lookup_sub r p
       | e \<Rightarrow> e)" for p
    using remove_channel_subscriptions_spec [OF inv(1), of com c ch p] by (simp add: r'_def)
  have "deliverable r' com' ev p \<longleftrightarrow>
      deliverable r com' ev p \<and> \<not> (fst p = c \<and> com' = com \<and> se_channel_id ev = Some ch)" for p
    unfolding deliverable_def look
    by (cases "se_channel_id ev")
      (auto simp: Let_def filter_empty_conv split: option.splits scope.splits if_splits prod.splits)
  then show ?thesis unfolding r'_def [symmetric] fan_out_scan [OF inv(1)] fan_out_scan [OF inv(2)] by auto
qed

text \<open>
  After a registration the registry holds exactly the new entry under its connection
  and subscription id, whatever was registered there before, and no other entry changes;
  the replaced entry's community and scope are returned.
\<close>

theorem register_replaces:
  "lookup_sub (snd (register_with_scope com c s fs sc r)) = (lookup_sub r)((c, s) \<mapsto> (fs, com, sc)) \<and>
   fst (register_with_scope com c s fs sc r) =
     map_option (\<lambda>(_, com', sc'). \<lparr>rs_community_id = com', rs_scope = sc'\<rparr>) (lookup_sub r (c, s))"
  by (simp add: register_with_scope_lookup)
    (auto simp: register_with_scope_def remove_subscription_def lookup_sub_def Let_def split: option.split)

text \<open>
  After a disconnect the registry holds nothing of the connection and everything of the
  others; the list returned has one item per subscription the connection held, so the
  caller releases every topic.
\<close>

theorem disconnect_forgets:
  "lookup_sub (snd (remove_connection c r)) = (\<lambda>p. if fst p = c then None else lookup_sub r p) \<and>
   fst (remove_connection c r) =
     (case map_of (subs r) c of
        None \<Rightarrow> []
      | Some m \<Rightarrow> map (\<lambda>(_, _, com, sc). \<lparr>rs_community_id = com, rs_scope = sc\<rparr>) m)"
  by (simp add: remove_connection_lookup) (simp add: remove_connection_def split: option.split)

text \<open>
  The connections notified of a channel's changes are those holding a channel
  subscription of the channel in that community whose filters ask for at least one kind. A
  subscription whose filters all have an empty kind list is in no index and is skipped.
\<close>

theorem channel_subscribers_exact:
  assumes "registry_reachable r"
  shows "set (channel_subscriber_conns_scoped com ch r) =
    {c. \<exists>s fs chs. lookup_sub r (c, s) = Some (fs, com, Channels chs) \<and> ch \<in> set chs \<and>
       extract_kinds_from_filters fs \<noteq> Some []}"
  using channel_subscriber_conns_set [OF registry_reachable_inv [OF assms]] by blast

text \<open>
  Closing the only subscription of a connection leaves the connection counted:
  \<open>total_connections\<close> counts the per-connection maps, and \<open>remove_subscription\<close> keeps the
  map it emptied, although no subscription of it is left.
\<close>

theorem total_connections_counts_idle:
  "let r = snd (remove_subscription c s (snd (register_scoped com c s fs ch registry_new)))
   in total_connections r = 1 \<and> total_subscriptions r = 0 \<and> (\<forall>p. lookup_sub r p = None)"
proof -
  define r1 where "r1 = snd (register_scoped com c s fs ch registry_new)"
  have r1: "\<exists>sc. subs r1 = [(c, [(s, (fs, com, sc))])]"
    by (simp add: r1_def register_scoped_def register_with_scope_def remove_subscription_def
        registry_new_def hm_insert_def)
  then have "subs (snd (remove_subscription c s r1)) = [(c, [])]"
    by (auto simp: remove_subscription_def hm_insert_def hm_remove_def split: prod.split)
  then show ?thesis
    unfolding r1_def [symmetric] Let_def
    by (simp add: total_connections_def total_subscriptions_def lookup_sub_def)
qed

subsection \<open>A concrete registry\<close>

definition sample_filter :: nostr_filter where
  "sample_filter = \<lparr>f_ids = None, f_authors = None, f_kinds = Some [9], f_since = None, f_until = None,
     f_generic_tags = [], f_search = None, f_limit = None\<rparr>"

definition sample_event :: stored_event where
  "sample_event = \<lparr>se_event = \<lparr>ev_id = ''ab'', ev_pubkey = ''pk'', ev_created_at = 5, ev_kind = 9,
     ev_tags = [], ev_content = ''hi''\<rparr>, se_received_at = 0, se_channel_id = Some ''ch'', se_verified = True\<rparr>"

definition sample_registry :: registry where
  "sample_registry = snd (register_channels_scoped ''com'' ''c1'' ''s1'' [sample_filter] [''ch'', ''dh'']
     (snd (register_scoped ''com'' ''c2'' ''s2'' [sample_filter] (Some ''ch'') registry_new)))"

lemma sample_reachable: "registry_reachable sample_registry"
  unfolding sample_registry_def by (intro reach_channels reach_register reach_new)

lemma sample_fan_out: "fan_out_scoped ''com'' sample_event sample_registry = [(''c2'', ''s2''), (''c1'', ''s1'')]"
  by code_simp

lemma sample_channel: "se_channel_id sample_event = Some ''ch''"
  by (simp add: sample_event_def)

theorem registry_indexes_mirror_store_witness: "registry_inv sample_registry"
  using registry_indexes_mirror_store [OF sample_reachable] .

theorem fan_out_equals_store_scan_witness:
  "{p. \<exists>fs sc. lookup_sub sample_registry p = Some (fs, ''com'', sc) \<and>
      matches_channel sc (Some ''ch'') \<and> filters_match fs sample_event} = {(''c1'', ''s1''), (''c2'', ''s2'')}"
  unfolding fan_out_equals_store_scan [OF sample_reachable, of "''com''" sample_event, THEN conjunct1,
      symmetric, unfolded sample_channel] sample_fan_out
  by (simp add: insert_commute)

theorem fan_out_never_leaks_witness:
  "\<exists>fs sc. lookup_sub sample_registry (''c1'', ''s1'') = Some (fs, ''com'', sc) \<and>
     matches_channel sc (Some ''ch'') \<and> (\<exists>f\<in>set fs. filter_match_spec f sample_event)"
  using fan_out_never_leaks [of "''c1''" "''s1''" "''com''" sample_event sample_registry]
  by (simp add: sample_fan_out sample_channel)

theorem revoked_channel_is_silent_witness:
  "set (fan_out_scoped ''com'' sample_event
     (snd (remove_channel_subscriptions_scoped ''com'' ''c1'' ''ch'' sample_registry))) = {(''c2'', ''s2'')}"
  unfolding revoked_channel_is_silent [OF sample_reachable] sample_fan_out sample_channel by auto

theorem channel_subscribers_exact_witness:
  "{c. \<exists>s fs chs. lookup_sub sample_registry (c, s) = Some (fs, ''com'', Channels chs) \<and> ''dh'' \<in> set chs \<and>
     extract_kinds_from_filters fs \<noteq> Some []} = {''c1''}"
proof -
  have "channel_subscriber_conns_scoped ''com'' ''dh'' sample_registry = [''c1'']" by code_simp
  with channel_subscribers_exact [OF sample_reachable, of "''com''" "''dh''"] show ?thesis by simp
qed

end
