(* ===== verification/EventQueue.thy ===== *)
theory EventQueue
  imports Events
begin

text \<open>
  The event queue of the agent harness (\<open>buzz-acp/src/queue.rs\<close>): per-channel queues with
  at most one prompt in flight per channel, retry throttles with exponential back-off,
  cancelled batches that are merged into the next prompt, and the side table of events
  withheld while a native steer is in flight. One definition per method.

  An \<open>Instant\<close> and a \<open>Duration\<close> are natural numbers of nanoseconds; a method that reads the
  clock takes the reading as its first argument. Log output is not modelled. A \<open>HashSet\<close> is
  a set, a \<open>VecDeque\<close> a list with its front first.
\<close>

section \<open>Data\<close>

definition MAX_PENDING_PER_CHANNEL :: nat where "MAX_PENDING_PER_CHANNEL = 500"
definition MAX_BATCH_EVENTS :: nat where "MAX_BATCH_EVENTS = 50"
definition MAX_RETRIES :: nat where "MAX_RETRIES = 10"
definition BASE_RETRY_DELAY_SECS :: nat where "BASE_RETRY_DELAY_SECS = 5"
definition MAX_RETRY_DELAY_SECS :: nat where "MAX_RETRY_DELAY_SECS = 300"
definition IN_FLIGHT_DEADLINE_BUFFER_SECS :: nat where "IN_FLIGHT_DEADLINE_BUFFER_SECS = 100"
definition DEFAULT_IN_FLIGHT_DEADLINE_SECS :: nat where "DEFAULT_IN_FLIGHT_DEADLINE_SECS = 7300"

text \<open>\<open>Duration::from_secs\<close> in nanoseconds.\<close>

definition from_secs :: "nat \<Rightarrow> nat" where
  "from_secs n = n * 1000000000"

datatype dedup_mode = Drop | Queue

record queued_event =
  qe_channel_id :: uuid
  qe_event :: event
  qe_received_at :: nat
  qe_prompt_tag :: string

record batch_event =
  be_event :: event
  be_prompt_tag :: string
  be_received_at :: nat

datatype cancel_reason = Interrupt | Steer

record flush_batch =
  fb_channel_id :: uuid
  fb_events :: "batch_event list"
  fb_cancelled_events :: "batch_event list"
  fb_cancel_reason :: "cancel_reason option"

record event_queue =
  queues :: "(uuid, queued_event list) hashmap"
  in_flight_channels :: "uuid set"
  in_flight_deadlines :: "(uuid, nat) hashmap"
  in_flight_batch_sizes :: "(uuid, nat) hashmap"
  retry_after :: "(uuid, nat) hashmap"
  retry_counts :: "(uuid, nat) hashmap"
  eq_dedup_mode :: dedup_mode
  cancelled_batches :: "(uuid, batch_event list) hashmap"
  cancel_reasons :: "(uuid, cancel_reason) hashmap"
  withheld_native_steer :: "(uuid, queued_event list) hashmap"
  in_flight_deadline :: nat

text \<open>The two conversions written out in \<open>flush_next\<close> and in the requeue methods.\<close>

definition to_batch_event :: "queued_event \<Rightarrow> batch_event" where
  "to_batch_event qe =
     \<lparr>be_event = qe_event qe, be_prompt_tag = qe_prompt_tag qe, be_received_at = qe_received_at qe\<rparr>"

definition to_queued_event :: "uuid \<Rightarrow> batch_event \<Rightarrow> queued_event" where
  "to_queued_event channel_id be =
     \<lparr>qe_channel_id = channel_id, qe_event = be_event be, qe_received_at = be_received_at be,
      qe_prompt_tag = be_prompt_tag be\<rparr>"

section \<open>Construction\<close>

definition event_queue_new :: "dedup_mode \<Rightarrow> event_queue" where
  "event_queue_new mode =
     \<lparr>queues = [], in_flight_channels = {}, in_flight_deadlines = [], in_flight_batch_sizes = [],
      retry_after = [], retry_counts = [], eq_dedup_mode = mode, cancelled_batches = [],
      cancel_reasons = [], withheld_native_steer = [],
      in_flight_deadline = from_secs DEFAULT_IN_FLIGHT_DEADLINE_SECS\<rparr>"

definition with_in_flight_deadline :: "nat \<Rightarrow> event_queue \<Rightarrow> event_queue" where
  "with_in_flight_deadline max_turn_duration_secs q =
     q\<lparr>in_flight_deadline := from_secs (max_turn_duration_secs + IN_FLIGHT_DEADLINE_BUFFER_SECS)\<rparr>"

definition extend_in_flight_deadline :: "nat \<Rightarrow> uuid \<Rightarrow> nat \<Rightarrow> event_queue \<Rightarrow> event_queue" where
  "extend_in_flight_deadline now channel_id max_turn_secs q =
     (case map_of (in_flight_deadlines q) channel_id of
        None \<Rightarrow> q
      | Some current \<Rightarrow>
          (let extended = now + from_secs (max_turn_secs + IN_FLIGHT_DEADLINE_BUFFER_SECS)
           in if extended > current
              then q\<lparr>in_flight_deadlines := hm_insert channel_id extended (in_flight_deadlines q)\<rparr>
              else q))"

section \<open>Queue discipline\<close>

text \<open>\<open>while queue.len() > MAX_PENDING_PER_CHANNEL { queue.pop_back(); }\<close>\<close>

function trim_back :: "'a list \<Rightarrow> 'a list" where
  "trim_back queue = (if length queue > MAX_PENDING_PER_CHANNEL then trim_back (butlast queue) else queue)"
  by auto
termination by (relation "measure length") (auto simp: MAX_PENDING_PER_CHANNEL_def)

declare trim_back.simps [simp del]

text \<open>\<open>for e in es.into_iter().rev() { queue.push_front(e) }\<close>\<close>

definition push_front_all :: "'a list \<Rightarrow> 'a list \<Rightarrow> 'a list" where
  "push_front_all es queue = fold (\<lambda>e queue. e # queue) (rev es) queue"

definition push :: "queued_event \<Rightarrow> event_queue \<Rightarrow> bool \<times> event_queue" where
  "push e q =
     (if eq_dedup_mode q = Drop \<and> qe_channel_id e \<in> in_flight_channels q then (False, q)
      else (let queue = hm_vec (queues q) (qe_channel_id e);
                queue = (if length queue \<ge> MAX_PENDING_PER_CHANNEL then tl queue else queue)
            in (True, q\<lparr>queues := hm_insert (qe_channel_id e) (queue @ [e]) (queues q)\<rparr>)))"

definition recover_withheld_for_expired_channel :: "uuid \<Rightarrow> event_queue \<Rightarrow> event_queue" where
  "recover_withheld_for_expired_channel channel_id q =
     (case map_of (withheld_native_steer q) channel_id of
        None \<Rightarrow> q
      | Some entries \<Rightarrow>
          q\<lparr>withheld_native_steer := hm_remove channel_id (withheld_native_steer q),
            queues := hm_insert channel_id
              (trim_back (push_front_all entries (hm_vec (queues q) channel_id))) (queues q)\<rparr>)"

section \<open>Flushing\<close>

text \<open>The expiry block shared by \<open>flush_next\<close> and \<open>has_flushable_work\<close>.\<close>

definition expire_one :: "uuid \<Rightarrow> event_queue \<Rightarrow> event_queue" where
  "expire_one ch q = recover_withheld_for_expired_channel ch
     (q\<lparr>in_flight_batch_sizes := hm_remove ch (in_flight_batch_sizes q),
        in_flight_channels := in_flight_channels q - {ch},
        in_flight_deadlines := hm_remove ch (in_flight_deadlines q)\<rparr>)"

definition expired_ids :: "nat \<Rightarrow> event_queue \<Rightarrow> uuid list" where
  "expired_ids now q = map fst (filter (\<lambda>(_, deadline). now \<ge> deadline) (in_flight_deadlines q))"

definition expire_in_flight :: "nat \<Rightarrow> event_queue \<Rightarrow> event_queue" where
  "expire_in_flight now q = fold expire_one (expired_ids now q) q"

definition ready :: "nat \<Rightarrow> event_queue \<Rightarrow> uuid \<times> queued_event list \<Rightarrow> bool" where
  "ready now q entry =
     (let (ch, queue) = entry
      in queue \<noteq> [] \<and> ch \<notin> in_flight_channels q \<and>
         (case map_of (retry_after q) ch of None \<Rightarrow> True | Some t \<Rightarrow> t \<le> now))"

definition oldest_ready :: "nat \<Rightarrow> event_queue \<Rightarrow> uuid option" where
  "oldest_ready now q =
     map_option fst (min_by_key (\<lambda>(_, queue). qe_received_at (hd queue)) (filter (ready now q) (queues q)))"

definition cancelled_ready :: "event_queue \<Rightarrow> uuid option" where
  "cancelled_ready q = List.find (\<lambda>ch. ch \<notin> in_flight_channels q) (hm_keys (cancelled_batches q))"

text \<open>The three in-flight tables, set together when a batch is dispatched.\<close>

definition begin_flight :: "nat \<Rightarrow> uuid \<Rightarrow> nat \<Rightarrow> event_queue \<Rightarrow> event_queue" where
  "begin_flight now ch n q =
     q\<lparr>in_flight_channels := insert ch (in_flight_channels q),
       in_flight_deadlines := hm_insert ch (now + in_flight_deadline q) (in_flight_deadlines q),
       in_flight_batch_sizes := hm_insert ch n (in_flight_batch_sizes q)\<rparr>"

definition take_cancelled :: "uuid \<Rightarrow> event_queue \<Rightarrow> event_queue" where
  "take_cancelled ch q =
     q\<lparr>cancelled_batches := hm_remove ch (cancelled_batches q), cancel_reasons := hm_remove ch (cancel_reasons q)\<rparr>"

definition flush_cancelled :: "nat \<Rightarrow> uuid \<Rightarrow> event_queue \<Rightarrow> flush_batch \<times> event_queue" where
  "flush_cancelled now ch q =
     (let cancelled = hm_vec (cancelled_batches q) ch
      in (\<lparr>fb_channel_id = ch, fb_events = cancelled, fb_cancelled_events = [],
           fb_cancel_reason = map_of (cancel_reasons q) ch\<rparr>,
          begin_flight now ch (length cancelled) (take_cancelled ch q)))"

definition flush_queued :: "nat \<Rightarrow> uuid \<Rightarrow> event_queue \<Rightarrow> flush_batch \<times> event_queue" where
  "flush_queued now channel_id q =
     (let queue = hm_vec (queues q) channel_id;
          drain_count = min MAX_BATCH_EVENTS (length queue);
          events = sort_key (\<lambda>be. ev_created_at (be_event be)) (map to_batch_event (take drain_count queue));
          rest = drop drain_count queue;
          queues' = (if rest = [] then hm_remove channel_id (queues q) else hm_insert channel_id rest (queues q));
          cancelled = hm_vec (cancelled_batches q) channel_id;
          reason = (if cancelled = [] then None else map_of (cancel_reasons q) channel_id)
      in (\<lparr>fb_channel_id = channel_id, fb_events = events, fb_cancelled_events = cancelled,
           fb_cancel_reason = reason\<rparr>,
          take_cancelled channel_id (begin_flight now channel_id (length events) (q\<lparr>queues := queues'\<rparr>))))"

definition flush_next :: "nat \<Rightarrow> event_queue \<Rightarrow> flush_batch option \<times> event_queue" where
  "flush_next now q0 =
     (let q = expire_in_flight now q0
      in case oldest_ready now q of
           Some ch \<Rightarrow> (let (batch, q') = flush_queued now ch q in (Some batch, q'))
         | None \<Rightarrow>
             (case cancelled_ready q of
                Some ch \<Rightarrow> (let (batch, q') = flush_cancelled now ch q in (Some batch, q'))
              | None \<Rightarrow> (None, q)))"

definition mark_complete :: "nat \<Rightarrow> uuid \<Rightarrow> event_queue \<Rightarrow> event_queue" where
  "mark_complete now channel_id q0 =
     (let q = q0\<lparr>in_flight_channels := in_flight_channels q0 - {channel_id},
                 in_flight_deadlines := hm_remove channel_id (in_flight_deadlines q0),
                 in_flight_batch_sizes := hm_remove channel_id (in_flight_batch_sizes q0)\<rparr>
      in case map_of (retry_after q) channel_id of
           Some deadline \<Rightarrow>
             if deadline > now then q
             else q\<lparr>retry_after := hm_remove channel_id (retry_after q),
                    retry_counts := hm_remove channel_id (retry_counts q)\<rparr>
         | None \<Rightarrow> q\<lparr>retry_counts := hm_remove channel_id (retry_counts q)\<rparr>)"

section \<open>Requeueing\<close>

text \<open>
  The back-off delay: \<open>BASE * 2^(attempt-1)\<close>, at most \<open>MAX\<close>, times the jitter factor
  \<open>0.8 + nanos / u32::MAX * 0.4\<close>. The floating-point product is taken exactly and
  rounded down to nanoseconds.
\<close>

definition capped_delay_secs :: "nat \<Rightarrow> nat" where
  "capped_delay_secs attempt =
     min (BASE_RETRY_DELAY_SECS * 2 ^ min (attempt - 1) 6) MAX_RETRY_DELAY_SECS"

definition retry_delay :: "nat \<Rightarrow> nat \<Rightarrow> nat" where
  "retry_delay attempt nanos =
     (let u32_max = 4294967295
      in from_secs (capped_delay_secs attempt) * (8 * u32_max + 4 * nanos) div (10 * u32_max))"

text \<open>The events go back to the front in order, and the back is cut to the cap.\<close>

definition requeue_events :: "uuid \<Rightarrow> batch_event list \<Rightarrow> event_queue \<Rightarrow> event_queue" where
  "requeue_events channel_id es q =
     q\<lparr>queues := hm_insert channel_id
         (trim_back (push_front_all (map (to_queued_event channel_id) es) (hm_vec (queues q) channel_id)))
         (queues q)\<rparr>"

definition requeue :: "nat \<Rightarrow> nat \<Rightarrow> flush_batch \<Rightarrow> event_queue \<Rightarrow> flush_batch option \<times> event_queue" where
  "requeue now nanos batch q =
     (let channel_id = fb_channel_id batch;
          attempt = (case map_of (retry_counts q) channel_id of None \<Rightarrow> 0 | Some n \<Rightarrow> n) + 1
      in if attempt > MAX_RETRIES then
           (Some batch,
            q\<lparr>retry_counts := hm_remove channel_id (retry_counts q),
              retry_after := hm_remove channel_id (retry_after q)\<rparr>)
         else
           (None,
            (requeue_events channel_id (fb_events batch)
               (q\<lparr>retry_counts := hm_insert channel_id attempt (retry_counts q)\<rparr>))
            \<lparr>retry_after := hm_insert channel_id (now + retry_delay attempt nanos) (retry_after q)\<rparr>))"

definition requeue_preserve_timestamps :: "flush_batch \<Rightarrow> event_queue \<Rightarrow> event_queue" where
  "requeue_preserve_timestamps batch q = requeue_events (fb_channel_id batch) (fb_events batch) q"

definition requeue_as_cancelled :: "flush_batch \<Rightarrow> cancel_reason \<Rightarrow> event_queue \<Rightarrow> event_queue" where
  "requeue_as_cancelled batch reason q =
     q\<lparr>cancelled_batches := hm_insert (fb_channel_id batch)
         (hm_vec (cancelled_batches q) (fb_channel_id batch) @ fb_cancelled_events batch @ fb_events batch)
         (cancelled_batches q),
       cancel_reasons := hm_insert (fb_channel_id batch) reason (cancel_reasons q)\<rparr>"

section \<open>Queries\<close>

definition has_flushable_work :: "nat \<Rightarrow> event_queue \<Rightarrow> bool \<times> event_queue" where
  "has_flushable_work now q0 =
     (let q = expire_in_flight now q0
      in (list_ex (ready now q) (queues q) \<or>
          list_ex (\<lambda>ch. ch \<notin> in_flight_channels q) (hm_keys (cancelled_batches q)), q))"

definition has_undispatched_work :: "event_queue \<Rightarrow> bool" where
  "has_undispatched_work q =
     (let has_queued = list_ex (\<lambda>(ch, queue). queue \<noteq> [] \<and> ch \<notin> in_flight_channels q) (queues q);
          has_cancelled = list_ex (\<lambda>ch. ch \<notin> in_flight_channels q) (hm_keys (cancelled_batches q));
          has_withheld = list_ex (\<lambda>(ch, v). v \<noteq> [] \<and> ch \<notin> in_flight_channels q) (withheld_native_steer q)
      in has_queued \<or> has_cancelled \<or> has_withheld)"

definition pending_channels :: "event_queue \<Rightarrow> nat" where
  "pending_channels q = length (queues q)"

definition drain_channel :: "uuid \<Rightarrow> event_queue \<Rightarrow> event_id list \<times> event_queue" where
  "drain_channel channel_id q =
     (map (\<lambda>e. ev_id (qe_event e)) (hm_vec (queues q) channel_id),
      q\<lparr>queues := hm_remove channel_id (queues q),
        retry_after := hm_remove channel_id (retry_after q),
        retry_counts := hm_remove channel_id (retry_counts q),
        cancelled_batches := hm_remove channel_id (cancelled_batches q),
        cancel_reasons := hm_remove channel_id (cancel_reasons q),
        withheld_native_steer := hm_remove channel_id (withheld_native_steer q)\<rparr>)"

definition is_channel_in_flight :: "uuid \<Rightarrow> event_queue \<Rightarrow> bool" where
  "is_channel_in_flight channel_id q = (channel_id \<in> in_flight_channels q)"

definition has_in_flight :: "event_queue \<Rightarrow> bool" where
  "has_in_flight q = (in_flight_channels q \<noteq> {})"

section \<open>Native steer\<close>

text \<open>\<open>position\<close> and \<open>remove(pos)\<close>: split a list at the first element with the id.\<close>

fun take_event :: "event_id \<Rightarrow> queued_event list \<Rightarrow> (queued_event \<times> queued_event list) option" where
  "take_event i [] = None"
| "take_event i (e # es) =
     (if ev_id (qe_event e) = i then Some (e, es)
      else map_option (\<lambda>(x, rest). (x, e # rest)) (take_event i es))"

text \<open>Store a vector, or drop its entry when it became empty.\<close>

definition put_nonempty :: "'k \<Rightarrow> 'v list \<Rightarrow> ('k, 'v list) hashmap \<Rightarrow> ('k, 'v list) hashmap" where
  "put_nonempty k l m = (if l = [] then hm_remove k m else hm_insert k l m)"

definition mark_native_steer_pending :: "uuid \<Rightarrow> event_id \<Rightarrow> event_queue \<Rightarrow> bool \<times> event_queue" where
  "mark_native_steer_pending channel_id event_id q =
     (case map_of (queues q) channel_id of
        None \<Rightarrow> (False, q)
      | Some queue \<Rightarrow>
          (case take_event event_id queue of
             None \<Rightarrow> (False, q)
           | Some (qe, rest) \<Rightarrow>
               (True, q\<lparr>queues := put_nonempty channel_id rest (queues q),
                        withheld_native_steer := idx_push channel_id qe (withheld_native_steer q)\<rparr>)))"

definition release_native_steer :: "uuid \<Rightarrow> event_id \<Rightarrow> event_queue \<Rightarrow> event_queue" where
  "release_native_steer channel_id event_id q =
     (case map_of (withheld_native_steer q) channel_id of
        None \<Rightarrow> q
      | Some entries \<Rightarrow>
          (case take_event event_id entries of
             None \<Rightarrow> q
           | Some (qe, rest) \<Rightarrow>
               q\<lparr>withheld_native_steer := put_nonempty channel_id rest (withheld_native_steer q),
                 queues := hm_insert channel_id (trim_back (qe # hm_vec (queues q) channel_id)) (queues q)\<rparr>))"

definition remove_event :: "uuid \<Rightarrow> event_id \<Rightarrow> event_queue \<Rightarrow> event_queue" where
  "remove_event channel_id event_id q =
     q\<lparr>withheld_native_steer :=
         idx_retain channel_id (\<lambda>qe. ev_id (qe_event qe) \<noteq> event_id) (withheld_native_steer q),
       queues := idx_retain channel_id (\<lambda>qe. ev_id (qe_event qe) \<noteq> event_id) (queues q)\<rparr>"

definition compact_expired_state :: "nat \<Rightarrow> event_queue \<Rightarrow> event_queue" where
  "compact_expired_state now q0 =
     (let q = q0\<lparr>retry_after := filter (\<lambda>(_, deadline). deadline > now) (retry_after q0)\<rparr>
      in q\<lparr>retry_counts := filter (\<lambda>(ch, _).
             ch \<in> set (hm_keys (retry_after q)) \<or>
             (case map_of (queues q) ch of None \<Rightarrow> False | Some queue \<Rightarrow> queue \<noteq> []) \<or>
             ch \<in> in_flight_channels q) (retry_counts q)\<rparr>)"

end
