(* ===== verification/QueueCorrect.thy ===== *)
theory QueueCorrect
  imports EventQueue
begin

text \<open>
  Correctness of the event queue: the invariant that ties the eight tables together and its
  preservation by every method, one prompt in flight per channel, fairness, the agreement of
  \<open>has_flushable_work\<close> with \<open>flush_next\<close>, and what each method does with the events it is
  given.
\<close>

section \<open>The loops\<close>

lemma trim_back_take: "trim_back queue = take MAX_PENDING_PER_CHANNEL queue"
proof (induction queue rule: trim_back.induct)
  case (1 queue)
  show ?case
  proof (cases "length queue > MAX_PENDING_PER_CHANNEL")
    case True
    then have "take MAX_PENDING_PER_CHANNEL (butlast queue) = take MAX_PENDING_PER_CHANNEL queue"
      by (simp add: take_butlast)
    with 1 True show ?thesis by (simp add: trim_back.simps [of queue])
  next
    case False
    then show ?thesis by (simp add: trim_back.simps [of queue])
  qed
qed

lemma push_front_all_append: "push_front_all es queue = es @ queue"
  by (induction es arbitrary: queue) (simp_all add: push_front_all_def)

lemma take_event_Some:
  "take_event i es = Some (e, rest) \<Longrightarrow>
     ev_id (qe_event e) = i \<and> (\<exists>us vs. es = us @ e # vs \<and> rest = us @ vs)"
proof (induction es arbitrary: rest)
  case Nil
  then show ?case by simp
next
  case (Cons a es)
  show ?case
  proof (cases "ev_id (qe_event a) = i")
    case True
    with Cons.prems have "a = e" "es = rest" by auto
    with True show ?thesis by (metis append_Nil)
  next
    case False
    with Cons.prems obtain rest' where r: "take_event i es = Some (e, rest')" "rest = a # rest'" by auto
    from Cons.IH [OF r(1)] obtain us vs where "ev_id (qe_event e) = i" "es = us @ e # vs" "rest' = us @ vs"
      by blast
    with r(2) show ?thesis by (metis append_Cons)
  qed
qed

lemma take_event_None: "take_event i es = None \<longleftrightarrow> (\<forall>e\<in>set es. ev_id (qe_event e) \<noteq> i)"
  by (induction es) auto

lemma hm_vec_put_nonempty [simp]: "hm_vec (put_nonempty k l m) k' = (if k' = k then l else hm_vec m k')"
  by (simp add: put_nonempty_def)

lemma hm_wf_put_nonempty [simp]: "hm_wf m \<Longrightarrow> hm_wf (put_nonempty k l m)"
  by (simp add: put_nonempty_def)

lemma idx_no_empty_put [simp]: "idx_no_empty m \<Longrightarrow> idx_no_empty (put_nonempty k l m)"
  by (simp add: put_nonempty_def idx_no_empty_def)

lemma idx_no_empty_insert [simp]: "idx_no_empty m \<Longrightarrow> l \<noteq> [] \<Longrightarrow> idx_no_empty (hm_insert k l m)"
  by (simp add: idx_no_empty_def)

lemma idx_no_empty_remove [simp]: "idx_no_empty m \<Longrightarrow> idx_no_empty (hm_remove k m)"
  by (simp add: idx_no_empty_def)

lemma hm_vec_nonempty: "idx_no_empty m \<Longrightarrow> map_of m k = Some l \<Longrightarrow> l \<noteq> []"
  by (auto simp: idx_no_empty_def)

lemma hm_vec_Some: "map_of m k = Some l \<Longrightarrow> hm_vec m k = l"
  by (simp add: hm_vec_def)

lemma hm_vec_None: "map_of m k = None \<Longrightarrow> hm_vec m k = []"
  by (simp add: hm_vec_def)

section \<open>The invariant\<close>

text \<open>A table of events per channel: no empty vector, every event under its own channel.\<close>

definition table_ok :: "(uuid, queued_event list) hashmap \<Rightarrow> bool" where
  "table_ok m \<longleftrightarrow> hm_wf m \<and> idx_no_empty m \<and> (\<forall>c. \<forall>e\<in>set (hm_vec m c). qe_channel_id e = c)"

definition capped :: "(uuid, queued_event list) hashmap \<Rightarrow> bool" where
  "capped m \<longleftrightarrow> (\<forall>c. length (hm_vec m c) \<le> MAX_PENDING_PER_CHANNEL)"

definition flight_ok :: "event_queue \<Rightarrow> bool" where
  "flight_ok q \<longleftrightarrow> dom (map_of (in_flight_deadlines q)) = in_flight_channels q \<and>
     dom (map_of (in_flight_batch_sizes q)) = in_flight_channels q \<and>
     hm_wf (in_flight_deadlines q) \<and> hm_wf (in_flight_batch_sizes q) \<and>
     from_secs IN_FLIGHT_DEADLINE_BUFFER_SECS \<le> in_flight_deadline q"

definition retry_ok :: "event_queue \<Rightarrow> bool" where
  "retry_ok q \<longleftrightarrow> (\<forall>c n. map_of (retry_counts q) c = Some n \<longrightarrow> 1 \<le> n \<and> n \<le> MAX_RETRIES) \<and>
     hm_wf (retry_counts q) \<and> hm_wf (retry_after q)"

definition cancel_ok :: "event_queue \<Rightarrow> bool" where
  "cancel_ok q \<longleftrightarrow> dom (map_of (cancel_reasons q)) = dom (map_of (cancelled_batches q)) \<and>
     hm_wf (cancel_reasons q) \<and> hm_wf (cancelled_batches q) \<and> idx_no_empty (cancelled_batches q)"

definition queue_inv :: "event_queue \<Rightarrow> bool" where
  "queue_inv q \<longleftrightarrow> table_ok (queues q) \<and> capped (queues q) \<and> table_ok (withheld_native_steer q) \<and>
     flight_ok q \<and> retry_ok q \<and> cancel_ok q"

lemma queue_invI:
  "table_ok (queues q) \<Longrightarrow> capped (queues q) \<Longrightarrow> table_ok (withheld_native_steer q) \<Longrightarrow>
   flight_ok q \<Longrightarrow> retry_ok q \<Longrightarrow> cancel_ok q \<Longrightarrow> queue_inv q"
  by (simp add: queue_inv_def)

lemma queue_invD:
  assumes "queue_inv q"
  shows "table_ok (queues q)" "capped (queues q)" "table_ok (withheld_native_steer q)"
    "flight_ok q" "retry_ok q" "cancel_ok q"
  using assms by (simp_all add: queue_inv_def)

text \<open>The operations on a table of events that the methods are made of.\<close>

lemma table_ok_Nil [simp]: "table_ok []"
  by (simp add: table_ok_def)

lemma table_ok_insert:
  "table_ok m \<Longrightarrow> l \<noteq> [] \<Longrightarrow> \<forall>e\<in>set l. qe_channel_id e = c \<Longrightarrow> table_ok (hm_insert c l m)"
  by (auto simp: table_ok_def)

lemma table_ok_remove: "table_ok m \<Longrightarrow> table_ok (hm_remove c m)"
  by (auto simp: table_ok_def)

lemma table_ok_put: "table_ok m \<Longrightarrow> \<forall>e\<in>set l. qe_channel_id e = c \<Longrightarrow> table_ok (put_nonempty c l m)"
  by (auto simp: table_ok_def)

lemma table_ok_retain: "table_ok m \<Longrightarrow> table_ok (idx_retain c P m)"
  by (auto simp: table_ok_def idx.get_retain)

lemma table_ok_push: "table_ok m \<Longrightarrow> qe_channel_id e = c \<Longrightarrow> table_ok (idx_push c e m)"
  by (auto simp: table_ok_def idx.get_push)

lemma table_ok_channel: "table_ok m \<Longrightarrow> e \<in> set (hm_vec m c) \<Longrightarrow> qe_channel_id e = c"
  by (auto simp: table_ok_def)

lemma capped_Nil [simp]: "capped []"
  by (simp add: capped_def)

lemma capped_insert: "capped m \<Longrightarrow> length l \<le> MAX_PENDING_PER_CHANNEL \<Longrightarrow> capped (hm_insert c l m)"
  by (simp add: capped_def)

lemma capped_remove: "capped m \<Longrightarrow> capped (hm_remove c m)"
  by (simp add: capped_def)

lemma capped_put: "capped m \<Longrightarrow> length l \<le> MAX_PENDING_PER_CHANNEL \<Longrightarrow> capped (put_nonempty c l m)"
  by (simp add: capped_def)

lemma capped_retain: "capped m \<Longrightarrow> capped (idx_retain c P m)"
  by (auto simp: capped_def idx.get_retain intro: le_trans [OF length_filter_le])

lemmas table_intros = table_ok_insert table_ok_remove table_ok_put table_ok_retain table_ok_push
  capped_insert capped_remove capped_put capped_retain

text \<open>Pushing events back to the front, cut to the cap.\<close>

definition front_trim :: "queued_event list \<Rightarrow> queued_event list \<Rightarrow> queued_event list" where
  "front_trim es queue = take MAX_PENDING_PER_CHANNEL (es @ queue)"

lemma front_trim_code:
  "trim_back (push_front_all es queue) = front_trim es queue" "trim_back (e # queue) = front_trim [e] queue"
  by (simp_all add: front_trim_def trim_back_take push_front_all_append)

lemma front_trim_props:
  "length (front_trim es queue) \<le> MAX_PENDING_PER_CHANNEL"
  "es \<noteq> [] \<Longrightarrow> front_trim es queue \<noteq> []"
  "set (front_trim es queue) \<subseteq> set es \<union> set queue"
  "length es + length queue \<le> MAX_PENDING_PER_CHANNEL \<Longrightarrow> front_trim es queue = es @ queue"
  using set_take_subset [of MAX_PENDING_PER_CHANNEL "es @ queue"]
  by (auto simp: front_trim_def MAX_PENDING_PER_CHANNEL_def)

lemma table_ok_front:
  assumes "table_ok m" "es \<noteq> []" "\<forall>e\<in>set es. qe_channel_id e = c"
  shows "table_ok (hm_insert c (front_trim es (hm_vec m c)) m)"
  using assms front_trim_props(2,3) [of es "hm_vec m c"] table_ok_channel [of m _ c]
  by (intro table_ok_insert) auto

lemma capped_front: "capped m \<Longrightarrow> capped (hm_insert c (front_trim es (hm_vec m c)) m)"
  by (simp add: capped_insert front_trim_props)

section \<open>Every method keeps the invariant\<close>

lemmas part_defs = flight_ok_def retry_ok_def cancel_ok_def

lemma queue_inv_new: "queue_inv (event_queue_new mode)"
  by (simp add: queue_inv_def event_queue_new_def part_defs idx_no_empty_def from_secs_def
      IN_FLIGHT_DEADLINE_BUFFER_SECS_def DEFAULT_IN_FLIGHT_DEADLINE_SECS_def)

lemma with_in_flight_deadline_inv: "queue_inv q \<Longrightarrow> queue_inv (with_in_flight_deadline n q)"
  by (simp add: queue_inv_def with_in_flight_deadline_def part_defs from_secs_def)

lemma extend_in_flight_deadline_inv: "queue_inv q \<Longrightarrow> queue_inv (extend_in_flight_deadline now c n q)"
  by (auto simp: queue_inv_def extend_in_flight_deadline_def part_defs Let_def split: option.split)

lemma push_inv:
  assumes "queue_inv q"
  shows "queue_inv (snd (push e q))"
proof -
  define l where "l = hm_vec (queues q) (qe_channel_id e)"
  define l' where "l' = (if length l \<ge> MAX_PENDING_PER_CHANNEL then tl l else l) @ [e]"
  have "length l \<le> MAX_PENDING_PER_CHANNEL" using queue_invD(2) [OF assms] by (simp add: l_def capped_def)
  then have "length l' \<le> MAX_PENDING_PER_CHANNEL" by (auto simp: l'_def MAX_PENDING_PER_CHANNEL_def)
  moreover have "\<forall>x\<in>set l'. qe_channel_id x = qe_channel_id e"
  proof -
    have "set (if length l \<ge> MAX_PENDING_PER_CHANNEL then tl l else l) \<subseteq> set l"
      by (cases l) auto
    then show ?thesis
      using table_ok_channel [OF queue_invD(1) [OF assms]] unfolding l'_def l_def by fastforce
  qed
  ultimately have "queue_inv (q\<lparr>queues := hm_insert (qe_channel_id e) l' (queues q)\<rparr>)"
    using assms by (simp add: queue_inv_def part_defs table_ok_insert capped_insert l'_def)
  with assms show ?thesis unfolding l'_def l_def by (simp add: push_def Let_def split: if_split)
qed

lemma recover_inv:
  assumes "queue_inv q"
  shows "queue_inv (recover_withheld_for_expired_channel c q)"
proof (cases "map_of (withheld_native_steer q) c")
  case None
  with assms show ?thesis by (simp add: recover_withheld_for_expired_channel_def)
next
  case (Some es)
  have w: "table_ok (withheld_native_steer q)" using queue_invD(3) [OF assms] .
  have "es \<noteq> []" using w Some hm_vec_nonempty unfolding table_ok_def by metis
  moreover have "\<forall>e\<in>set es. qe_channel_id e = c"
    using table_ok_channel [OF w] hm_vec_Some [OF Some] by blast
  ultimately show ?thesis
    using assms Some
    by (auto simp: recover_withheld_for_expired_channel_def front_trim_code queue_inv_def part_defs
        intro: table_ok_front capped_front table_ok_remove)
qed

lemma expire_one_inv: "queue_inv q \<Longrightarrow> queue_inv (expire_one c q)"
  unfolding expire_one_def by (rule recover_inv) (auto simp: queue_inv_def part_defs)

lemma expire_in_flight_inv: "queue_inv q \<Longrightarrow> queue_inv (expire_in_flight now q)"
  unfolding expire_in_flight_def by (rule fold_invariant) (simp_all add: expire_one_inv)

lemma flush_queued_inv:
  assumes "queue_inv q"
  shows "queue_inv (snd (flush_queued now c q))"
proof -
  define l where "l = hm_vec (queues q) c"
  define rest where "rest = drop (min MAX_BATCH_EVENTS (length l)) l"
  have chan: "\<forall>e\<in>set rest. qe_channel_id e = c"
    using queue_invD(1) [OF assms] table_ok_channel by (auto simp: rest_def l_def dest: in_set_dropD)
  have len: "length rest \<le> MAX_PENDING_PER_CHANNEL"
    using queue_invD(2) [OF assms] unfolding rest_def l_def capped_def length_drop
    by (meson diff_le_self order_trans)
  have "queue_inv (q\<lparr>queues := put_nonempty c rest (queues q)\<rparr>)"
    using assms chan len by (auto simp: queue_inv_def part_defs intro: table_intros)
  then show ?thesis
    by (auto simp: flush_queued_def Let_def queue_inv_def part_defs take_cancelled_def begin_flight_def
        put_nonempty_def rest_def l_def split: if_splits)
qed

lemma flush_cancelled_inv: "queue_inv q \<Longrightarrow> queue_inv (snd (flush_cancelled now c q))"
  by (auto simp: flush_cancelled_def Let_def queue_inv_def part_defs take_cancelled_def begin_flight_def)

lemma flush_next_inv: "queue_inv q \<Longrightarrow> queue_inv (snd (flush_next now q))"
  using flush_queued_inv [OF expire_in_flight_inv, of q now] flush_cancelled_inv [OF expire_in_flight_inv, of q now]
  by (auto simp: flush_next_def Let_def expire_in_flight_inv split: option.split prod.split)
    (metis snd_conv)+

lemma mark_complete_inv: "queue_inv q \<Longrightarrow> queue_inv (mark_complete now c q)"
  by (auto simp: mark_complete_def Let_def queue_inv_def part_defs split: option.split)

lemma requeue_events_inv:
  assumes "queue_inv q" "es \<noteq> []"
  shows "queue_inv (requeue_events c es q)"
  using assms
  by (auto simp: requeue_events_def front_trim_code queue_inv_def part_defs to_queued_event_def
      intro!: table_ok_front capped_front)

lemma requeue_inv:
  assumes "queue_inv q" "fb_events b \<noteq> []"
  shows "queue_inv (snd (requeue now nanos b q))"
proof (cases "(case map_of (retry_counts q) (fb_channel_id b) of None \<Rightarrow> 0 | Some n \<Rightarrow> n) + 1 > MAX_RETRIES")
  case True
  with assms show ?thesis
    by (auto simp: requeue_def Let_def queue_inv_def part_defs)
next
  case False
  have "queue_inv (requeue_events (fb_channel_id b) (fb_events b) q)" using assms by (rule requeue_events_inv)
  with False show ?thesis
    by (auto simp: requeue_def Let_def queue_inv_def part_defs requeue_events_def split: option.splits)
qed

lemma requeue_preserve_inv:
  "queue_inv q \<Longrightarrow> fb_events b \<noteq> [] \<Longrightarrow> queue_inv (requeue_preserve_timestamps b q)"
  by (simp add: requeue_preserve_timestamps_def requeue_events_inv)

lemma requeue_as_cancelled_inv:
  "queue_inv q \<Longrightarrow> fb_events b \<noteq> [] \<Longrightarrow> queue_inv (requeue_as_cancelled b reason q)"
  by (auto simp: requeue_as_cancelled_def queue_inv_def part_defs)

lemma drain_channel_inv: "queue_inv q \<Longrightarrow> queue_inv (snd (drain_channel c q))"
  by (auto simp: drain_channel_def queue_inv_def part_defs intro: table_intros)

lemma mark_native_steer_pending_inv:
  assumes "queue_inv q"
  shows "queue_inv (snd (mark_native_steer_pending c i q))"
proof (cases "fst (mark_native_steer_pending c i q)")
  case False
  with assms show ?thesis
    by (auto simp: mark_native_steer_pending_def split: option.splits)
next
  case True
  then obtain l e rest where l: "map_of (queues q) c = Some l" and t: "take_event i l = Some (e, rest)"
    by (auto simp: mark_native_steer_pending_def split: option.splits)
  from take_event_Some [OF t] obtain us vs where us: "l = us @ e # vs" "rest = us @ vs" by blast
  have "\<forall>x\<in>set l. qe_channel_id x = c" and "length l \<le> MAX_PENDING_PER_CHANNEL"
    using queue_invD(1,2) [OF assms] hm_vec_Some [OF l] by (auto simp: table_ok_def capped_def)
  with assms l t show ?thesis
    by (auto simp: mark_native_steer_pending_def queue_inv_def part_defs us intro!: table_intros)
qed

lemma release_native_steer_inv:
  assumes "queue_inv q"
  shows "queue_inv (release_native_steer c i q)"
proof (cases "\<exists>l e rest. map_of (withheld_native_steer q) c = Some l \<and> take_event i l = Some (e, rest)")
  case False
  with assms show ?thesis by (auto simp: release_native_steer_def split: option.splits)
next
  case True
  then obtain l e rest where l: "map_of (withheld_native_steer q) c = Some l" and t: "take_event i l = Some (e, rest)"
    by blast
  from take_event_Some [OF t] obtain us vs where us: "l = us @ e # vs" "rest = us @ vs" by blast
  have chan: "\<forall>x\<in>set l. qe_channel_id x = c"
    using queue_invD(3) [OF assms] hm_vec_Some [OF l] by (auto simp: table_ok_def)
  have "table_ok (hm_insert c (front_trim [e] (hm_vec (queues q) c)) (queues q))"
    using queue_invD(1) [OF assms] chan us by (intro table_ok_front) auto
  moreover have "table_ok (put_nonempty c rest (withheld_native_steer q))"
    using queue_invD(3) [OF assms] chan us by (intro table_ok_put) auto
  ultimately show ?thesis
    using assms l t
    by (auto simp: release_native_steer_def queue_inv_def part_defs front_trim_code capped_front)
qed

lemma remove_event_inv: "queue_inv q \<Longrightarrow> queue_inv (remove_event c i q)"
  by (auto simp: remove_event_def queue_inv_def part_defs intro: table_intros)

lemma compact_expired_state_inv: "queue_inv q \<Longrightarrow> queue_inv (compact_expired_state now q)"
  by (auto simp: compact_expired_state_def Let_def queue_inv_def part_defs map_of_filter_key
      split: option.splits if_splits)

section \<open>The life of a queue\<close>

text \<open>
  The methods as steps, with arbitrary clock readings. A batch that is requeued holds at
  least one event, as every batch of \<open>flush_next\<close> does.
\<close>

inductive queue_step :: "event_queue \<Rightarrow> event_queue \<Rightarrow> bool" where
  step_deadline: "queue_step q (with_in_flight_deadline n q)"
| step_extend: "queue_step q (extend_in_flight_deadline now c n q)"
| step_push: "queue_step q (snd (push e q))"
| step_flush: "queue_step q (snd (flush_next now q))"
| step_complete: "queue_step q (mark_complete now c q)"
| step_requeue: "fb_events b \<noteq> [] \<Longrightarrow> queue_step q (snd (requeue now nanos b q))"
| step_preserve: "fb_events b \<noteq> [] \<Longrightarrow> queue_step q (requeue_preserve_timestamps b q)"
| step_cancelled: "fb_events b \<noteq> [] \<Longrightarrow> queue_step q (requeue_as_cancelled b reason q)"
| step_has_work: "queue_step q (snd (has_flushable_work now q))"
| step_drain: "queue_step q (snd (drain_channel c q))"
| step_withhold: "queue_step q (snd (mark_native_steer_pending c i q))"
| step_release: "queue_step q (release_native_steer c i q)"
| step_remove: "queue_step q (remove_event c i q)"
| step_compact: "queue_step q (compact_expired_state now q)"

lemmas queue_op_invs = with_in_flight_deadline_inv extend_in_flight_deadline_inv push_inv flush_next_inv
  mark_complete_inv requeue_inv requeue_preserve_inv requeue_as_cancelled_inv drain_channel_inv
  mark_native_steer_pending_inv release_native_steer_inv remove_event_inv compact_expired_state_inv
  expire_in_flight_inv

interpretation queue: step_system "\<lambda>q. \<exists>mode. q = event_queue_new mode" queue_step queue_inv
proof
  show "queue_inv s" if "\<exists>mode. s = event_queue_new mode" for s
    using that queue_inv_new by blast
  show "queue_inv t" if "queue_inv s" "queue_step s t" for s t
    using that(2,1) by cases (simp_all add: queue_op_invs has_flushable_work_def Let_def)
qed

definition queue_reachable :: "event_queue \<Rightarrow> bool" where
  "queue_reachable q \<longleftrightarrow> (\<exists>mode. queue_step\<^sup>*\<^sup>* (event_queue_new mode) q)"

lemma queue_reachable_inv: "queue_reachable q \<Longrightarrow> queue_inv q"
  unfolding queue_reachable_def using queue.reachable_inv by blast

section \<open>Expiry\<close>

lemma expire_one_fields [simp]:
  "in_flight_channels (expire_one c q) = in_flight_channels q - {c}"
  "in_flight_deadlines (expire_one c q) = hm_remove c (in_flight_deadlines q)"
  "retry_after (expire_one c q) = retry_after q" "retry_counts (expire_one c q) = retry_counts q"
  "cancelled_batches (expire_one c q) = cancelled_batches q" "cancel_reasons (expire_one c q) = cancel_reasons q"
  "in_flight_deadline (expire_one c q) = in_flight_deadline q"
  "eq_dedup_mode (expire_one c q) = eq_dedup_mode q"
  by (simp_all add: expire_one_def recover_withheld_for_expired_channel_def split: option.split)

lemma fold_expire_fields [simp]:
  "in_flight_channels (fold expire_one cs q) = in_flight_channels q - set cs"
  "retry_after (fold expire_one cs q) = retry_after q" "retry_counts (fold expire_one cs q) = retry_counts q"
  "cancelled_batches (fold expire_one cs q) = cancelled_batches q"
  "cancel_reasons (fold expire_one cs q) = cancel_reasons q"
  "in_flight_deadline (fold expire_one cs q) = in_flight_deadline q"
  by (induction cs arbitrary: q) auto

lemma expired_ids_set: "hm_wf (in_flight_deadlines q) \<Longrightarrow>
    set (expired_ids now q) = {c. \<exists>d. map_of (in_flight_deadlines q) c = Some d \<and> d \<le> now}"
  by (force simp: expired_ids_def hm_wf_lookup)

lemma expire_in_flight_channels:
  assumes "queue_inv q"
  shows "c \<in> in_flight_channels (expire_in_flight now q) \<longleftrightarrow>
     (\<exists>d. map_of (in_flight_deadlines q) c = Some d \<and> now < d)"
proof -
  have "in_flight_channels q = dom (map_of (in_flight_deadlines q))" "hm_wf (in_flight_deadlines q)"
    using queue_invD(4) [OF assms] by (simp_all add: flight_ok_def)
  then show ?thesis
    by (auto simp: expire_in_flight_def expired_ids_set)
qed

text \<open>What expiry does to a channel's queue: its withheld events go to the front.\<close>

lemma expire_one_tables:
  "hm_vec (withheld_native_steer (expire_one c q)) d = (if d = c then [] else hm_vec (withheld_native_steer q) d)"
  "hm_vec (queues (expire_one c q)) d =
     (if d = c \<and> map_of (withheld_native_steer q) c \<noteq> None
      then front_trim (hm_vec (withheld_native_steer q) c) (hm_vec (queues q) c) else hm_vec (queues q) d)"
  by (auto simp: expire_one_def recover_withheld_for_expired_channel_def front_trim_code hm_vec_def
      split: option.splits)

section \<open>What a flush returns\<close>

lemma ready_in_queue:
  "hm_wf (queues q) \<Longrightarrow> (c, l) \<in> set (filter (ready now q) (queues q)) \<longleftrightarrow>
     map_of (queues q) c = Some l \<and> ready now q (c, l)"
  by (auto simp: hm_wf_lookup)

lemma oldest_ready_Some:
  assumes "hm_wf (queues q)" "oldest_ready now q = Some c"
  shows "ready now q (c, hm_vec (queues q) c) \<and>
    (\<forall>d. ready now q (d, hm_vec (queues q) d) \<longrightarrow>
       qe_received_at (hd (hm_vec (queues q) c)) \<le> qe_received_at (hd (hm_vec (queues q) d)))"
proof -
  from assms(2) obtain l where
    m: "min_by_key (\<lambda>(_, queue). qe_received_at (hd queue)) (filter (ready now q) (queues q)) = Some (c, l)"
    by (auto simp: oldest_ready_def)
  from min_by_key_Some [OF m] have cl: "(c, l) \<in> set (filter (ready now q) (queues q))"
    and least: "\<And>d l'. (d, l') \<in> set (filter (ready now q) (queues q)) \<Longrightarrow>
        qe_received_at (hd l) \<le> qe_received_at (hd l')" by auto
  from cl have l: "hm_vec (queues q) c = l" "ready now q (c, l)"
    by (auto simp: ready_in_queue [OF assms(1)] hm_vec_def simp del: set_filter)
  have "qe_received_at (hd l) \<le> qe_received_at (hd (hm_vec (queues q) d))"
    if "ready now q (d, hm_vec (queues q) d)" for d
  proof (cases "map_of (queues q) d")
    case None
    with that show ?thesis by (simp add: ready_def hm_vec_def)
  next
    case (Some l')
    with that have "(d, l') \<in> set (filter (ready now q) (queues q))"
      by (simp add: ready_in_queue [OF assms(1)] hm_vec_Some del: set_filter)
    from least [OF this] show ?thesis using Some by (simp add: hm_vec_Some)
  qed
  with l show ?thesis by simp
qed

lemma oldest_ready_None:
  "hm_wf (queues q) \<Longrightarrow> oldest_ready now q = None \<longleftrightarrow> (\<forall>c. \<not> ready now q (c, hm_vec (queues q) c))"
proof -
  assume wf: "hm_wf (queues q)"
  have "oldest_ready now q = None \<longleftrightarrow> (\<forall>c l. map_of (queues q) c = Some l \<longrightarrow> \<not> ready now q (c, l))"
    by (auto simp: oldest_ready_def filter_empty_conv hm_wf_lookup [OF wf])
  also have "\<dots> \<longleftrightarrow> (\<forall>c. \<not> ready now q (c, hm_vec (queues q) c))"
    by (auto simp: hm_vec_def ready_def split: option.splits)
  finally show ?thesis .
qed

lemma cancelled_ready_Some:
  "cancelled_ready q = Some c \<Longrightarrow> c \<in> dom (map_of (cancelled_batches q)) \<and> c \<notin> in_flight_channels q"
  by (auto simp: cancelled_ready_def find_Some_iff set_hm_keys [symmetric] simp del: set_hm_keys)

lemma cancelled_ready_None:
  "cancelled_ready q = None \<longleftrightarrow> dom (map_of (cancelled_batches q)) \<subseteq> in_flight_channels q"
  by (auto simp: cancelled_ready_def find_None_iff subset_iff)

text \<open>The outcomes of \<open>flush_next\<close>, from which the properties are read off.\<close>

lemma flush_next_cases:
  obtains (queued) c where "oldest_ready now (expire_in_flight now q) = Some c"
      "flush_next now q = (Some (fst (flush_queued now c (expire_in_flight now q))),
         snd (flush_queued now c (expire_in_flight now q)))"
  | (cancelled) c where "oldest_ready now (expire_in_flight now q) = None"
      "cancelled_ready (expire_in_flight now q) = Some c"
      "flush_next now q = (Some (fst (flush_cancelled now c (expire_in_flight now q))),
         snd (flush_cancelled now c (expire_in_flight now q)))"
  | (idle) "oldest_ready now (expire_in_flight now q) = None"
      "cancelled_ready (expire_in_flight now q) = None" "flush_next now q = (None, expire_in_flight now q)"
  by (cases "oldest_ready now (expire_in_flight now q)"; cases "cancelled_ready (expire_in_flight now q)")
    (simp_all add: flush_next_def Let_def case_prod_beta)

lemma flush_channel [simp]:
  "fb_channel_id (fst (flush_queued now c q)) = c" "fb_channel_id (fst (flush_cancelled now c q)) = c"
  by (simp_all add: flush_queued_def flush_cancelled_def Let_def)

lemma flush_flight [simp]:
  "in_flight_channels (snd (flush_queued now c q)) = insert c (in_flight_channels q)"
  "in_flight_channels (snd (flush_cancelled now c q)) = insert c (in_flight_channels q)"
  "map_of (in_flight_deadlines (snd (flush_queued now c q))) c = Some (now + in_flight_deadline q)"
  "map_of (in_flight_deadlines (snd (flush_cancelled now c q))) c = Some (now + in_flight_deadline q)"
  by (simp_all add: flush_queued_def flush_cancelled_def Let_def take_cancelled_def begin_flight_def)

lemma flush_next_free:
  assumes "queue_inv q" "flush_next now q = (Some b, q')"
  shows "fb_channel_id b \<notin> in_flight_channels (expire_in_flight now q)"
proof -
  have wf: "hm_wf (queues (expire_in_flight now q))"
    using queue_invD(1) [OF expire_in_flight_inv [OF assms(1)]] by (simp add: table_ok_def)
  show ?thesis
  proof (cases rule: flush_next_cases [of now q])
    case (queued c)
    with oldest_ready_Some [OF wf] assms(2) show ?thesis by (auto simp: ready_def)
  next
    case (cancelled c)
    with cancelled_ready_Some assms(2) show ?thesis by fastforce
  next
    case idle
    with assms(2) show ?thesis by simp
  qed
qed

lemma flush_next_unavailable:
  assumes "queue_inv q"
  shows "fst (flush_next now q) = None \<longleftrightarrow> \<not> fst (has_flushable_work now q)"
proof -
  let ?q = "expire_in_flight now q"
  have wf: "hm_wf (queues ?q)"
    using queue_invD(1) [OF expire_in_flight_inv [OF assms]] by (simp add: table_ok_def)
  have "list_ex (ready now ?q) (queues ?q) \<longleftrightarrow> oldest_ready now ?q \<noteq> None"
    by (auto simp: oldest_ready_def list_ex_iff filter_empty_conv)
  moreover have "list_ex (\<lambda>ch. ch \<notin> in_flight_channels ?q) (hm_keys (cancelled_batches ?q)) \<longleftrightarrow>
      cancelled_ready ?q \<noteq> None"
    by (auto simp: cancelled_ready_def list_ex_iff find_None_iff)
  ultimately show ?thesis
    by (auto simp: flush_next_def has_flushable_work_def Let_def split: option.split prod.split)
qed

lemma sort_key_eq_Nil: "sort_key f xs = [] \<longleftrightarrow> xs = []"
  using length_sort [of f xs] by (metis length_0_conv)

lemma flush_events_nonempty:
  assumes "queue_inv q" "flush_next now q = (Some b, q')"
  shows "fb_events b \<noteq> []"
proof -
  let ?q = "expire_in_flight now q"
  have inv: "queue_inv ?q" by (rule expire_in_flight_inv [OF assms(1)])
  then have wf: "hm_wf (queues ?q)" by (simp add: queue_inv_def table_ok_def)
  show ?thesis
  proof (cases rule: flush_next_cases [of now q])
    case (queued c)
    with oldest_ready_Some [OF wf] have "hm_vec (queues ?q) c \<noteq> []" by (auto simp: ready_def)
    moreover have "b = fst (flush_queued now c ?q)" using queued assms(2) by simp
    ultimately show ?thesis
      by (simp add: flush_queued_def Let_def MAX_BATCH_EVENTS_def sort_key_eq_Nil)
  next
    case (cancelled c)
    with cancelled_ready_Some obtain l where l: "map_of (cancelled_batches ?q) c = Some l" by blast
    then have "l \<noteq> []" using queue_invD(6) [OF inv] by (auto simp: cancel_ok_def idx_no_empty_def)
    moreover have "b = fst (flush_cancelled now c ?q)" using cancelled assms(2) by simp
    ultimately show ?thesis using l by (simp add: flush_cancelled_def Let_def hm_vec_def)
  next
    case idle
    with assms(2) show ?thesis by simp
  qed
qed

section \<open>What becomes of an event\<close>

text \<open>The events of a channel the queue still holds, in whatever table.\<close>

definition held :: "event_queue \<Rightarrow> uuid \<Rightarrow> batch_event multiset" where
  "held q c = mset (map to_batch_event (hm_vec (queues q) c)) +
     mset (map to_batch_event (hm_vec (withheld_native_steer q) c)) + mset (hm_vec (cancelled_batches q) c)"

definition in_batch :: "flush_batch \<Rightarrow> uuid \<Rightarrow> batch_event multiset" where
  "in_batch b c = (if fb_channel_id b = c then mset (fb_events b) + mset (fb_cancelled_events b) else {#})"

text \<open>Room for the withheld events to come back.\<close>

definition roomy :: "event_queue \<Rightarrow> bool" where
  "roomy q \<longleftrightarrow> (\<forall>c. length (hm_vec (withheld_native_steer q) c) + length (hm_vec (queues q) c)
     \<le> MAX_PENDING_PER_CHANNEL)"

lemma expire_one_held: "roomy q \<Longrightarrow> held (expire_one c q) d = held q d"
  by (cases "map_of (withheld_native_steer q) c")
    (auto simp: held_def expire_one_tables roomy_def front_trim_props(4) hm_vec_None)

lemma expire_one_roomy: "roomy q \<Longrightarrow> roomy (expire_one c q)"
  by (auto simp: roomy_def expire_one_tables front_trim_props(1) intro: add_leD2)

lemma expire_held: "roomy q \<Longrightarrow> held (expire_in_flight now q) d = held q d"
proof -
  have "roomy (fold expire_one cs q) \<and> held (fold expire_one cs q) d = held q d" if "roomy q" for cs q
    using that by (induction cs arbitrary: q) (auto simp: expire_one_held expire_one_roomy)
  then show "roomy q \<Longrightarrow> ?thesis" by (simp add: expire_in_flight_def)
qed

lemma flush_queued_held:
  "held q d = held (snd (flush_queued now c q)) d + in_batch (fst (flush_queued now c q)) d"
proof -
  let ?l = "hm_vec (queues q) c" and ?n = "min MAX_BATCH_EVENTS (length (hm_vec (queues q) c))"
  have "mset (map to_batch_event ?l) =
      mset (map to_batch_event (take ?n ?l)) + mset (map to_batch_event (drop ?n ?l))"
    by (metis append_take_drop_id map_append mset_append)
  then show ?thesis
    by (auto simp: held_def in_batch_def flush_queued_def Let_def take_cancelled_def begin_flight_def)
qed

lemma flush_cancelled_held:
  "held q d = held (snd (flush_cancelled now c q)) d + in_batch (fst (flush_cancelled now c q)) d"
  by (auto simp: held_def in_batch_def flush_cancelled_def Let_def take_cancelled_def begin_flight_def)

lemma to_batch_queued [simp]: "to_batch_event (to_queued_event c be) = be"
  by (cases be) (simp add: to_batch_event_def to_queued_event_def)

lemma requeue_events_held:
  "length es + length (hm_vec (queues q) c) \<le> MAX_PENDING_PER_CHANNEL \<Longrightarrow>
     held (requeue_events c es q) d = held q d + (if d = c then mset es else {#})"
proof -
  have "map to_batch_event (map (to_queued_event c) es) = es"
    by (simp add: comp_def)
  then show "length es + length (hm_vec (queues q) c) \<le> MAX_PENDING_PER_CHANNEL \<Longrightarrow> ?thesis"
    by (auto simp: held_def requeue_events_def front_trim_code front_trim_props(4) simp flip: mset_map)
qed

lemma mark_steer_tables:
  assumes "fst (mark_native_steer_pending c i q)"
  obtains e us vs where "hm_vec (queues q) c = us @ e # vs" "ev_id (qe_event e) = i"
    "hm_vec (queues (snd (mark_native_steer_pending c i q))) c = us @ vs"
    "hm_vec (withheld_native_steer (snd (mark_native_steer_pending c i q))) c =
       hm_vec (withheld_native_steer q) c @ [e]"
    "cancelled_batches (snd (mark_native_steer_pending c i q)) = cancelled_batches q"
proof -
  from assms obtain l e rest where l: "map_of (queues q) c = Some l" and t: "take_event i l = Some (e, rest)"
    by (auto simp: mark_native_steer_pending_def split: option.splits)
  with take_event_Some [OF t] that show ?thesis
    by (auto simp: mark_native_steer_pending_def hm_vec_Some idx.get_push)
qed

lemma release_steer_tables:
  assumes "x \<in> set (hm_vec (withheld_native_steer q) c)" "ev_id (qe_event x) = i"
  obtains e us vs where "hm_vec (withheld_native_steer q) c = us @ e # vs" "ev_id (qe_event e) = i"
    "hm_vec (withheld_native_steer (release_native_steer c i q)) c = us @ vs"
    "hm_vec (queues (release_native_steer c i q)) c = front_trim [e] (hm_vec (queues q) c)"
    "cancelled_batches (release_native_steer c i q) = cancelled_batches q"
proof -
  obtain l where l: "map_of (withheld_native_steer q) c = Some l" "x \<in> set l"
    using assms(1) by (cases "map_of (withheld_native_steer q) c") (auto simp: hm_vec_def)
  then obtain e rest where t: "take_event i l = Some (e, rest)"
    using assms(2) by (metis take_event_None not_None_eq surj_pair)
  with take_event_Some [OF t] that l show ?thesis
    by (auto simp: release_native_steer_def hm_vec_Some front_trim_code)
qed

section \<open>Progress\<close>

definition ready_channels :: "nat \<Rightarrow> event_queue \<Rightarrow> uuid set" where
  "ready_channels now q = {c. ready now q (c, hm_vec (queues q) c)}"

text \<open>Repeated flushes at one clock reading.\<close>

fun flushes :: "nat \<Rightarrow> nat \<Rightarrow> event_queue \<Rightarrow> flush_batch list" where
  "flushes now 0 q = []"
| "flushes now (Suc n) q =
     (case flush_next now q of (None, _) \<Rightarrow> [] | (Some b, q') \<Rightarrow> b # flushes now n q')"

lemma finite_ready: "finite (ready_channels now q)"
proof (rule finite_subset)
  show "ready_channels now q \<subseteq> fst ` set (queues q)"
    by (auto simp: ready_channels_def ready_def hm_vec_def split: option.splits dest: map_of_SomeD
        intro: rev_image_eqI)
qed simp

lemma flush_queued_ready:
  "ready_channels now (snd (flush_queued now c q)) = ready_channels now q - {c}"
  by (auto simp: ready_channels_def ready_def flush_queued_def Let_def take_cancelled_def begin_flight_def)

lemma no_deadline_passed: "expired_ids now q = [] \<Longrightarrow> expire_in_flight now q = q"
  by (simp add: expire_in_flight_def)

lemma flush_queued_unexpired:
  assumes "queue_inv q"
  shows "expire_in_flight now (snd (flush_queued now c (expire_in_flight now q))) =
     snd (flush_queued now c (expire_in_flight now q))"
proof (rule no_deadline_passed)
  let ?q = "expire_in_flight now q"
  have inv: "queue_inv ?q" by (rule expire_in_flight_inv [OF assms])
  have "in_flight_deadline ?q > 0"
    using queue_invD(4) [OF inv]
    by (auto simp: flight_ok_def from_secs_def IN_FLIGHT_DEADLINE_BUFFER_SECS_def)
  moreover have "now < d" if "map_of (in_flight_deadlines ?q) x = Some d" for x d
  proof -
    have "map_of (in_flight_deadlines (fold expire_one cs q)) x =
        (if x \<in> set cs then None else map_of (in_flight_deadlines q) x)" for cs
      by (induction cs arbitrary: q) auto
    with that expired_ids_set [of q now] queue_invD(4) [OF assms] show ?thesis
      by (auto simp: expire_in_flight_def flight_ok_def split: if_splits)
  qed
  moreover have "hm_wf (in_flight_deadlines (snd (flush_queued now c ?q)))"
    using queue_invD(4) [OF flush_queued_inv [OF inv]] by (simp add: flight_ok_def)
  ultimately have "set (expired_ids now (snd (flush_queued now c ?q))) = {}"
    by (auto simp: expired_ids_set flush_queued_def Let_def take_cancelled_def begin_flight_def
        split: if_splits) (metis not_le)
  then show "expired_ids now (snd (flush_queued now c ?q)) = []" by simp
qed

lemma flushes_reach:
  assumes "queue_inv q" "c \<in> ready_channels now (expire_in_flight now q)"
    and "card (ready_channels now (expire_in_flight now q)) \<le> n"
  shows "\<exists>b\<in>set (flushes now n q). fb_channel_id b = c"
  using assms
proof (induction n arbitrary: q)
  case 0
  then show ?case using finite_ready by (metis card_0_eq empty_iff le_zero_eq)
next
  case (Suc n)
  let ?q = "expire_in_flight now q"
  have inv: "queue_inv ?q" by (rule expire_in_flight_inv [OF Suc.prems(1)])
  then have wf: "hm_wf (queues ?q)" by (simp add: queue_inv_def table_ok_def)
  show ?case
  proof (cases "oldest_ready now ?q")
    case None
    with oldest_ready_None [OF wf] Suc.prems(2) show ?thesis by (simp add: ready_channels_def)
  next
    case (Some d)
    let ?q' = "snd (flush_queued now d ?q)"
    have eq: "flush_next now q = (Some (fst (flush_queued now d ?q)), ?q')"
      using Some by (simp add: flush_next_def Let_def case_prod_beta)
    have dr: "d \<in> ready_channels now ?q"
      using oldest_ready_Some [OF wf Some] by (simp add: ready_channels_def)
    show ?thesis
    proof (cases "c = d")
      case True
      with eq show ?thesis by simp
    next
      case False
      have ready': "ready_channels now (expire_in_flight now ?q') = ready_channels now ?q - {d}"
        by (simp add: flush_queued_unexpired [OF Suc.prems(1)] flush_queued_ready)
      have "card (ready_channels now ?q - {d}) \<le> n"
        using Suc.prems(3) dr finite_ready [of now ?q] by simp
      then have "\<exists>b\<in>set (flushes now n ?q'). fb_channel_id b = c"
        using Suc.IH [OF flush_queued_inv [OF inv]] ready' Suc.prems(2) False by auto
      with eq show ?thesis by simp
    qed
  qed
qed

section \<open>Properties\<close>

text \<open>
  C19: In every reachable state the tables agree: the in-flight set, the deadlines and the
  batch sizes cover the same channels; every queue is non-empty, holds at most 500 events
  and only events of its channel; retry counters stay between 1 and 10, so their 32-bit
  increment never wraps; every cancelled batch has its reason and at least one event.
\<close>

theorem queue_tables_agree:
  assumes "queue_reachable q"
  shows "queue_inv q"
  by (rule queue_reachable_inv [OF assms])

text \<open>
  C13: at most one prompt per channel: while a channel is in flight and its deadline has not
  passed, no flush returns a batch of it; the batch that is returned puts its channel in
  flight with a fresh deadline, and holds at least one event.
\<close>

theorem one_prompt_per_channel:
  assumes "queue_reachable q" "map_of (in_flight_deadlines q) c = Some d" "now < d"
    and "flush_next now q = (Some b, q')"
  shows "fb_channel_id b \<noteq> c \<and> fb_channel_id b \<in> in_flight_channels q' \<and>
    map_of (in_flight_deadlines q') (fb_channel_id b) = Some (now + in_flight_deadline q) \<and> fb_events b \<noteq> []"
proof -
  have inv: "queue_inv q" by (rule queue_reachable_inv [OF assms(1)])
  have "fb_channel_id b \<noteq> c"
    using flush_next_free [OF inv assms(4)] expire_in_flight_channels [OF inv, of c now] assms(2,3) by auto
  moreover have "fb_channel_id b \<in> in_flight_channels q' \<and>
      map_of (in_flight_deadlines q') (fb_channel_id b) = Some (now + in_flight_deadline q)"
    using assms(4) by (cases rule: flush_next_cases [of now q]) (auto simp: expire_in_flight_def)
  ultimately show ?thesis using flush_events_nonempty [OF inv assms(4)] by simp
qed

text \<open>
  channels are served in the order of their oldest event: when some channel is ready
  (events queued, not in flight, not throttled), the batch is of a ready channel whose head
  event was received no later than the head of any ready channel.
\<close>

theorem flush_serves_oldest:
  assumes "queue_reachable q" "flush_next now q = (Some b, q')"
    and "d \<in> ready_channels now (expire_in_flight now q)"
  shows "fb_channel_id b \<in> ready_channels now (expire_in_flight now q) \<and>
    qe_received_at (hd (hm_vec (queues (expire_in_flight now q)) (fb_channel_id b)))
      \<le> qe_received_at (hd (hm_vec (queues (expire_in_flight now q)) d))"
proof -
  have wf: "hm_wf (queues (expire_in_flight now q))"
    using expire_in_flight_inv [OF queue_reachable_inv [OF assms(1)], of now]
    by (simp add: queue_inv_def table_ok_def)
  show ?thesis
    using assms(2,3) oldest_ready_Some [OF wf] oldest_ready_None [OF wf]
    by (cases rule: flush_next_cases [of now q]) (auto simp: ready_channels_def)
qed

text \<open>
  C37: No ready channel starves: as many flushes as there are ready channels dispatch every
  one of them, without any prompt completing.
\<close>

theorem every_ready_channel_is_flushed:
  assumes "queue_reachable q" "c \<in> ready_channels now (expire_in_flight now q)"
  shows "\<exists>b\<in>set (flushes now (card (ready_channels now (expire_in_flight now q))) q). fb_channel_id b = c"
  by (rule flushes_reach [OF queue_reachable_inv [OF assms(1)] assms(2)]) simp

text \<open>
  \<open>has_flushable_work\<close> is the exact guard of \<open>flush_next\<close>: at the same clock reading it
  answers true exactly when a flush would return a batch.
\<close>

theorem flushable_work_guards_flush:
  assumes "queue_reachable q"
  shows "fst (has_flushable_work now q) \<longleftrightarrow> fst (flush_next now q) \<noteq> None"
  by (simp add: flush_next_unavailable [OF queue_reachable_inv [OF assms]])

text \<open>
  The batch of a ready channel is its oldest events, at most 50, in the order of their
  creation time with the delivery order kept among equal times; the rest stays queued in
  order.
\<close>

theorem flush_batch_content:
  assumes "queue_reachable q" "flush_next now q = (Some b, q')"
    and "fb_channel_id b \<in> ready_channels now (expire_in_flight now q)"
  shows "let l = hm_vec (queues (expire_in_flight now q)) (fb_channel_id b) in
    mset (fb_events b) = mset (map to_batch_event (take 50 l)) \<and>
    sorted (map (\<lambda>be. ev_created_at (be_event be)) (fb_events b)) \<and>
    (\<forall>t. filter (\<lambda>be. ev_created_at (be_event be) = t) (fb_events b) =
         filter (\<lambda>be. ev_created_at (be_event be) = t) (map to_batch_event (take 50 l))) \<and>
    hm_vec (queues q') (fb_channel_id b) = drop 50 l"
proof -
  let ?q = "expire_in_flight now q"
  have wf: "hm_wf (queues ?q)"
    using expire_in_flight_inv [OF queue_reachable_inv [OF assms(1)], of now]
    by (simp add: queue_inv_def table_ok_def)
  from assms(3) have "oldest_ready now ?q \<noteq> None"
    using oldest_ready_None [OF wf] by (auto simp: ready_channels_def)
  then obtain c where "b = fst (flush_queued now c ?q)" "q' = snd (flush_queued now c ?q)"
    using assms(2) by (cases rule: flush_next_cases [of now q]) auto
  moreover have "take (min 50 (length l)) l = take 50 l" "drop (min 50 (length l)) l = drop 50 l"
    for l :: "queued_event list" by (simp_all add: min_def)
  ultimately show ?thesis
    by (auto simp: Let_def flush_queued_def MAX_BATCH_EVENTS_def take_cancelled_def begin_flight_def sort_key_stable)
qed


text \<open>
  A failed batch that is requeued gives back its new events and only those: they are at
  the front of the channel's queue with their original times, the channel is throttled
  until the back-off ends, and the batch's \<open>cancelled_events\<close> are nowhere in the queue.
\<close>

theorem requeue_drops_cancelled:
  assumes "length (fb_events b) + length (hm_vec (queues q) (fb_channel_id b)) \<le> MAX_PENDING_PER_CHANNEL"
    and "fst (requeue now nanos b q) = None"
  shows "held (snd (requeue now nanos b q)) c =
      held q c + (if c = fb_channel_id b then mset (fb_events b) else {#}) \<and>
    hm_vec (queues (snd (requeue now nanos b q))) (fb_channel_id b) =
      map (to_queued_event (fb_channel_id b)) (fb_events b) @ hm_vec (queues q) (fb_channel_id b)"
proof -
  have "held (q1\<lparr>retry_after := r\<rparr>) c = held q1 c" "held (q1\<lparr>retry_counts := r'\<rparr>) c = held q1 c"
    for q1 r r' by (simp_all add: held_def)
  then show ?thesis
    using assms requeue_events_held [of "fb_events b" q "fb_channel_id b" c]
    by (auto simp: requeue_def Let_def requeue_events_def front_trim_code front_trim_props(4) held_def
        split: if_splits)
qed

text \<open>
  A batch is retried ten times and dead-lettered the eleventh: in every reachable state a
  requeue returns the batch exactly when the channel's counter is at ten, and then clears
  counter and throttle; otherwise it counts one attempt more.
\<close>

theorem dead_letter_after_max_retries:
  assumes "queue_reachable q"
  shows "let c = fb_channel_id b; n = (case map_of (retry_counts q) c of None \<Rightarrow> 0 | Some n \<Rightarrow> n);
             r = requeue now nanos b q in
    n \<le> 10 \<and>
    (if n = 10 then r = (Some b, q\<lparr>retry_counts := hm_remove c (retry_counts q),
                                   retry_after := hm_remove c (retry_after q)\<rparr>)
     else fst r = None \<and> map_of (retry_counts (snd r)) c = Some (n + 1) \<and>
          map_of (retry_after (snd r)) c = Some (now + retry_delay (n + 1) nanos))"
proof -
  have "n \<le> 10" if "map_of (retry_counts q) (fb_channel_id b) = Some n" for n
    using queue_invD(5) [OF queue_reachable_inv [OF assms]] that by (auto simp: retry_ok_def MAX_RETRIES_def)
  then show ?thesis
    by (cases "map_of (retry_counts q) (fb_channel_id b)")
      (auto simp: requeue_def requeue_events_def Let_def MAX_RETRIES_def)
qed

text \<open>
  The back-off grows with the attempts, from 5 to 300 seconds before jitter; the jitter
  factor lies between 0.8 and 0.894, since the sub-second part of the clock is below
  \<open>10^9\<close> while the divisor is \<open>2^32 - 1\<close>. It never reaches the upper half of the
  \<open>\<plusminus>20%\<close> range.
\<close>

theorem retry_delay_bounds:
  assumes "nanos < 1000000000" and "attempt \<ge> 1"
  shows "5 \<le> capped_delay_secs attempt \<and> capped_delay_secs attempt \<le> 300 \<and>
    capped_delay_secs attempt \<le> capped_delay_secs (attempt + 1) \<and>
    8 * from_secs (capped_delay_secs attempt) \<le> 10 * retry_delay attempt nanos \<and>
    1000 * retry_delay attempt nanos \<le> 894 * from_secs (capped_delay_secs attempt)"
proof -
  let ?n = "min (attempt - 1) 6"
  have p: "(2::nat) ^ ?n \<le> 2 ^ min attempt 6" by (intro power_increasing) auto
  then have mono: "capped_delay_secs attempt \<le> capped_delay_secs (attempt + 1)"
    unfolding capped_delay_secs_def by (intro min.mono mult_le_mono) simp_all
  have one: "1 \<le> (2::nat) ^ ?n" by simp
  then have lo: "5 \<le> capped_delay_secs attempt"
    unfolding capped_delay_secs_def BASE_RETRY_DELAY_SECS_def MAX_RETRY_DELAY_SECS_def
    by (auto simp: min_def)
  have hi: "capped_delay_secs attempt \<le> 300"
    by (simp add: capped_delay_secs_def MAX_RETRY_DELAY_SECS_def)
  define s where "s = from_secs (capped_delay_secs attempt)"
  have s10: "s = 10 * (capped_delay_secs attempt * 100000000)" by (simp add: s_def from_secs_def)
  have d: "retry_delay attempt nanos = s * (34359738360 + 4 * nanos) div 42949672950"
    by (simp add: retry_delay_def Let_def s_def)
  have "8 * (capped_delay_secs attempt * 100000000) = s * 34359738360 div 42949672950"
    unfolding s10 by simp
  also have "\<dots> \<le> retry_delay attempt nanos" unfolding d by (intro div_le_mono mult_le_mono) simp_all
  finally have "8 * s \<le> 10 * retry_delay attempt nanos" unfolding s10 by simp
  moreover have "1000 * retry_delay attempt nanos \<le> 894 * s"
  proof -
    have "retry_delay attempt nanos * 42949672950 \<le> s * (34359738360 + 4 * nanos)"
      unfolding d by (rule div_times_less_eq_dividend)
    also have "\<dots> \<le> s * 38359738360" using assms(1) by (intro mult_le_mono) simp_all
    finally show ?thesis by simp
  qed
  ultimately show ?thesis using lo hi mono by (simp add: s_def)
qed

text \<open>
  sleeping is safe: when no work is undispatched and no prompt is in flight, the queue
  holds no event of any channel.
\<close>

theorem idle_queue_is_empty:
  assumes "queue_reachable q" "\<not> has_undispatched_work q" "\<not> has_in_flight q"
  shows "held q c = {#}"
proof -
  have inv: "queue_inv q" by (rule queue_reachable_inv [OF assms(1)])
  have idle: "in_flight_channels q = {}" using assms(3) by (simp add: has_in_flight_def)
  have "hm_vec (queues q) c = []" "hm_vec (withheld_native_steer q) c = []"
    using assms(2) by (auto simp: has_undispatched_work_def list_ex_iff idle hm_vec_def
        split: option.split dest: map_of_SomeD)
  moreover have "hm_vec (cancelled_batches q) c = []"
    using assms(2) by (auto simp: has_undispatched_work_def list_ex_iff idle hm_vec_def split: option.split)
  ultimately show ?thesis by (simp add: held_def)
qed

text \<open>
  Draining a channel leaves nothing of it in any table and keeps its prompt in flight;
  the identifiers it returns are those of the queued events only. Events withheld for a
  steer and events of a cancelled batch are dropped without being reported.
\<close>

theorem drain_channel_reports_queued_only:
  "held (snd (drain_channel c q)) c = {#} \<and>
   in_flight_channels (snd (drain_channel c q)) = in_flight_channels q \<and>
   image_mset (\<lambda>be. ev_id (be_event be)) (held q c) =
     mset (fst (drain_channel c q)) +
     mset (map (\<lambda>qe. ev_id (qe_event qe)) (hm_vec (withheld_native_steer q) c)) +
     mset (map (\<lambda>be. ev_id (be_event be)) (hm_vec (cancelled_batches q) c))"
  by (simp add: drain_channel_def held_def to_batch_event_def multiset.map_comp comp_def)

text \<open>
  withholding an event for a native steer and releasing it after a failed steer gives the
  channel the same events, the released one first; a steer that succeeded removes the event
  from queue and side table, so that it is not delivered again.
\<close>

theorem native_steer_outcomes:
  assumes "queue_reachable q" "fst (mark_native_steer_pending c i q)"
  shows "let q1 = snd (mark_native_steer_pending c i q); q2 = release_native_steer c i q1;
             q3 = remove_event c i q1 in
    held q1 c = held q c \<and> held q2 c = held q c \<and>
    (\<exists>e l. hm_vec (queues q2) c = e # l \<and> ev_id (qe_event e) = i) \<and>
    list_all (\<lambda>e. ev_id (qe_event e) \<noteq> i) (hm_vec (queues q3) c @ hm_vec (withheld_native_steer q3) c)"
proof -
  define q1 where "q1 = snd (mark_native_steer_pending c i q)"
  obtain e us vs where l: "hm_vec (queues q) c = us @ e # vs" "ev_id (qe_event e) = i"
    and q1: "hm_vec (queues q1) c = us @ vs"
      "hm_vec (withheld_native_steer q1) c = hm_vec (withheld_native_steer q) c @ [e]"
      "cancelled_batches q1 = cancelled_batches q"
    using mark_steer_tables [OF assms(2)] unfolding q1_def by blast
  have "length (hm_vec (queues q) c) \<le> MAX_PENDING_PER_CHANNEL"
    using queue_invD(2) [OF queue_reachable_inv [OF assms(1)]] by (simp add: capped_def)
  then have room: "length [x] + length (hm_vec (queues q1) c) \<le> MAX_PENDING_PER_CHANNEL" for x :: queued_event
    by (simp add: q1 l)
  have h1: "held q1 c = held q c" by (simp add: held_def q1 l)
  have "e \<in> set (hm_vec (withheld_native_steer q1) c)" by (simp add: q1)
  from release_steer_tables [OF this l(2)] obtain e' us' vs' where
    r: "hm_vec (withheld_native_steer q1) c = us' @ e' # vs'" "ev_id (qe_event e') = i"
      "hm_vec (withheld_native_steer (release_native_steer c i q1)) c = us' @ vs'"
      "hm_vec (queues (release_native_steer c i q1)) c = e' # hm_vec (queues q1) c"
      "cancelled_batches (release_native_steer c i q1) = cancelled_batches q1"
    by (metis front_trim_props(4) [OF room] append_Cons append_Nil)
  have h2: "held (release_native_steer c i q1) c = held q1 c"
    by (simp add: held_def r(1,3,4,5))
  show ?thesis
    unfolding q1_def [symmetric] Let_def
    using h1 h2 r(2,4) by (auto simp: remove_event_def idx.get_retain list_all_iff)
qed

subsection \<open>A concrete queue\<close>

definition sample_queued :: "uuid \<Rightarrow> event_id \<Rightarrow> u64 \<Rightarrow> nat \<Rightarrow> queued_event" where
  "sample_queued c i t r =
     \<lparr>qe_channel_id = c, qe_event = \<lparr>ev_id = i, ev_pubkey = ''pk'', ev_created_at = t, ev_kind = 9,
        ev_tags = [], ev_content = []\<rparr>, qe_received_at = r, qe_prompt_tag = ''mention''\<rparr>"

text \<open>Two channels: the second got its first event earlier, its events newest first.\<close>

definition sample_queue :: event_queue where
  "sample_queue = snd (push (sample_queued ''B'' ''b2'' 6 12) (snd (push (sample_queued ''A'' ''a1'' 7 11)
     (snd (push (sample_queued ''B'' ''b1'' 8 10) (event_queue_new Queue))))))"

definition sample_flushed :: event_queue where
  "sample_flushed = snd (flush_next 20 sample_queue)"

definition sample_batch :: flush_batch where
  "sample_batch = \<lparr>fb_channel_id = ''B'',
     fb_events = map to_batch_event [sample_queued ''B'' ''b2'' 6 12, sample_queued ''B'' ''b1'' 8 10],
     fb_cancelled_events = [], fb_cancel_reason = None\<rparr>"

definition sample_be :: "event_id \<Rightarrow> batch_event" where
  "sample_be i = to_batch_event (sample_queued ''B'' i 9 13)"

lemma queue_reachable_new: "queue_reachable (event_queue_new mode)"
  by (auto simp: queue_reachable_def)

lemma queue_reachable_step: "queue_reachable q \<Longrightarrow> queue_step q q' \<Longrightarrow> queue_reachable q'"
  unfolding queue_reachable_def by (meson rtranclp.rtrancl_into_rtrancl)

lemma sample_queue_reachable: "queue_reachable sample_queue"
  unfolding sample_queue_def by (intro queue_reachable_step [OF _ step_push] queue_reachable_new)

lemma sample_flushed_reachable: "queue_reachable sample_flushed"
  unfolding sample_flushed_def by (intro queue_reachable_step [OF _ step_flush] sample_queue_reachable)

text \<open>Evaluation by the simplifier, on numerals.\<close>

lemmas queue_eval = hm_vec_def hm_insert_def hm_remove_def hm_keys_def Let_def
  expire_in_flight_def expired_ids_def expire_one_def recover_withheld_for_expired_channel_def
  oldest_ready_def ready_def min_by_key_def cancelled_ready_def flush_queued_def flush_cancelled_def
  begin_flight_def take_cancelled_def flush_next_def MAX_BATCH_EVENTS_def MAX_PENDING_PER_CHANNEL_def
  sample_queued_def to_batch_event_def from_secs_def DEFAULT_IN_FLIGHT_DEADLINE_SECS_def

lemma sample_queue_eq:
  "sample_queue = (event_queue_new Queue)\<lparr>queues :=
     [(''B'', [sample_queued ''B'' ''b1'' 8 10, sample_queued ''B'' ''b2'' 6 12]),
      (''A'', [sample_queued ''A'' ''a1'' 7 11])]\<rparr>"
  by (simp add: sample_queue_def push_def event_queue_new_def queue_eval)

lemma sample_flushed_eq:
  "sample_flushed = (event_queue_new Queue)\<lparr>queues := [(''A'', [sample_queued ''A'' ''a1'' 7 11])],
     in_flight_channels := {''B''}, in_flight_deadlines := [(''B'', 7300000000020)],
     in_flight_batch_sizes := [(''B'', 2)]\<rparr>"
  by (simp add: sample_flushed_def sample_queue_eq event_queue_new_def queue_eval)

lemma sample_flush: "flush_next 20 sample_queue = (Some sample_batch, sample_flushed)"
  unfolding sample_flushed_def
  by (simp add: prod_eq_iff) (simp add: sample_batch_def sample_queue_eq event_queue_new_def queue_eval)

lemma sample_second_flush:
  "flush_next 20 sample_flushed = (Some \<lparr>fb_channel_id = ''A'',
     fb_events = [to_batch_event (sample_queued ''A'' ''a1'' 7 11)],
     fb_cancelled_events = [], fb_cancel_reason = None\<rparr>, snd (flush_next 20 sample_flushed))"
  by (simp add: prod_eq_iff) (simp add: sample_flushed_eq event_queue_new_def queue_eval)

lemma sample_expire: "expire_in_flight 20 sample_queue = sample_queue"
  by (simp add: sample_queue_eq event_queue_new_def expire_in_flight_def expired_ids_def)

lemma sample_ready: "''A'' \<in> ready_channels 20 sample_queue" "''B'' \<in> ready_channels 20 sample_queue"
  by (simp_all add: ready_channels_def sample_queue_eq event_queue_new_def queue_eval)

theorem queue_tables_agree_witness: "queue_inv sample_flushed"
  by (rule queue_tables_agree [OF sample_flushed_reachable])

theorem one_prompt_per_channel_witness:
  "''A'' \<noteq> ''B'' \<and> ''A'' \<in> in_flight_channels (snd (flush_next 20 sample_flushed))"
proof -
  have "map_of (in_flight_deadlines sample_flushed) ''B'' = Some 7300000000020"
    by (simp add: sample_flushed_eq)
  from one_prompt_per_channel [OF sample_flushed_reachable this _ sample_second_flush] show ?thesis by simp
qed

theorem flush_serves_oldest_witness:
  "qe_received_at (hd (hm_vec (queues sample_queue) ''B'')) \<le> qe_received_at (hd (hm_vec (queues sample_queue) ''A''))"
  using flush_serves_oldest [OF sample_queue_reachable sample_flush, unfolded sample_expire, OF sample_ready(1)]
  by (simp add: sample_batch_def)

theorem every_ready_channel_is_flushed_witness:
  "\<exists>b\<in>set (flushes 20 (card (ready_channels 20 sample_queue)) sample_queue). fb_channel_id b = ''A''"
  using every_ready_channel_is_flushed [OF sample_queue_reachable, of "''A''" 20] sample_ready(1)
  by (simp add: sample_expire)

theorem flushable_work_guards_flush_witness: "fst (has_flushable_work 20 sample_queue)"
  using flushable_work_guards_flush [OF sample_queue_reachable, of 20] by (simp add: sample_flush)

theorem flush_batch_content_witness:
  "mset (fb_events sample_batch) =
     mset (map to_batch_event [sample_queued ''B'' ''b1'' 8 10, sample_queued ''B'' ''b2'' 6 12]) \<and>
   hm_vec (queues sample_flushed) ''B'' = []"
proof -
  have "fb_channel_id sample_batch \<in> ready_channels 20 (expire_in_flight 20 sample_queue)"
    using sample_ready(2) by (simp add: sample_expire sample_batch_def)
  from flush_batch_content [OF sample_queue_reachable sample_flush this] show ?thesis
    by (simp add: Let_def sample_expire) (simp add: sample_batch_def sample_queue_eq hm_vec_def)
qed


theorem requeue_drops_cancelled_witness:
  "held (snd (requeue 20 5 (sample_batch\<lparr>fb_events := [sample_be ''b3''], fb_cancelled_events := [sample_be ''b0'']\<rparr>)
     (event_queue_new Queue))) ''B'' = {#sample_be ''b3''#}"
proof -
  let ?b = "sample_batch\<lparr>fb_events := [sample_be ''b3''], fb_cancelled_events := [sample_be ''b0'']\<rparr>"
  have "length (fb_events ?b) + length (hm_vec (queues (event_queue_new Queue)) (fb_channel_id ?b)) \<le>
      MAX_PENDING_PER_CHANNEL"
    by (simp add: event_queue_new_def MAX_PENDING_PER_CHANNEL_def)
  moreover have "fst (requeue 20 5 ?b (event_queue_new Queue)) = None"
    by (simp add: requeue_def event_queue_new_def Let_def MAX_RETRIES_def)
  ultimately show ?thesis
    using requeue_drops_cancelled [of ?b "event_queue_new Queue" 20 5 "''B''"]
    by (simp add: held_def event_queue_new_def) (simp add: sample_batch_def)
qed

theorem dead_letter_after_max_retries_witness:
  "fst (requeue 20 5 sample_batch sample_flushed) = None \<and>
   map_of (retry_counts (snd (requeue 20 5 sample_batch sample_flushed))) ''B'' = Some 1"
  using dead_letter_after_max_retries [OF sample_flushed_reachable, of sample_batch 20 5]
  by (simp add: Let_def sample_flushed_eq event_queue_new_def) (simp add: sample_batch_def)

theorem retry_delay_bounds_witness:
  "8 * from_secs (capped_delay_secs 1) \<le> 10 * retry_delay 1 999999999 \<and>
   1000 * retry_delay 1 999999999 \<le> 894 * from_secs (capped_delay_secs 1)"
  using retry_delay_bounds [of 999999999 1] by simp

theorem idle_queue_is_empty_witness: "held (event_queue_new Drop) ''A'' = {#}"
proof (rule idle_queue_is_empty)
  show "\<not> has_undispatched_work (event_queue_new Drop)" "\<not> has_in_flight (event_queue_new Drop)"
    by (simp_all add: has_undispatched_work_def has_in_flight_def event_queue_new_def hm_keys_def Let_def)
qed (rule queue_reachable_new)

theorem native_steer_outcomes_witness:
  "held (release_native_steer ''B'' ''b2'' (snd (mark_native_steer_pending ''B'' ''b2'' sample_queue))) ''B'' =
     held sample_queue ''B''"
proof -
  have "fst (mark_native_steer_pending ''B'' ''b2'' sample_queue)"
    by (simp add: mark_native_steer_pending_def sample_queue_eq sample_queued_def)
  from native_steer_outcomes [OF sample_queue_reachable this] show ?thesis by (simp add: Let_def)
qed

end
