(* ===== verification/Roles.thy ===== *)
theory Roles
  imports Prelude
begin

text \<open>
  Channel and membership enums (\<open>buzz-core/src/channel.rs\<close>): visibilities, channel types,
  member roles with their permission levels, their text forms and parsers, and the canonical
  form of a channel name. A parser's error is the input it rejects; the text of the message
  is a fixed phrase around it.
\<close>

section \<open>Channel names\<close>

text \<open>A name is its list of Unicode code points; \<open>is_whitespace\<close> is \<open>char::is_whitespace\<close>.\<close>

definition is_whitespace :: "nat \<Rightarrow> bool" where
  "is_whitespace c \<longleftrightarrow> (9 \<le> c \<and> c \<le> 13) \<or> c \<in> {32, 133, 160, 5760, 8232, 8233, 8239, 8287, 12288} \<or>
     (8192 \<le> c \<and> c \<le> 8202)"

definition canonical_channel_name :: "nat list \<Rightarrow> nat list" where
  "canonical_channel_name name =
     rev (dropWhile is_whitespace (rev (dropWhile (\<lambda>c. c = 35 \<or> is_whitespace c) name)))"

section \<open>Enums\<close>

datatype channel_visibility = Open | Private

fun visibility_as_str :: "channel_visibility \<Rightarrow> string" where
  "visibility_as_str Open = ''open''"
| "visibility_as_str Private = ''private''"

definition visibility_from_str :: "string \<Rightarrow> (channel_visibility, string) result" where
  "visibility_from_str s =
     (if s = ''open'' then Ok Open else if s = ''private'' then Ok Private else Err s)"

datatype channel_type = Stream | Forum | Dm | Workflow

fun channel_type_as_str :: "channel_type \<Rightarrow> string" where
  "channel_type_as_str Stream = ''stream''"
| "channel_type_as_str Forum = ''forum''"
| "channel_type_as_str Dm = ''dm''"
| "channel_type_as_str Workflow = ''workflow''"

definition channel_type_from_str :: "string \<Rightarrow> (channel_type, string) result" where
  "channel_type_from_str s =
     (if s = ''stream'' then Ok Stream else if s = ''forum'' then Ok Forum
      else if s = ''dm'' then Ok Dm else if s = ''workflow'' then Ok Workflow else Err s)"

datatype member_role = Owner | Admin | Member | Guest | Bot

fun role_as_str :: "member_role \<Rightarrow> string" where
  "role_as_str Owner = ''owner''"
| "role_as_str Admin = ''admin''"
| "role_as_str Member = ''member''"
| "role_as_str Guest = ''guest''"
| "role_as_str Bot = ''bot''"

fun is_elevated :: "member_role \<Rightarrow> bool" where
  "is_elevated Owner = True"
| "is_elevated Admin = True"
| "is_elevated _ = False"

fun permission_level :: "member_role \<Rightarrow> u8" where
  "permission_level Owner = 4"
| "permission_level Admin = 3"
| "permission_level Member = 2"
| "permission_level Guest = 1"
| "permission_level Bot = 0"

definition has_at_least :: "member_role \<Rightarrow> member_role \<Rightarrow> bool" where
  "has_at_least self required = (permission_level self \<ge> permission_level required)"

definition role_from_str :: "string \<Rightarrow> (member_role, string) result" where
  "role_from_str s =
     (if s = ''owner'' then Ok Owner else if s = ''admin'' then Ok Admin
      else if s = ''member'' then Ok Member else if s = ''guest'' then Ok Guest
      else if s = ''bot'' then Ok Bot else Err s)"

section \<open>Laws\<close>

lemma role_from_str_iff: "role_from_str s = Ok r \<longleftrightarrow> s = role_as_str r"
  by (cases r) (auto simp: role_from_str_def)

lemma channel_type_from_str_iff: "channel_type_from_str s = Ok t \<longleftrightarrow> s = channel_type_as_str t"
  by (cases t) (auto simp: channel_type_from_str_def)

lemma visibility_from_str_iff: "visibility_from_str s = Ok v \<longleftrightarrow> s = visibility_as_str v"
  by (cases v) (auto simp: visibility_from_str_def)

lemma permission_level_inj: "permission_level r = permission_level r' \<Longrightarrow> r = r'"
  by (cases r; cases r') simp_all

text \<open>
  Roles are ordered by permission level, so the order's lemmas (and \<open>max\<close> for the stricter
  of two requirements) apply to them.
\<close>

instantiation member_role :: linorder
begin

definition less_eq_member_role :: "member_role \<Rightarrow> member_role \<Rightarrow> bool" where
  "less_eq_member_role r r' \<longleftrightarrow> permission_level r \<le> permission_level r'"

definition less_member_role :: "member_role \<Rightarrow> member_role \<Rightarrow> bool" where
  "less_member_role r r' \<longleftrightarrow> permission_level r < permission_level r'"

instance
  by standard (auto simp: less_eq_member_role_def less_member_role_def dest: permission_level_inj)

end

lemma has_at_least_le: "has_at_least r r' \<longleftrightarrow> r' \<le> r"
  by (simp add: has_at_least_def less_eq_member_role_def)

lemma dropWhile_idem_head: "dropWhile P xs = [] \<or> \<not> P (hd (dropWhile P xs))"
  by (induction xs) auto

lemma canonical_trimmed:
  "canonical_channel_name name = [] \<or>
     (hd (canonical_channel_name name) \<noteq> 35 \<and> \<not> is_whitespace (hd (canonical_channel_name name)) \<and>
      \<not> is_whitespace (last (canonical_channel_name name)))"
proof -
  define s where "s = dropWhile (\<lambda>c. c = 35 \<or> is_whitespace c) name"
  define t where "t = dropWhile is_whitespace (rev s)"
  have can: "canonical_channel_name name = rev t" by (simp add: canonical_channel_name_def t_def s_def)
  obtain u where u: "rev s = u @ t" by (metis t_def takeWhile_dropWhile_id)
  show ?thesis
  proof (cases "t = []")
    case False
    then have "hd (rev t) = hd s" using u by (metis hd_append rev_append rev_is_Nil_conv rev_rev_ident)
    moreover have "s \<noteq> []" using u False by auto
    moreover have "s = [] \<or> \<not> (hd s = 35 \<or> is_whitespace (hd s))"
      using dropWhile_idem_head [of "\<lambda>c. c = 35 \<or> is_whitespace c" name] by (simp add: s_def)
    moreover have "\<not> is_whitespace (hd t)" using dropWhile_idem_head [of is_whitespace "rev s"] False by (auto simp: t_def)
    ultimately show ?thesis using False by (simp add: can last_rev)
  qed (simp add: can)
qed

section \<open>Properties\<close>

text \<open>
  The text forms of channel visibilities, channel types and roles are exact inverses of
  their parsers: a parser accepts precisely the canonical texts, each of one value.
\<close>

theorem channel_enum_round_trips:
  "(visibility_from_str s = Ok v \<longleftrightarrow> s = visibility_as_str v) \<and>
   (channel_type_from_str s = Ok t \<longleftrightarrow> s = channel_type_as_str t) \<and>
   (role_from_str s = Ok r \<longleftrightarrow> s = role_as_str r)"
  by (simp add: visibility_from_str_iff channel_type_from_str_iff role_from_str_iff)

end
