(* ===== verification/GitPerms.thy ===== *)
theory GitPerms
  imports Roles
begin

text \<open>
  Git push permissions (\<open>buzz-core/src/git_perms.rs\<close>): ref patterns, protection rules
  parsed from \<open>buzz-protect\<close> tags, and the evaluation of a push. A string is its list of
  bytes, as \<open>str::len\<close> and \<open>split\<close> see it. The \<open>unreachable!()\<close> arms of \<open>matches\<close> are the
  value \<open>None\<close>, carried through its callers, and shown unreachable for parsed rules.
\<close>

definition MAX_PROTECTION_RULES :: nat where "MAX_PROTECTION_RULES = 50"
definition MAX_PATTERN_LENGTH :: nat where "MAX_PATTERN_LENGTH = 256"
definition MAX_WILDCARDS_PER_PATTERN :: nat where "MAX_WILDCARDS_PER_PATTERN = 3"

section \<open>Ref patterns\<close>

datatype pattern_segment = Literal string | Wildcard | RecursiveWildcard

record ref_pattern =
  rp_raw :: string
  rp_segments :: "pattern_segment list"

datatype pattern_error = EmptyPattern | TooLong | MissingRefsPrefix | InvalidSegment string | TooManyWildcards

definition is_ascii_alphanumeric :: "char \<Rightarrow> bool" where
  "is_ascii_alphanumeric c =
     (let n = of_char c :: nat in (48 \<le> n \<and> n \<le> 57) \<or> (65 \<le> n \<and> n \<le> 90) \<or> (97 \<le> n \<and> n \<le> 122))"

definition literal_char :: "char \<Rightarrow> bool" where
  "literal_char c = (is_ascii_alphanumeric c \<or> c = CHR ''.'' \<or> c = CHR ''_'' \<or> c = CHR ''-'')"

fun parse_parts ::
  "string list \<Rightarrow> nat \<Rightarrow> pattern_segment list \<Rightarrow> (pattern_segment list, pattern_error) result" where
  "parse_parts [] wildcard_count segments = Ok segments"
| "parse_parts (part # rest) wildcard_count segments =
     (if part = ''**'' then
        (if rest \<noteq> [] then Err (InvalidSegment ''** must be the last segment'')
         else if wildcard_count + 1 > MAX_WILDCARDS_PER_PATTERN then Err TooManyWildcards
         else parse_parts rest (wildcard_count + 1) (segments @ [RecursiveWildcard]))
      else if part = ''*'' then
        (if wildcard_count + 1 > MAX_WILDCARDS_PER_PATTERN then Err TooManyWildcards
         else parse_parts rest (wildcard_count + 1) (segments @ [Wildcard]))
      else if part = [] then Err (InvalidSegment [])
      else if CHR ''*'' \<in> set part \<or> CHR ''?'' \<in> set part \<or> CHR ''['' \<in> set part \<or> CHR '']'' \<in> set part
      then Err (InvalidSegment part)
      else if \<not> list_all literal_char part then Err (InvalidSegment part)
      else parse_parts rest wildcard_count (segments @ [Literal part]))"

definition ref_pattern_parse :: "string \<Rightarrow> (ref_pattern, pattern_error) result" where
  "ref_pattern_parse pattern =
     (if pattern = [] then Err EmptyPattern
      else if length pattern > MAX_PATTERN_LENGTH then Err TooLong
      else if \<not> prefix ''refs/'' pattern then Err MissingRefsPrefix
      else and_then (parse_parts (split_on CHR ''/'' pattern) 0 [])
             (\<lambda>segments. Ok \<lparr>rp_raw = pattern, rp_segments = segments\<rparr>))"

text \<open>\<open>zip(..).all(..)\<close> with its short circuit; \<open>None\<close> is the panic.\<close>

fun match_all :: "(pattern_segment \<times> string) list \<Rightarrow> bool option" where
  "match_all [] = Some True"
| "match_all ((Wildcard, seg) # r) = match_all r"
| "match_all ((Literal lit, seg) # r) = (if lit = seg then match_all r else Some False)"
| "match_all ((RecursiveWildcard, seg) # r) = None"

definition pattern_matches :: "ref_pattern \<Rightarrow> string \<Rightarrow> bool option" where
  "pattern_matches p ref_name =
     (let ref_segments = split_on CHR ''/'' ref_name; segments = rp_segments p
      in if segments \<noteq> [] \<and> last segments = RecursiveWildcard then
           (let prefix_len = length segments - 1
            in if length ref_segments \<le> prefix_len then Some False
               else match_all (zip (take prefix_len segments) (take prefix_len ref_segments)))
         else if length ref_segments \<noteq> length segments then Some False
         else match_all (zip segments ref_segments))"

section \<open>Updates\<close>

datatype update_kind = Create | FastForward | NonFastForward | Delete

definition ZERO_OID :: string where
  "ZERO_OID = replicate 40 CHR ''0''"

definition classify :: "string \<Rightarrow> string \<Rightarrow> bool \<Rightarrow> update_kind" where
  "classify old_oid new_oid is_ancestor =
     (if old_oid = ZERO_OID then Create
      else if new_oid = ZERO_OID then Delete
      else if is_ancestor then FastForward
      else NonFastForward)"

record ref_update =
  ru_ref_name :: string
  ru_kind :: update_kind
  ru_old_oid :: string
  ru_new_oid :: string

section \<open>Protection rules\<close>

record protection_rule =
  pr_pattern :: ref_pattern
  pr_push_role :: "member_role option"
  pr_no_force_push :: bool
  pr_no_delete :: bool
  pr_require_patch :: bool

datatype rule_parse_error =
  TooFewValues | TooManyRules | InvalidPattern pattern_error | UnknownRule string | InvalidRole string

text \<open>The stricter of an accumulated and a new push role, as both loops compute it.\<close>

definition stricter_role :: "member_role option \<Rightarrow> member_role \<Rightarrow> member_role" where
  "stricter_role acc role =
     (case acc of
        None \<Rightarrow> role
      | Some existing \<Rightarrow> if permission_level role > permission_level existing then role else existing)"

fun parse_rules :: "string list \<Rightarrow> protection_rule \<Rightarrow> string list
    \<Rightarrow> (protection_rule \<times> string list, rule_parse_error) result" where
  "parse_rules [] rule unknown_rules = Ok (rule, unknown_rules)"
| "parse_rules (rule_str # rest) rule unknown_rules =
     (case strip_prefix ''push:'' rule_str of
        Some role_str \<Rightarrow>
          (case role_from_str role_str of
             Inl _ \<Rightarrow> Err (InvalidRole role_str)
           | Inr role \<Rightarrow>
               if role = Bot \<or> role = Guest then Err (InvalidRole role_str)
               else parse_rules rest
                      (rule\<lparr>pr_push_role := Some (stricter_role (pr_push_role rule) role)\<rparr>) unknown_rules)
      | None \<Rightarrow>
          if rule_str = ''no-force-push'' then parse_rules rest (rule\<lparr>pr_no_force_push := True\<rparr>) unknown_rules
          else if rule_str = ''no-delete'' then parse_rules rest (rule\<lparr>pr_no_delete := True\<rparr>) unknown_rules
          else if rule_str = ''require-patch'' then parse_rules rest (rule\<lparr>pr_require_patch := True\<rparr>) unknown_rules
          else parse_rules rest rule (unknown_rules @ [rule_str]))"

definition parse_protection_tag_with_warnings ::
  "string list \<Rightarrow> (protection_rule \<times> string list, rule_parse_error) result" where
  "parse_protection_tag_with_warnings values =
     (case values of
        pat # rules \<Rightarrow>
          if rules = [] then Err TooFewValues
          else (case ref_pattern_parse pat of
                  Inl e \<Rightarrow> Err (InvalidPattern e)
                | Inr pattern \<Rightarrow>
                    parse_rules rules
                      \<lparr>pr_pattern = pattern, pr_push_role = None, pr_no_force_push = False,
                       pr_no_delete = False, pr_require_patch = False\<rparr> [])
      | [] \<Rightarrow> Err TooFewValues)"

definition parse_protection_tag :: "string list \<Rightarrow> (protection_rule, rule_parse_error) result" where
  "parse_protection_tag values =
     and_then (parse_protection_tag_with_warnings values) (\<lambda>(rule, _). Ok rule)"

record parsed_protection =
  pp_rules :: "protection_rule list"
  pp_unknown_rules :: "string list"

fun parse_tags_loop :: "string list list \<Rightarrow> protection_rule list \<Rightarrow> string list
    \<Rightarrow> (parsed_protection, rule_parse_error) result" where
  "parse_tags_loop [] rules unknown_rules = Ok \<lparr>pp_rules = rules, pp_unknown_rules = unknown_rules\<rparr>"
| "parse_tags_loop (tag # tags) rules unknown_rules =
     (if tag = [] \<or> hd tag \<noteq> ''buzz-protect'' then parse_tags_loop tags rules unknown_rules
      else if length rules \<ge> MAX_PROTECTION_RULES then Err TooManyRules
      else and_then (parse_protection_tag_with_warnings (tl tag))
             (\<lambda>(rule, unknowns). parse_tags_loop tags (rules @ [rule]) (unknown_rules @ unknowns)))"

definition parse_protection_tags :: "string list list \<Rightarrow> (parsed_protection, rule_parse_error) result" where
  "parse_protection_tags tags = parse_tags_loop tags [] []"

section \<open>Evaluation\<close>

definition default_min_role :: "string \<Rightarrow> update_kind \<Rightarrow> member_role" where
  "default_min_role ref_name kind =
     (let is_branch = prefix ''refs/heads/'' ref_name; is_tag = prefix ''refs/tags/'' ref_name
      in case kind of
           Create \<Rightarrow> if is_branch \<or> is_tag then Member else Admin
         | FastForward \<Rightarrow> if is_branch then Member else if is_tag then Admin else Admin
         | NonFastForward \<Rightarrow> Admin
         | Delete \<Rightarrow> Admin)"

record effective_rules =
  er_push_role :: "member_role option"
  er_no_force_push :: bool
  er_no_delete :: bool
  er_require_patch :: bool
  er_has_explicit_match :: bool

fun for_ref_loop :: "string \<Rightarrow> protection_rule list \<Rightarrow> effective_rules \<Rightarrow> effective_rules option" where
  "for_ref_loop ref_name [] acc = Some acc"
| "for_ref_loop ref_name (rule # rules) acc =
     (case pattern_matches (pr_pattern rule) ref_name of
        None \<Rightarrow> None
      | Some False \<Rightarrow> for_ref_loop ref_name rules acc
      | Some True \<Rightarrow>
          for_ref_loop ref_name rules
            \<lparr>er_push_role = (case pr_push_role rule of
                 Some role \<Rightarrow> Some (stricter_role (er_push_role acc) role)
               | None \<Rightarrow> er_push_role acc),
             er_no_force_push = (er_no_force_push acc \<or> pr_no_force_push rule),
             er_no_delete = (er_no_delete acc \<or> pr_no_delete rule),
             er_require_patch = (er_require_patch acc \<or> pr_require_patch rule),
             er_has_explicit_match = True\<rparr>)"

definition effective_for_ref :: "string \<Rightarrow> protection_rule list \<Rightarrow> effective_rules option" where
  "effective_for_ref ref_name rules =
     for_ref_loop ref_name rules
       \<lparr>er_push_role = None, er_no_force_push = False, er_no_delete = False, er_require_patch = False,
        er_has_explicit_match = False\<rparr>"

record denial =
  dn_ref_name :: string
  dn_reason :: string

definition evaluate_effective :: "ref_update \<Rightarrow> member_role \<Rightarrow> effective_rules \<Rightarrow> (unit, denial) result" where
  "evaluate_effective update role effective =
     (let deny = (\<lambda>reason. Err \<lparr>dn_ref_name = ru_ref_name update, dn_reason = reason\<rparr>);
          default_role = default_min_role (ru_ref_name update) (ru_kind update)
      in if \<not> er_has_explicit_match effective then
           (if \<not> has_at_least role default_role then
              deny (''requires '' @ role_as_str default_role @ '' role (you have '' @ role_as_str role @
                    ''), using built-in defaults'')
            else Ok ())
         else if er_require_patch effective then
           deny ''direct push denied: require-patch is set, submit a NIP-34 patch''
         else
           (let min_role = (case er_push_role effective of
                  Some explicit \<Rightarrow>
                    if permission_level explicit \<ge> permission_level default_role then explicit else default_role
                | None \<Rightarrow> default_role)
            in if \<not> has_at_least role min_role then
                 deny (''requires '' @ role_as_str min_role @ '' role (you have '' @ role_as_str role @ '')'')
               else if er_no_force_push effective \<and> ru_kind update = NonFastForward then
                 deny ''non-fast-forward update denied: no-force-push is set''
               else if er_no_delete effective \<and> ru_kind update = Delete then
                 deny ''ref deletion denied: no-delete is set''
               else Ok ()))"

definition evaluate_ref_update ::
  "ref_update \<Rightarrow> member_role \<Rightarrow> protection_rule list \<Rightarrow> (unit, denial) result option" where
  "evaluate_ref_update update role rules =
     map_option (evaluate_effective update role) (effective_for_ref (ru_ref_name update) rules)"

fun collect_denials ::
  "ref_update list \<Rightarrow> member_role \<Rightarrow> protection_rule list \<Rightarrow> denial list option" where
  "collect_denials [] role rules = Some []"
| "collect_denials (update # updates) role rules =
     (case evaluate_ref_update update role rules of
        None \<Rightarrow> None
      | Some r \<Rightarrow>
          (case collect_denials updates role rules of
             None \<Rightarrow> None
           | Some ds \<Rightarrow> Some (case r of Inl d \<Rightarrow> d # ds | Inr _ \<Rightarrow> ds)))"

definition evaluate_push ::
  "ref_update list \<Rightarrow> member_role \<Rightarrow> protection_rule list \<Rightarrow> (unit, denial list) result option" where
  "evaluate_push updates role rules =
     map_option (\<lambda>denials. if denials = [] then Ok () else Err denials) (collect_denials updates role rules)"

section \<open>Patterns: what parsing and matching mean\<close>

text \<open>A ref's parts against the segments, as the documentation tells it.\<close>

fun seg_spec :: "pattern_segment list \<Rightarrow> string list \<Rightarrow> bool" where
  "seg_spec [] [] = True"
| "seg_spec [RecursiveWildcard] (x # xs) = True"
| "seg_spec (Wildcard # ps) (x # xs) = seg_spec ps xs"
| "seg_spec (Literal l # ps) (x # xs) = (l = x \<and> seg_spec ps xs)"
| "seg_spec _ _ = False"

fun print_seg :: "pattern_segment \<Rightarrow> string" where
  "print_seg (Literal l) = l"
| "print_seg Wildcard = ''*''"
| "print_seg RecursiveWildcard = ''**''"

definition is_wild :: "pattern_segment \<Rightarrow> bool" where
  "is_wild s \<longleftrightarrow> (case s of Literal _ \<Rightarrow> False | _ \<Rightarrow> True)"

definition wf_segments :: "pattern_segment list \<Rightarrow> bool" where
  "wf_segments segs \<longleftrightarrow> list_all (\<lambda>s. s \<noteq> RecursiveWildcard) (butlast segs)"

text \<open>The segment a part stands for, when it is well formed.\<close>

definition seg_of :: "string \<Rightarrow> pattern_segment option" where
  "seg_of part =
     (if part = ''**'' then Some RecursiveWildcard else if part = ''*'' then Some Wildcard
      else if part \<noteq> [] \<and> list_all literal_char part then Some (Literal part) else None)"

lemma literal_char_no_glob:
  "\<not> literal_char CHR ''*'' \<and> \<not> literal_char CHR ''?'' \<and> \<not> literal_char CHR ''['' \<and> \<not> literal_char CHR '']''"
  by (simp add: literal_char_def is_ascii_alphanumeric_def)

lemma seg_of_Literal:
  "seg_of part = Some (Literal l) \<longleftrightarrow> l = part \<and> part \<noteq> ''**'' \<and> part \<noteq> ''*'' \<and> part \<noteq> [] \<and> list_all literal_char part"
  by (auto simp: seg_of_def)

lemma print_seg_of: "seg_of part = Some s \<Longrightarrow> print_seg s = part"
  by (auto simp: seg_of_def split: if_splits)

text \<open>The loop accepts exactly the part lists that read as a well-formed segment list.\<close>


lemma wf_segments_Cons:
  "wf_segments (s # segs) \<longleftrightarrow> wf_segments segs \<and> (segs = [] \<or> s \<noteq> RecursiveWildcard)"
  by (auto simp: wf_segments_def)

lemma parse_parts_Cons:
  "parse_parts (part # rest) n segs =
     (case seg_of part of
        None \<Rightarrow> Err (InvalidSegment part)
      | Some s \<Rightarrow>
          if s = RecursiveWildcard \<and> rest \<noteq> [] then Err (InvalidSegment ''** must be the last segment'')
          else if is_wild s \<and> n + 1 > MAX_WILDCARDS_PER_PATTERN then Err TooManyWildcards
          else parse_parts rest (if is_wild s then n + 1 else n) (segs @ [s]))"
proof -
  have "\<not> list_all literal_char part" if "CHR ''*'' \<in> set part \<or> CHR ''?'' \<in> set part \<or> CHR ''['' \<in> set part \<or> CHR '']'' \<in> set part"
    using that literal_char_no_glob by (auto simp: list_all_iff)
  then show ?thesis by (auto simp: seg_of_def is_wild_def)
qed

lemma parse_parts_Ok:
  assumes "n \<le> MAX_WILDCARDS_PER_PATTERN"
  shows "parse_parts parts n segs = Ok segs' \<longleftrightarrow>
     (\<exists>new. segs' = segs @ new \<and> map seg_of parts = map Some new \<and> wf_segments new \<and>
        n + length (filter is_wild new) \<le> MAX_WILDCARDS_PER_PATTERN)"
  using assms
proof (induction parts arbitrary: n segs)
  case Nil
  then show ?case by (auto simp: wf_segments_def)
next
  case (Cons part rest)
  show ?case
  proof (cases "seg_of part")
    case None
    then show ?thesis by (auto simp: parse_parts_Cons simp del: parse_parts.simps)
  next
    case (Some s)
    have split: "(\<exists>new. segs' = segs @ new \<and> map seg_of (part # rest) = map Some new \<and> wf_segments new \<and>
          n + length (filter is_wild new) \<le> MAX_WILDCARDS_PER_PATTERN) \<longleftrightarrow>
        (\<exists>new. segs' = (segs @ [s]) @ new \<and> map seg_of rest = map Some new \<and> wf_segments new \<and>
          (rest = [] \<or> s \<noteq> RecursiveWildcard) \<and>
          (if is_wild s then n + 1 else n) + length (filter is_wild new) \<le> MAX_WILDCARDS_PER_PATTERN)"
      (is "(\<exists>new. ?P new) \<longleftrightarrow> (\<exists>new. ?Q new)")
    proof -
      have "?P new \<longleftrightarrow> (\<exists>new'. new = s # new' \<and> ?Q new')" for new
        using Some by (cases new) (auto simp: wf_segments_Cons)
      then show ?thesis by blast
    qed
    show ?thesis
      unfolding split using Some Cons.prems
      by (auto simp: parse_parts_Cons Cons.IH simp del: parse_parts.simps)
  qed
qed

lemma ref_pattern_parse_Ok:
  "ref_pattern_parse s = Ok p \<longleftrightarrow>
     length s \<le> MAX_PATTERN_LENGTH \<and> prefix ''refs/'' s \<and> rp_raw p = s \<and>
     map seg_of (split_on CHR ''/'' s) = map Some (rp_segments p) \<and> wf_segments (rp_segments p) \<and>
     length (filter is_wild (rp_segments p)) \<le> MAX_WILDCARDS_PER_PATTERN"
  by (cases p) (auto simp: ref_pattern_parse_def and_then_Inr parse_parts_Ok)

lemma map_seg_of_print: "map seg_of parts = map Some segs \<Longrightarrow> map print_seg segs = parts"
  by (induction parts arbitrary: segs) (auto simp: print_seg_of)

lemma match_all_spec:
  "list_all (\<lambda>s. s \<noteq> RecursiveWildcard) segs \<Longrightarrow> length parts = length segs \<Longrightarrow>
     match_all (zip segs parts) = Some (seg_spec segs parts)"
proof (induction segs arbitrary: parts)
  case Nil
  then show ?case by simp
next
  case (Cons s segs)
  then obtain x xs where "parts = x # xs" by (cases parts) auto
  with Cons show ?case by (cases s) auto
qed

lemma seg_spec_length:
  "list_all (\<lambda>s. s \<noteq> RecursiveWildcard) segs \<Longrightarrow> seg_spec segs parts \<Longrightarrow> length parts = length segs"
  by (induction segs parts rule: seg_spec.induct) auto

lemma seg_spec_snoc:
  "list_all (\<lambda>s. s \<noteq> RecursiveWildcard) segs \<Longrightarrow>
     seg_spec (segs @ [RecursiveWildcard]) parts \<longleftrightarrow>
       length segs < length parts \<and> seg_spec segs (take (length segs) parts)"
proof (induction segs arbitrary: parts)
  case Nil
  then show ?case by (cases parts) auto
next
  case (Cons s segs)
  then show ?case by (cases s; cases parts; cases segs) auto
qed

lemma pattern_matches_spec:
  assumes "wf_segments (rp_segments p)"
  shows "pattern_matches p r = Some (seg_spec (rp_segments p) (split_on CHR ''/'' r))"
proof (cases "rp_segments p \<noteq> [] \<and> last (rp_segments p) = RecursiveWildcard")
  case True
  then have segs: "rp_segments p = butlast (rp_segments p) @ [RecursiveWildcard]" by (metis append_butlast_last_id)
  let ?b = "butlast (rp_segments p)" and ?r = "split_on CHR ''/'' r"
  have wf: "list_all (\<lambda>s. s \<noteq> RecursiveWildcard) ?b" using assms by (simp add: wf_segments_def)
  have "pattern_matches p r = (if length ?r \<le> length ?b then Some False
      else match_all (zip ?b (take (length ?b) ?r)))"
    using True by (simp add: pattern_matches_def Let_def butlast_conv_take)
  also have "\<dots> = Some (seg_spec (?b @ [RecursiveWildcard]) ?r)"
    by (simp add: match_all_spec [OF wf] seg_spec_snoc [OF wf])
  finally show ?thesis using segs by simp
next
  case False
  then have "list_all (\<lambda>s. s \<noteq> RecursiveWildcard) (rp_segments p)"
    using assms by (cases "rp_segments p" rule: rev_cases) (auto simp: wf_segments_def)
  note nr = this
  have "pattern_matches p r = (if length (split_on CHR ''/'' r) \<noteq> length (rp_segments p) then Some False
      else match_all (zip (rp_segments p) (split_on CHR ''/'' r)))"
    using False by (auto simp: pattern_matches_def Let_def)
  then show ?thesis using match_all_spec [OF nr] seg_spec_length [OF nr] by auto
qed

section \<open>Rules: what evaluation means\<close>

definition wf_rule :: "protection_rule \<Rightarrow> bool" where
  "wf_rule rule \<longleftrightarrow> wf_segments (rp_segments (pr_pattern rule))"

definition applies :: "protection_rule \<Rightarrow> string \<Rightarrow> bool" where
  "applies rule r \<longleftrightarrow> seg_spec (rp_segments (pr_pattern rule)) (split_on CHR ''/'' r)"

text \<open>The push is within what one rule demands of it.\<close>

definition rule_permits :: "protection_rule \<Rightarrow> ref_update \<Rightarrow> member_role \<Rightarrow> bool" where
  "rule_permits rule u role \<longleftrightarrow> \<not> pr_require_patch rule \<and>
     (case pr_push_role rule of None \<Rightarrow> True | Some r \<Rightarrow> r \<le> role) \<and>
     \<not> (pr_no_force_push rule \<and> ru_kind u = NonFastForward) \<and> \<not> (pr_no_delete rule \<and> ru_kind u = Delete)"

definition effective_permits :: "effective_rules \<Rightarrow> ref_update \<Rightarrow> member_role \<Rightarrow> bool" where
  "effective_permits e u role \<longleftrightarrow> \<not> er_require_patch e \<and>
     (case er_push_role e of None \<Rightarrow> True | Some r \<Rightarrow> r \<le> role) \<and>
     \<not> (er_no_force_push e \<and> ru_kind u = NonFastForward) \<and> \<not> (er_no_delete e \<and> ru_kind u = Delete)"

lemma stricter_role_le: "stricter_role acc role \<le> r \<longleftrightarrow> role \<le> r \<and> (case acc of None \<Rightarrow> True | Some x \<Rightarrow> x \<le> r)"
  by (auto simp: stricter_role_def less_eq_member_role_def split: option.split)

lemma for_ref_loop_spec:
  assumes "list_all wf_rule rules"
  shows "\<exists>e. for_ref_loop r rules acc = Some e \<and>
    (er_has_explicit_match e \<longleftrightarrow> er_has_explicit_match acc \<or> (\<exists>rule\<in>set rules. applies rule r)) \<and>
    (effective_permits e u role \<longleftrightarrow>
       effective_permits acc u role \<and> (\<forall>rule\<in>set rules. applies rule r \<longrightarrow> rule_permits rule u role))"
  using assms
proof (induction rules arbitrary: acc)
  case Nil
  then show ?case by simp
next
  case (Cons rule rules)
  have m: "pattern_matches (pr_pattern rule) r = Some (applies rule r)"
    using Cons.prems by (simp add: wf_rule_def applies_def pattern_matches_spec)
  show ?case
  proof (cases "applies rule r")
    case False
    with Cons m show ?thesis by auto
  next
    case True
    define acc' where "acc' = \<lparr>er_push_role = (case pr_push_role rule of
                 Some role \<Rightarrow> Some (stricter_role (er_push_role acc) role)
               | None \<Rightarrow> er_push_role acc),
             er_no_force_push = (er_no_force_push acc \<or> pr_no_force_push rule),
             er_no_delete = (er_no_delete acc \<or> pr_no_delete rule),
             er_require_patch = (er_require_patch acc \<or> pr_require_patch rule),
             er_has_explicit_match = True\<rparr>"
    have loop: "for_ref_loop r (rule # rules) acc = for_ref_loop r rules acc'"
      using m True by (simp add: acc'_def)
    have perm: "effective_permits acc' u role \<longleftrightarrow> effective_permits acc u role \<and> rule_permits rule u role"
      by (auto simp: acc'_def effective_permits_def rule_permits_def stricter_role_le split: option.splits)
    have expl: "er_has_explicit_match acc'" by (simp add: acc'_def)
    from Cons.IH [of acc'] Cons.prems obtain e where "for_ref_loop r rules acc' = Some e"
      "er_has_explicit_match e"
      "effective_permits e u role \<longleftrightarrow>
         effective_permits acc' u role \<and> (\<forall>rule\<in>set rules. applies rule r \<longrightarrow> rule_permits rule u role)"
      using expl by auto
    with loop perm True show ?thesis by auto
  qed
qed

lemma evaluate_effective_ok:
  "is_ok (evaluate_effective u role e) \<longleftrightarrow>
     default_min_role (ru_ref_name u) (ru_kind u) \<le> role \<and> (er_has_explicit_match e \<longrightarrow> effective_permits e u role)"
  by (auto simp: evaluate_effective_def effective_permits_def Let_def has_at_least_le less_eq_member_role_def
      split: option.splits)

lemma evaluate_ref_update_ok:
  assumes "list_all wf_rule rules"
  shows "\<exists>res. evaluate_ref_update u role rules = Some res \<and>
    (is_ok res \<longleftrightarrow> default_min_role (ru_ref_name u) (ru_kind u) \<le> role \<and>
      (\<forall>rule\<in>set rules. applies rule (ru_ref_name u) \<longrightarrow> rule_permits rule u role))"
proof -
  let ?none = "\<lparr>er_push_role = None, er_no_force_push = False, er_no_delete = False, er_require_patch = False,
        er_has_explicit_match = False\<rparr>"
  have none: "effective_permits ?none u role" by (simp add: effective_permits_def)
  from for_ref_loop_spec [OF assms, of "ru_ref_name u" ?none u role] none obtain e where
    "effective_for_ref (ru_ref_name u) rules = Some e"
    "er_has_explicit_match e \<longleftrightarrow> (\<exists>rule\<in>set rules. applies rule (ru_ref_name u))"
    "effective_permits e u role \<longleftrightarrow> (\<forall>rule\<in>set rules. applies rule (ru_ref_name u) \<longrightarrow> rule_permits rule u role)"
    by (auto simp: effective_for_ref_def)
  then show ?thesis by (auto simp: evaluate_ref_update_def evaluate_effective_ok)
qed

text \<open>What parsing guarantees of a rule.\<close>

definition parsed_rule :: "protection_rule \<Rightarrow> bool" where
  "parsed_rule rule \<longleftrightarrow> wf_rule rule \<and> pr_push_role rule \<notin> {Some Bot, Some Guest}"

lemma stricter_role_cases: "stricter_role acc role = role \<or> Some (stricter_role acc role) = acc"
  by (auto simp: stricter_role_def split: option.split)

lemma parse_rules_parsed:
  "parse_rules vals rule unk = Ok (rule', unk') \<Longrightarrow> parsed_rule rule \<Longrightarrow> parsed_rule rule'"
proof (induction vals rule unk rule: parse_rules.induct)
  case (1 rule unk)
  then show ?case by simp
next
  case (2 v vs rule unk)
  have "parsed_rule (rule\<lparr>pr_push_role := Some (stricter_role (pr_push_role rule) role)\<rparr>)"
    if "role \<noteq> Bot" "role \<noteq> Guest" for role
    using "2.prems"(2) that stricter_role_cases [of "pr_push_role rule" role] by (auto simp: parsed_rule_def wf_rule_def)
  moreover have "parsed_rule (rule\<lparr>pr_no_force_push := True\<rparr>)" "parsed_rule (rule\<lparr>pr_no_delete := True\<rparr>)"
    "parsed_rule (rule\<lparr>pr_require_patch := True\<rparr>)"
    using "2.prems"(2) by (simp_all add: parsed_rule_def wf_rule_def)
  ultimately show ?case
    using 2 by (auto split: option.splits sum.splits if_splits)
qed

lemma parse_tag_parsed:
  "parse_protection_tag_with_warnings vals = Ok (rule, unk) \<Longrightarrow> parsed_rule rule"
  by (auto simp: parse_protection_tag_with_warnings_def ref_pattern_parse_Ok parsed_rule_def wf_rule_def
      split: list.splits if_splits sum.splits dest!: parse_rules_parsed)

lemma parse_tags_loop_parsed:
  "parse_tags_loop tags rules unk = Ok pp \<Longrightarrow> list_all parsed_rule rules \<Longrightarrow>
     length rules \<le> MAX_PROTECTION_RULES \<Longrightarrow>
     list_all parsed_rule (pp_rules pp) \<and> length (pp_rules pp) \<le> MAX_PROTECTION_RULES"
proof (induction tags arbitrary: rules unk)
  case Nil
  then show ?case by auto
next
  case (Cons tag tags)
  then show ?case
    by (auto simp: and_then_Inr dest!: parse_tag_parsed split: if_splits)
qed

lemma parse_protection_tags_parsed:
  "parse_protection_tags tags = Ok pp \<Longrightarrow>
     list_all parsed_rule (pp_rules pp) \<and> length (pp_rules pp) \<le> MAX_PROTECTION_RULES"
  unfolding parse_protection_tags_def by (rule parse_tags_loop_parsed) auto

lemma parsed_rules_wf: "list_all parsed_rule rules \<Longrightarrow> list_all wf_rule rules"
  by (auto simp: list_all_iff parsed_rule_def)

lemma collect_denials_spec:
  assumes "list_all wf_rule rules"
  shows "collect_denials us role rules =
    Some (concat (map (\<lambda>u. case the (evaluate_ref_update u role rules) of Inl d \<Rightarrow> [d] | Inr _ \<Rightarrow> []) us))"
proof (induction us)
  case Nil
  then show ?case by simp
next
  case (Cons u us)
  from evaluate_ref_update_ok [OF assms, of u role] obtain res where
    "evaluate_ref_update u role rules = Some res" by blast
  with Cons show ?case by (auto split: sum.split)
qed

section \<open>Properties\<close>

text \<open>
  The pattern parser accepts exactly the documented grammar: at most 256 bytes, starting
  with \<open>refs/\<close>, every part \<open>*\<close>, a final \<open>**\<close> or a literal over the allowed
  characters, at most three wildcards; the segments of an accepted pattern print back to
  its text.
\<close>

theorem pattern_parse_exact:
  "(ref_pattern_parse s = Ok p \<longleftrightarrow>
      length s \<le> 256 \<and> prefix ''refs/'' s \<and> rp_raw p = s \<and>
      map seg_of (split_on CHR ''/'' s) = map Some (rp_segments p) \<and>
      RecursiveWildcard \<notin> set (butlast (rp_segments p)) \<and> length (filter is_wild (rp_segments p)) \<le> 3) \<and>
   (case ref_pattern_parse s of
      Inl _ \<Rightarrow> True | Inr q \<Rightarrow> join_with CHR ''/'' (map print_seg (rp_segments q)) = s)"
proof -
  have "wf_segments segs \<longleftrightarrow> RecursiveWildcard \<notin> set (butlast segs)" for segs
    by (auto simp: wf_segments_def list_all_iff)
  moreover have "join_with CHR ''/'' (map print_seg (rp_segments q)) = s" if "ref_pattern_parse s = Ok q" for q
    using that by (auto simp: ref_pattern_parse_Ok dest!: map_seg_of_print simp: join_split)
  ultimately show ?thesis
    by (auto simp: ref_pattern_parse_Ok MAX_PATTERN_LENGTH_def MAX_WILDCARDS_PER_PATTERN_def split: sum.split)
qed

text \<open>
  C38: A parsed pattern matches segment by segment, \<open>*\<close> one segment and a final \<open>**\<close> one
  or more, and matching never reaches the arm marked unreachable.
\<close>

theorem pattern_match_exact:
  assumes "ref_pattern_parse s = Ok p"
  shows "pattern_matches p r = Some (seg_spec (rp_segments p) (split_on CHR ''/'' r))"
  using assms by (simp add: ref_pattern_parse_Ok pattern_matches_spec)

text \<open>
  C15: The decision on one ref update: with rules that were parsed from tags, it never
  panics, and the update is allowed exactly when the role reaches the built-in default and
  every matching rule permits it (no \<open>require-patch\<close>, role at least its push role, no
  forbidden force push, no forbidden delete).
\<close>

theorem push_decision_exact:
  assumes "parse_protection_tags tags = Ok pp"
  shows "\<exists>res. evaluate_ref_update u role (pp_rules pp) = Some res \<and>
    (is_ok res \<longleftrightarrow> default_min_role (ru_ref_name u) (ru_kind u) \<le> role \<and>
      list_all (\<lambda>rule. applies rule (ru_ref_name u) \<longrightarrow> rule_permits rule u role) (pp_rules pp))"
  using evaluate_ref_update_ok [of "pp_rules pp" u role] parse_protection_tags_parsed [OF assms]
    parsed_rules_wf by (auto simp: list_all_iff)

text \<open>
  protection tags only restrict: a push of a guest or a bot is denied under any parsed
  rules, and every push that parsed rules allow would be allowed with no rules at all.
\<close>

theorem protection_only_restricts:
  assumes "parse_protection_tags tags = Ok pp" "evaluate_ref_update u role (pp_rules pp) = Some (Ok ())"
  shows "evaluate_ref_update u role [] = Some (Ok ()) \<and> role \<notin> {Guest, Bot}"
proof -
  have wf: "list_all wf_rule (pp_rules pp)"
    using parse_protection_tags_parsed [OF assms(1)] parsed_rules_wf by blast
  with assms(2) evaluate_ref_update_ok [OF wf, of u role]
  have le: "default_min_role (ru_ref_name u) (ru_kind u) \<le> role" by auto
  moreover have "Member \<le> default_min_role (ru_ref_name u) (ru_kind u)"
    by (auto simp: default_min_role_def Let_def less_eq_member_role_def split: update_kind.split)
  ultimately have "Member \<le> role" by simp
  then have "role \<notin> {Guest, Bot}" by (auto simp: less_eq_member_role_def word_le_nat_alt)
  moreover obtain res where "evaluate_ref_update u role [] = Some res" "is_ok res"
    using evaluate_ref_update_ok [of "[]" u role] le by auto
  ultimately show ?thesis by (cases res) auto
qed

text \<open>
  A push is atomic: it is accepted exactly when every one of its ref updates is, and the
  denials of a rejected push are those of its rejected updates, in order.
\<close>

theorem push_is_atomic:
  assumes "parse_protection_tags tags = Ok pp"
  shows "evaluate_push us role (pp_rules pp) =
    Some (let ds = concat (map (\<lambda>u. case the (evaluate_ref_update u role (pp_rules pp)) of
                                    Inl d \<Rightarrow> [d] | Inr _ \<Rightarrow> []) us)
          in if ds = [] then Ok () else Err ds) \<and>
    (evaluate_push us role (pp_rules pp) = Some (Ok ()) \<longleftrightarrow>
      list_all (\<lambda>u. evaluate_ref_update u role (pp_rules pp) = Some (Ok ())) us)"
proof -
  have wf: "list_all wf_rule (pp_rules pp)"
    using parse_protection_tags_parsed [OF assms] parsed_rules_wf by blast
  have "evaluate_ref_update u role (pp_rules pp) = Some (Ok ()) \<longleftrightarrow>
      (case the (evaluate_ref_update u role (pp_rules pp)) of Inl d \<Rightarrow> [d] | Inr _ \<Rightarrow> []) = []" for u
    using evaluate_ref_update_ok [OF wf, of u role] by (auto split: sum.splits)
  then show ?thesis
    by (auto simp: evaluate_push_def collect_denials_spec [OF wf] Let_def list_all_iff)
qed

subsection \<open>Concrete tags\<close>

definition sample_tags :: "string list list" where
  "sample_tags = [[''buzz-protect'', ''refs/heads/main'', ''push:admin'', ''no-force-push''],
     [''p'', ''x''], [''buzz-protect'', ''refs/heads/**'', ''no-delete'', ''later'']]"

definition sample_protection :: parsed_protection where
  "sample_protection = \<lparr>pp_rules =
     [\<lparr>pr_pattern = \<lparr>rp_raw = ''refs/heads/main'', rp_segments = [Literal ''refs'', Literal ''heads'', Literal ''main'']\<rparr>,
       pr_push_role = Some Admin, pr_no_force_push = True, pr_no_delete = False, pr_require_patch = False\<rparr>,
      \<lparr>pr_pattern = \<lparr>rp_raw = ''refs/heads/**'', rp_segments = [Literal ''refs'', Literal ''heads'', RecursiveWildcard]\<rparr>,
       pr_push_role = None, pr_no_force_push = False, pr_no_delete = True, pr_require_patch = False\<rparr>],
     pp_unknown_rules = [''later'']\<rparr>"

definition sample_update :: "string \<Rightarrow> update_kind \<Rightarrow> ref_update" where
  "sample_update r k = \<lparr>ru_ref_name = r, ru_kind = k, ru_old_oid = ''a'', ru_new_oid = ''b''\<rparr>"

lemma sample_tags_parse: "parse_protection_tags sample_tags = Ok sample_protection"
  by code_simp

lemma sample_update_ok:
  "evaluate_ref_update (sample_update ''refs/heads/dev'' FastForward) Member (pp_rules sample_protection) = Some (Ok ())"
  by code_simp

theorem pattern_match_exact_witness:
  "pattern_matches \<lparr>rp_raw = ''refs/heads/*'', rp_segments = [Literal ''refs'', Literal ''heads'', Wildcard]\<rparr>
     ''refs/heads/dev'' = Some True"
proof -
  have "ref_pattern_parse ''refs/heads/*'' =
      Ok \<lparr>rp_raw = ''refs/heads/*'', rp_segments = [Literal ''refs'', Literal ''heads'', Wildcard]\<rparr>"
    by code_simp
  from pattern_match_exact [OF this, of "''refs/heads/dev''"] show ?thesis by simp
qed

theorem push_decision_exact_witness:
  "\<exists>res. evaluate_ref_update (sample_update ''refs/heads/main'' FastForward) Member (pp_rules sample_protection)
     = Some res \<and> \<not> is_ok res"
  using push_decision_exact [OF sample_tags_parse, of "sample_update ''refs/heads/main'' FastForward" Member]
  by (auto simp: sample_protection_def sample_update_def applies_def rule_permits_def less_eq_member_role_def)

theorem protection_only_restricts_witness:
  "evaluate_ref_update (sample_update ''refs/heads/dev'' FastForward) Member [] = Some (Ok ())"
  using protection_only_restricts [OF sample_tags_parse sample_update_ok] by simp

theorem push_is_atomic_witness:
  "evaluate_push [sample_update ''refs/heads/dev'' FastForward] Member (pp_rules sample_protection) = Some (Ok ())"
  using push_is_atomic [OF sample_tags_parse, of "[sample_update ''refs/heads/dev'' FastForward]" Member]
  by (simp add: sample_update_ok)

end
