(* ===== verification/Pairing.thy ===== *)
theory Pairing
  imports Kinds
begin

text \<open>
  NIP-AB device pairing (\<open>buzz-core/src/pairing/\<close>: \<open>crypto.rs\<close>, \<open>types.rs\<close>, \<open>mod.rs\<close>,
  \<open>session.rs\<close>): the state machine of one side of a pairing, its key derivations and its
  messages. One definition per method; a method returns its result and the session as it
  leaves it, on the error paths too.

  What the code takes from other crates is the environment record \<open>crypto_env\<close>: HKDF, ECDH,
  NIP-44, the JSON form of a message, hex, event signing and verification. Clock readings and
  random values are arguments. Zeroing memory on drop is not modelled.
\<close>

section \<open>Data\<close>

type_synonym bytes = "u8 list"
type_synonym seckey = string

datatype payload_type = Nsec | Bunker | Connect | Custom

datatype abort_reason = SasMismatch | UserDenied | Timeout | ProtocolError | UnknownReason

datatype pairing_message =
  Offer (pm_session_id: string) (pm_version: u32)
| SasConfirm (pm_transcript_hash: string)
| Payload (pm_payload_type: payload_type) (pm_payload: string)
| Complete (pm_success: bool)
| Abort (pm_reason: abort_reason)

datatype pairing_error =
  InvalidQr string | InvalidSessionId | SasMismatchError | TranscriptMismatch
| UnexpectedMessage string string | SessionExpired | Nip44 string | Json string
| InvalidPubkey string | SigningError string

record crypto_env =
  hkdf_extract :: "bytes \<Rightarrow> bytes \<Rightarrow> bytes"
  hkdf_expand :: "bytes \<Rightarrow> bytes \<Rightarrow> nat \<Rightarrow> bytes"
  public_key :: "seckey \<Rightarrow> pubkey"
  pk_bytes :: "pubkey \<Rightarrow> bytes"
  generate_shared_key :: "seckey \<Rightarrow> pubkey \<Rightarrow> (bytes, string) result"
  nip44_encrypt :: "nat \<Rightarrow> seckey \<Rightarrow> pubkey \<Rightarrow> string \<Rightarrow> (string, string) result"
  nip44_decrypt :: "seckey \<Rightarrow> pubkey \<Rightarrow> string \<Rightarrow> (string, string) result"
  json_to_string :: "pairing_message \<Rightarrow> (string, string) result"
  json_from_str :: "string \<Rightarrow> (pairing_message, string) result"
  hex_encode :: "bytes \<Rightarrow> string"
  hex_decode :: "string \<Rightarrow> bytes option"
  sign_with_keys :: "seckey \<Rightarrow> u16 \<Rightarrow> string \<Rightarrow> pubkey \<Rightarrow> u64 \<Rightarrow> (event, string) result"
  verify :: "event \<Rightarrow> (unit, string) result"

section \<open>Key derivation\<close>

definition ascii :: "string \<Rightarrow> bytes" where
  "ascii s = map (\<lambda>c. of_char c) s"

definition INFO_SESSION_ID :: bytes where "INFO_SESSION_ID = ascii ''nostr-pair-session-id''"
definition INFO_SAS :: bytes where "INFO_SAS = ascii ''nostr-pair-sas-v1''"
definition INFO_TRANSCRIPT :: bytes where "INFO_TRANSCRIPT = ascii ''nostr-pair-transcript-v1''"

definition hkdf32 :: "crypto_env \<Rightarrow> bytes \<Rightarrow> bytes \<Rightarrow> bytes \<Rightarrow> bytes" where
  "hkdf32 E salt ikm info = take 32 (hkdf_expand E (hkdf_extract E salt ikm) info 32)"

definition derive_session_id :: "crypto_env \<Rightarrow> bytes \<Rightarrow> bytes" where
  "derive_session_id E session_secret = hkdf32 E [] session_secret INFO_SESSION_ID"

text \<open>\<open>u32::from_be_bytes\<close> of the first four bytes.\<close>

definition be_u32 :: "bytes \<Rightarrow> u32" where
  "be_u32 bs = fold (\<lambda>b acc. acc * 256 + ucast b) (take 4 bs) 0"

definition derive_sas :: "crypto_env \<Rightarrow> bytes \<Rightarrow> bytes \<Rightarrow> u32 \<times> bytes" where
  "derive_sas E ecdh_shared session_secret =
     (let sas_input = hkdf32 E session_secret ecdh_shared INFO_SAS
      in (be_u32 sas_input mod 1000000, sas_input))"

definition derive_transcript_hash :: "crypto_env \<Rightarrow> bytes \<Rightarrow> bytes \<Rightarrow> bytes \<Rightarrow> bytes \<Rightarrow> bytes \<Rightarrow> bytes" where
  "derive_transcript_hash E session_id source_pubkey target_pubkey sas_input session_secret =
     hkdf32 E session_secret (session_id @ source_pubkey @ target_pubkey @ sas_input) INFO_TRANSCRIPT"

text \<open>\<open>format!("{code:06}")\<close>: decimal digits, padded with zeros to six.\<close>

definition format_sas :: "u32 \<Rightarrow> string" where
  "format_sas code = (let s = show_nat (unat code) in replicate (6 - length s) CHR ''0'' @ s)"

definition ct_eq :: "bytes \<Rightarrow> bytes \<Rightarrow> bool" where
  "ct_eq a b = (a = b)"

section \<open>Session\<close>

definition DEFAULT_TIMEOUT :: nat where "DEFAULT_TIMEOUT = 120 * 1000000000"

definition PAIRING_KIND :: u16 where "PAIRING_KIND = ucast KIND_PAIRING"

datatype pairing_role = Source | Target

datatype session_state =
  Waiting | Confirming | AwaitingConfirmation | Transferring | PayloadExchanged | Completed | Aborted

record pairing_session =
  ps_role :: pairing_role
  ps_state :: session_state
  ps_keys :: seckey
  ps_session_secret :: bytes
  ps_relay_urls :: "string list"
  ps_peer_pubkey :: "pubkey option"
  ps_session_id :: bytes
  ps_sas_code :: "u32 option"
  ps_sas_input :: "bytes option"
  ps_processed_ids :: "event_id set"
  ps_created_at :: nat
  ps_timeout :: nat

record qr_payload =
  qr_source_pubkey :: pubkey
  qr_session_secret :: bytes
  qr_relays :: "string list"
  qr_version :: u32

fun state_debug :: "session_state \<Rightarrow> string" where
  "state_debug Waiting = ''Waiting''"
| "state_debug Confirming = ''Confirming''"
| "state_debug AwaitingConfirmation = ''AwaitingConfirmation''"
| "state_debug Transferring = ''Transferring''"
| "state_debug PayloadExchanged = ''PayloadExchanged''"
| "state_debug Completed = ''Completed''"
| "state_debug Aborted = ''Aborted''"

fun role_debug :: "pairing_role \<Rightarrow> string" where
  "role_debug Source = ''Source''"
| "role_debug Target = ''Target''"

fun message_name :: "pairing_message \<Rightarrow> string" where
  "message_name (Offer _ _) = ''offer''"
| "message_name (SasConfirm _) = ''sas-confirm''"
| "message_name (Payload _ _) = ''payload''"
| "message_name (Complete _) = ''complete''"
| "message_name (Abort _) = ''abort''"

definition unexpected :: "string \<Rightarrow> pairing_message \<Rightarrow> pairing_error" where
  "unexpected expected got = UnexpectedMessage expected (message_name got)"

subsection \<open>Guards\<close>

text \<open>A sequence of checks with \<open>?\<close>: the first error.\<close>

fun first_err :: "(unit, 'e) result list \<Rightarrow> (unit, 'e) result" where
  "first_err [] = Ok ()"
| "first_err (c # cs) = and_then c (\<lambda>_. first_err cs)"

definition is_expired :: "nat \<Rightarrow> pairing_session \<Rightarrow> bool" where
  "is_expired now s = (now - ps_created_at s > ps_timeout s)"

definition check_expired :: "nat \<Rightarrow> pairing_session \<Rightarrow> (unit, pairing_error) result" where
  "check_expired now s = (if is_expired now s then Err SessionExpired else Ok ())"

definition expect_state :: "session_state \<Rightarrow> pairing_session \<Rightarrow> (unit, pairing_error) result" where
  "expect_state expected s =
     (if ps_state s \<noteq> expected
      then Err (UnexpectedMessage (''state '' @ state_debug expected) (''state '' @ state_debug (ps_state s)))
      else Ok ())"

definition expect_role :: "pairing_role \<Rightarrow> pairing_session \<Rightarrow> (unit, pairing_error) result" where
  "expect_role expected s =
     (if ps_role s \<noteq> expected
      then Err (UnexpectedMessage (''role '' @ role_debug expected) (''role '' @ role_debug (ps_role s)))
      else Ok ())"

definition names_us :: "pubkey \<Rightarrow> tag \<Rightarrow> bool" where
  "names_us our_pk t =
     (case tag_slice t of a # b # _ \<Rightarrow> a = ''p'' \<and> b = our_pk | _ \<Rightarrow> False)"

definition validate_event_basics ::
  "crypto_env \<Rightarrow> event \<Rightarrow> pairing_session \<Rightarrow> (unit, pairing_error) result" where
  "validate_event_basics E ev s =
     (case verify E ev of
        Inl e \<Rightarrow> Err (InvalidPubkey (''event verification failed: '' @ e))
      | Inr _ \<Rightarrow>
          if ev_id ev \<in> ps_processed_ids s then Err (UnexpectedMessage ''new event'' ''duplicate event id'')
          else if ev_kind ev \<noteq> PAIRING_KIND then
            Err (UnexpectedMessage (''kind '' @ show_nat (unat PAIRING_KIND)) (''kind '' @ show_nat (unat (ev_kind ev))))
          else if \<not> list_ex (names_us (public_key E (ps_keys s))) (ev_tags ev) then
            Err (InvalidPubkey ''event p-tag does not match our ephemeral pubkey'')
          else Ok ())"

definition validate_event_from_peer ::
  "crypto_env \<Rightarrow> event \<Rightarrow> pairing_session \<Rightarrow> (unit, pairing_error) result" where
  "validate_event_from_peer E ev s =
     and_then (validate_event_basics E ev s) (\<lambda>_.
       case ps_peer_pubkey s of
         Some expected \<Rightarrow>
           if ev_pubkey ev \<noteq> expected
           then Err (InvalidPubkey (''event from '' @ ev_pubkey ev @ '' but expected '' @ expected))
           else Ok ()
       | None \<Rightarrow> Ok ())"

definition record_event :: "event \<Rightarrow> pairing_session \<Rightarrow> pairing_session" where
  "record_event ev s = s\<lparr>ps_processed_ids := insert (ev_id ev) (ps_processed_ids s)\<rparr>"

text \<open>The en dash and the less-or-equal sign of two error texts, in UTF-8.\<close>

definition en_dash :: string where "en_dash = map char_of [226, 128, 147 :: nat]"
definition le_sign :: string where "le_sign = map char_of [226, 137, 164 :: nat]"

text \<open>
  The second length check reports the length of the string it has just zeroed, which is
  empty.
\<close>

definition decrypt_message :: "crypto_env \<Rightarrow> event \<Rightarrow> pairing_session \<Rightarrow> (pairing_message, pairing_error) result" where
  "decrypt_message E ev s =
     (let content_len = length (ev_content ev)
      in if \<not> (132 \<le> content_len \<and> content_len \<le> 87472) then
           Err (UnexpectedMessage (''NIP-44 content (132'' @ en_dash @ ''87472 chars)'') (show_nat content_len @ '' chars''))
         else (case nip44_decrypt E (ps_keys s) (ev_pubkey ev) (ev_content ev) of
                 Inl e \<Rightarrow> Err (Nip44 e)
               | Inr decrypted \<Rightarrow>
                   if length decrypted > 65535 then
                     Err (UnexpectedMessage (''plaintext '' @ le_sign @ '' 65535 bytes'') (show_nat 0 @ '' bytes''))
                   else (case json_from_str E decrypted of Inl e \<Rightarrow> Err (Json e) | Inr m \<Rightarrow> Ok m)))"

subsection \<open>Building events\<close>

text \<open>The randomness of one event: the NIP-44 nonce, the wall clock and the jitter source.\<close>

record event_rand =
  er_nonce :: nat
  er_now :: u64
  er_jitter :: u64

definition jittered :: "event_rand \<Rightarrow> u64" where
  "jittered R = (let jitter = er_jitter R mod 31 in if jitter \<le> er_now R then er_now R - jitter else 0)"

definition build_event :: "crypto_env \<Rightarrow> event_rand \<Rightarrow> pairing_message \<Rightarrow> pairing_session \<Rightarrow> (event, pairing_error) result" where
  "build_event E R message s =
     (case ps_peer_pubkey s of
        None \<Rightarrow> Err (InvalidPubkey ''no peer pubkey set'')
      | Some peer \<Rightarrow>
          (case json_to_string E message of
             Inl e \<Rightarrow> Err (Json e)
           | Inr plaintext \<Rightarrow>
               (case nip44_encrypt E (er_nonce R) (ps_keys s) peer plaintext of
                  Inl e \<Rightarrow> Err (Nip44 e)
                | Inr encrypted \<Rightarrow>
                    (case sign_with_keys E (ps_keys s) PAIRING_KIND encrypted peer (jittered R) of
                       Inl e \<Rightarrow> Err (SigningError e)
                     | Inr ev \<Rightarrow> Ok ev))))"

subsection \<open>Construction\<close>

definition new_source :: "crypto_env \<Rightarrow> seckey \<Rightarrow> bytes \<Rightarrow> nat \<Rightarrow> string \<Rightarrow> pairing_session \<times> qr_payload" where
  "new_source E keys secret now relay_url =
     (\<lparr>ps_role = Source, ps_state = Waiting, ps_keys = keys, ps_session_secret = secret,
       ps_relay_urls = [relay_url], ps_peer_pubkey = None, ps_session_id = derive_session_id E secret,
       ps_sas_code = None, ps_sas_input = None, ps_processed_ids = {}, ps_created_at = now,
       ps_timeout = DEFAULT_TIMEOUT\<rparr>,
      \<lparr>qr_source_pubkey = public_key E keys, qr_session_secret = secret, qr_relays = [relay_url], qr_version = 1\<rparr>)"

definition new_target ::
  "crypto_env \<Rightarrow> event_rand \<Rightarrow> seckey \<Rightarrow> nat \<Rightarrow> qr_payload \<Rightarrow> (pairing_session \<times> event, pairing_error) result" where
  "new_target E R keys now qr =
     (let session_id = derive_session_id E (qr_session_secret qr)
      in case generate_shared_key E keys (qr_source_pubkey qr) of
           Inl e \<Rightarrow> Err (SigningError e)
         | Inr ecdh \<Rightarrow>
             (let (code, sas_input) = derive_sas E ecdh (qr_session_secret qr);
                  session = \<lparr>ps_role = Target, ps_state = Waiting, ps_keys = keys,
                    ps_session_secret = qr_session_secret qr, ps_relay_urls = qr_relays qr,
                    ps_peer_pubkey = Some (qr_source_pubkey qr), ps_session_id = session_id,
                    ps_sas_code = Some code, ps_sas_input = Some sas_input, ps_processed_ids = {},
                    ps_created_at = now, ps_timeout = DEFAULT_TIMEOUT\<rparr>
              in and_then (build_event E R (Offer (hex_encode E session_id) 1) session)
                   (\<lambda>ev. Ok (session\<lparr>ps_state := Confirming\<rparr>, ev))))"

text \<open>\<open>hex::decode(..).ok().and_then(<[u8; 32]>::try_from)\<close>\<close>

definition decode32 :: "crypto_env \<Rightarrow> string \<Rightarrow> bytes option" where
  "decode32 E h = (case hex_decode E h of Some b \<Rightarrow> (if length b = 32 then Some b else None) | None \<Rightarrow> None)"

subsection \<open>Source side\<close>

definition handle_offer ::
  "crypto_env \<Rightarrow> nat \<Rightarrow> event \<Rightarrow> pairing_session \<Rightarrow> (string, pairing_error) result \<times> pairing_session" where
  "handle_offer E now ev s =
     (case and_then (first_err [check_expired now s, expect_state Waiting s, expect_role Source s,
                                validate_event_basics E ev s])
                    (\<lambda>_. decrypt_message E ev s) of
        Inl e \<Rightarrow> (Err e, s)
      | Inr msg \<Rightarrow>
          (case msg of
             Offer session_id_hex version \<Rightarrow>
               if version \<noteq> 1 then
                 (Err (UnexpectedMessage ''version 1'' (''version '' @ show_nat (unat version))), s)
               else if (case decode32 E session_id_hex of
                          Some received \<Rightarrow> \<not> ct_eq received (ps_session_id s) | None \<Rightarrow> True)
               then (Err InvalidSessionId, s)
               else
                 (let peer = ev_pubkey ev; s1 = s\<lparr>ps_peer_pubkey := Some peer\<rparr>
                  in case generate_shared_key E (ps_keys s) peer of
                       Inl e \<Rightarrow> (Err (SigningError e), s1)
                     | Inr ecdh \<Rightarrow>
                         (let (code, sas_input) = derive_sas E ecdh (ps_session_secret s)
                          in (Ok (format_sas code),
                              record_event ev (s1\<lparr>ps_sas_code := Some code, ps_sas_input := Some sas_input,
                                                  ps_state := Confirming\<rparr>))))
           | other \<Rightarrow> (Err (unexpected ''offer'' other), s)))"

definition confirm_sas ::
  "crypto_env \<Rightarrow> event_rand \<Rightarrow> nat \<Rightarrow> pairing_session \<Rightarrow> (event, pairing_error) result \<times> pairing_session" where
  "confirm_sas E R now s =
     (case first_err [check_expired now s, expect_state Confirming s, expect_role Source s] of
        Inl e \<Rightarrow> (Err e, s)
      | Inr _ \<Rightarrow>
          (case ps_sas_input s of
             None \<Rightarrow> (Err SasMismatchError, s)
           | Some sas_input \<Rightarrow>
               (case ps_peer_pubkey s of
                  None \<Rightarrow> (Err (InvalidPubkey ''no peer''), s)
                | Some peer \<Rightarrow>
                    (let transcript_hash = derive_transcript_hash E (ps_session_id s)
                           (pk_bytes E (public_key E (ps_keys s))) (pk_bytes E peer) sas_input (ps_session_secret s)
                     in case build_event E R (SasConfirm (hex_encode E transcript_hash)) s of
                          Inl e \<Rightarrow> (Err e, s)
                        | Inr ev \<Rightarrow> (Ok ev, s\<lparr>ps_state := Transferring\<rparr>)))))"

definition handle_return_payload :: "crypto_env \<Rightarrow> nat \<Rightarrow> event \<Rightarrow> pairing_session
    \<Rightarrow> (payload_type \<times> string, pairing_error) result \<times> pairing_session" where
  "handle_return_payload E now ev s =
     (case and_then (first_err [check_expired now s, expect_state Transferring s, expect_role Source s,
                                validate_event_from_peer E ev s])
                    (\<lambda>_. decrypt_message E ev s) of
        Inl e \<Rightarrow> (Err e, s)
      | Inr (Payload t p) \<Rightarrow> (Ok (t, p), record_event ev (s\<lparr>ps_state := PayloadExchanged\<rparr>))
      | Inr other \<Rightarrow> (Err (unexpected ''payload'' other), s))"

definition send_source_complete ::
  "crypto_env \<Rightarrow> event_rand \<Rightarrow> nat \<Rightarrow> bool \<Rightarrow> pairing_session \<Rightarrow> (event, pairing_error) result \<times> pairing_session" where
  "send_source_complete E R now success s =
     (case first_err [check_expired now s, expect_state PayloadExchanged s, expect_role Source s] of
        Inl e \<Rightarrow> (Err e, s)
      | Inr _ \<Rightarrow>
          (case build_event E R (Complete success) s of
             Inl e \<Rightarrow> (Err e, s)
           | Inr ev \<Rightarrow> (Ok ev, s\<lparr>ps_state := (if success then Completed else Aborted)\<rparr>)))"

definition send_payload :: "crypto_env \<Rightarrow> event_rand \<Rightarrow> nat \<Rightarrow> payload_type \<Rightarrow> string \<Rightarrow> pairing_session
    \<Rightarrow> (event, pairing_error) result \<times> pairing_session" where
  "send_payload E R now t payload s =
     (case first_err [check_expired now s, expect_state Transferring s, expect_role Source s] of
        Inl e \<Rightarrow> (Err e, s)
      | Inr _ \<Rightarrow>
          (case build_event E R (Payload t payload) s of
             Inl e \<Rightarrow> (Err e, s)
           | Inr ev \<Rightarrow> (Ok ev, s\<lparr>ps_state := PayloadExchanged\<rparr>)))"

definition handle_complete ::
  "crypto_env \<Rightarrow> nat \<Rightarrow> event \<Rightarrow> pairing_session \<Rightarrow> (unit, pairing_error) result \<times> pairing_session" where
  "handle_complete E now ev s =
     (case and_then (first_err [check_expired now s, expect_state PayloadExchanged s, expect_role Source s,
                                validate_event_from_peer E ev s])
                    (\<lambda>_. decrypt_message E ev s) of
        Inl e \<Rightarrow> (Err e, s)
      | Inr (Complete success) \<Rightarrow>
          if success then (Ok (), record_event ev (s\<lparr>ps_state := Completed\<rparr>))
          else (Err (UnexpectedMessage ''complete(success=true)'' ''complete(success=false)''), s\<lparr>ps_state := Aborted\<rparr>)
      | Inr other \<Rightarrow> (Err (unexpected ''complete'' other), s))"

subsection \<open>Target side\<close>

definition handle_sas_confirm ::
  "crypto_env \<Rightarrow> nat \<Rightarrow> event \<Rightarrow> pairing_session \<Rightarrow> (string, pairing_error) result \<times> pairing_session" where
  "handle_sas_confirm E now ev s =
     (case and_then (first_err [check_expired now s, expect_state Confirming s, expect_role Target s,
                                validate_event_from_peer E ev s])
                    (\<lambda>_. decrypt_message E ev s) of
        Inl e \<Rightarrow> (Err e, s)
      | Inr (SasConfirm received_hash) \<Rightarrow>
          (case ps_sas_input s of
             None \<Rightarrow> (Err SasMismatchError, s)
           | Some sas_input \<Rightarrow>
               (case ps_peer_pubkey s of
                  None \<Rightarrow> (Err (InvalidPubkey ''no peer''), s)
                | Some peer \<Rightarrow>
                    (let expected_hash = derive_transcript_hash E (ps_session_id s) (pk_bytes E peer)
                           (pk_bytes E (public_key E (ps_keys s))) sas_input (ps_session_secret s);
                         matches = (case decode32 E received_hash of
                                      Some rb \<Rightarrow> ct_eq rb expected_hash | None \<Rightarrow> False)
                     in if \<not> matches then (Err TranscriptMismatch, s\<lparr>ps_state := Aborted\<rparr>)
                        else (let s' = record_event ev (s\<lparr>ps_state := AwaitingConfirmation\<rparr>)
                              in case ps_sas_code s of
                                   None \<Rightarrow> (Err SasMismatchError, s')
                                 | Some code \<Rightarrow> (Ok (format_sas code), s')))))
      | Inr other \<Rightarrow> (Err (unexpected ''sas-confirm'' other), s))"

definition confirm_target_sas :: "nat \<Rightarrow> pairing_session \<Rightarrow> (unit, pairing_error) result \<times> pairing_session" where
  "confirm_target_sas now s =
     (case first_err [check_expired now s, expect_state AwaitingConfirmation s, expect_role Target s] of
        Inl e \<Rightarrow> (Err e, s)
      | Inr _ \<Rightarrow> (Ok (), s\<lparr>ps_state := Transferring\<rparr>))"

definition handle_payload :: "crypto_env \<Rightarrow> nat \<Rightarrow> event \<Rightarrow> pairing_session
    \<Rightarrow> (payload_type \<times> string, pairing_error) result \<times> pairing_session" where
  "handle_payload E now ev s =
     (case and_then (first_err [check_expired now s, expect_state Transferring s, expect_role Target s,
                                validate_event_from_peer E ev s])
                    (\<lambda>_. decrypt_message E ev s) of
        Inl e \<Rightarrow> (Err e, s)
      | Inr (Payload t p) \<Rightarrow> (Ok (t, p), record_event ev (s\<lparr>ps_state := PayloadExchanged\<rparr>))
      | Inr other \<Rightarrow> (Err (unexpected ''payload'' other), s))"

definition send_complete ::
  "crypto_env \<Rightarrow> event_rand \<Rightarrow> nat \<Rightarrow> pairing_session \<Rightarrow> (event, pairing_error) result \<times> pairing_session" where
  "send_complete E R now s =
     (case first_err [check_expired now s, expect_state PayloadExchanged s, expect_role Target s] of
        Inl e \<Rightarrow> (Err e, s)
      | Inr _ \<Rightarrow>
          (case build_event E R (Complete True) s of
             Inl e \<Rightarrow> (Err e, s)
           | Inr ev \<Rightarrow> (Ok ev, s\<lparr>ps_state := Completed\<rparr>)))"

subsection \<open>Either side\<close>

definition terminal :: "session_state \<Rightarrow> bool" where
  "terminal st = (st = Completed \<or> st = Aborted)"

definition abort_session :: "crypto_env \<Rightarrow> event_rand \<Rightarrow> abort_reason \<Rightarrow> pairing_session
    \<Rightarrow> (event option, pairing_error) result \<times> pairing_session" where
  "abort_session E R reason s =
     (if terminal (ps_state s) then
        (Err (UnexpectedMessage ''non-terminal state'' (''state '' @ state_debug (ps_state s))), s)
      else if ps_peer_pubkey s = None then (Ok None, s\<lparr>ps_state := Aborted\<rparr>)
      else (case build_event E R (Abort reason) s of
              Inl e \<Rightarrow> (Err e, s)
            | Inr ev \<Rightarrow> (Ok (Some ev), s\<lparr>ps_state := Aborted\<rparr>)))"

definition handle_abort ::
  "crypto_env \<Rightarrow> event \<Rightarrow> pairing_session \<Rightarrow> (abort_reason, pairing_error) result \<times> pairing_session" where
  "handle_abort E ev s =
     (if terminal (ps_state s) then
        (Err (UnexpectedMessage ''non-terminal state'' (''state '' @ state_debug (ps_state s))), s)
      else if ps_peer_pubkey s = None then
        (Err (InvalidPubkey ''cannot accept abort before peer is known''), s)
      else (case and_then (validate_event_from_peer E ev s) (\<lambda>_. decrypt_message E ev s) of
              Inl e \<Rightarrow> (Err e, s)
            | Inr (Abort reason) \<Rightarrow> (Ok reason, record_event ev (s\<lparr>ps_state := Aborted\<rparr>))
            | Inr other \<Rightarrow> (Err (unexpected ''abort'' other), s)))"

definition sas_code_text :: "pairing_session \<Rightarrow> string option" where
  "sas_code_text s = map_option format_sas (ps_sas_code s)"

end
