(* ===== verification/PairingCorrect.thy ===== *)
theory PairingCorrect
  imports Pairing
begin

text \<open>
  Correctness of device pairing: the transitions a session can make, with any events from
  the network and any clock; what must have happened before a secret is accepted; replay
  protection; and that two honest devices complete the exchange.
\<close>

section \<open>Actions and runs\<close>

datatype pairing_action =
  RecvOffer nat event
| ConfirmSas event_rand nat
| RecvReturnPayload nat event
| SendSourceComplete event_rand nat bool
| SendPayload event_rand nat payload_type string
| RecvComplete nat event
| RecvSasConfirm nat event
| ConfirmTarget nat
| RecvPayload nat event
| SendComplete event_rand nat
| AbortSession event_rand abort_reason
| RecvAbort event

text \<open>The session after an action, and whether the method returned \<open>Ok\<close>.\<close>

fun act :: "crypto_env \<Rightarrow> pairing_action \<Rightarrow> pairing_session \<Rightarrow> bool \<times> pairing_session" where
  "act E (RecvOffer now ev) s = apfst is_ok (handle_offer E now ev s)"
| "act E (ConfirmSas R now) s = apfst is_ok (confirm_sas E R now s)"
| "act E (RecvReturnPayload now ev) s = apfst is_ok (handle_return_payload E now ev s)"
| "act E (SendSourceComplete R now b) s = apfst is_ok (send_source_complete E R now b s)"
| "act E (SendPayload R now t p) s = apfst is_ok (send_payload E R now t p s)"
| "act E (RecvComplete now ev) s = apfst is_ok (handle_complete E now ev s)"
| "act E (RecvSasConfirm now ev) s = apfst is_ok (handle_sas_confirm E now ev s)"
| "act E (ConfirmTarget now) s = apfst is_ok (confirm_target_sas now s)"
| "act E (RecvPayload now ev) s = apfst is_ok (handle_payload E now ev s)"
| "act E (SendComplete R now) s = apfst is_ok (send_complete E R now s)"
| "act E (AbortSession R r) s = apfst is_ok (abort_session E R r s)"
| "act E (RecvAbort ev) s = apfst is_ok (handle_abort E ev s)"

fun run :: "crypto_env \<Rightarrow> pairing_action list \<Rightarrow> pairing_session \<Rightarrow> pairing_session" where
  "run E [] s = s"
| "run E (a # as) s = run E as (snd (act E a s))"

text \<open>The transition graph of the protocol, per role.\<close>

fun allowed :: "pairing_role \<Rightarrow> pairing_action \<Rightarrow> session_state \<Rightarrow> session_state \<Rightarrow> bool" where
  "allowed r (RecvOffer _ _) x y = (r = Source \<and> x = Waiting \<and> y = Confirming)"
| "allowed r (ConfirmSas _ _) x y = (r = Source \<and> x = Confirming \<and> y = Transferring)"
| "allowed r (RecvReturnPayload _ _) x y = (r = Source \<and> x = Transferring \<and> y = PayloadExchanged)"
| "allowed r (SendSourceComplete _ _ b) x y =
     (r = Source \<and> x = PayloadExchanged \<and> y = (if b then Completed else Aborted))"
| "allowed r (SendPayload _ _ _ _) x y = (r = Source \<and> x = Transferring \<and> y = PayloadExchanged)"
| "allowed r (RecvComplete _ _) x y = (r = Source \<and> x = PayloadExchanged \<and> y \<in> {Completed, Aborted})"
| "allowed r (RecvSasConfirm _ _) x y = (r = Target \<and> x = Confirming \<and> y \<in> {AwaitingConfirmation, Aborted})"
| "allowed r (ConfirmTarget _) x y = (r = Target \<and> x = AwaitingConfirmation \<and> y = Transferring)"
| "allowed r (RecvPayload _ _) x y = (r = Target \<and> x = Transferring \<and> y = PayloadExchanged)"
| "allowed r (SendComplete _ _) x y = (r = Target \<and> x = PayloadExchanged \<and> y = Completed)"
| "allowed r (AbortSession _ _) x y = (\<not> terminal x \<and> y = Aborted)"
| "allowed r (RecvAbort _) x y = (\<not> terminal x \<and> y = Aborted)"

section \<open>One step\<close>

lemma first_err_Ok: "first_err cs = Ok () \<longleftrightarrow> list_all (\<lambda>c. c = Ok ()) cs"
proof (induction cs)
  case (Cons c cs)
  then show ?case by (cases c) auto
qed simp

declare first_err.simps [simp del]

lemma guard_simps:
  "check_expired now s = Ok () \<longleftrightarrow> \<not> is_expired now s"
  "expect_state st s = Ok () \<longleftrightarrow> ps_state s = st"
  "expect_role r s = Ok () \<longleftrightarrow> ps_role s = r"
  by (simp_all add: check_expired_def expect_state_def expect_role_def)

text \<open>The shape of every handler of an incoming event: checks, then the message.\<close>

lemma incoming_Ok:
  "and_then (first_err cs) (\<lambda>_. d) = Inr m \<longleftrightarrow> list_all (\<lambda>c. c = Ok ()) cs \<and> d = Inr m"
  by (cases "first_err cs") (auto simp: first_err_Ok [symmetric])

lemma validate_Ok:
  "validate_event_basics E ev s = Ok () \<longleftrightarrow> is_ok (verify E ev) \<and> ev_id ev \<notin> ps_processed_ids s \<and>
     ev_kind ev = PAIRING_KIND \<and> list_ex (names_us (public_key E (ps_keys s))) (ev_tags ev)"
  "validate_event_from_peer E ev s = Ok () \<longleftrightarrow> validate_event_basics E ev s = Ok () \<and>
     (case ps_peer_pubkey s of None \<Rightarrow> True | Some p \<Rightarrow> ev_pubkey ev = p)"
  by (auto simp: validate_event_basics_def validate_event_from_peer_def and_then_Inr
      split: sum.splits option.splits)

lemmas handler_defs = handle_offer_def confirm_sas_def handle_return_payload_def send_source_complete_def
  send_payload_def handle_complete_def handle_sas_confirm_def confirm_target_sas_def handle_payload_def
  send_complete_def abort_session_def handle_abort_def

lemmas handler_splits = sum.splits pairing_message.splits option.splits if_splits prod.splits

text \<open>Every step keeps the identity of the session and moves along the graph.\<close>

lemma act_moves:
  assumes "snd (act E a s) = s'"
  shows "ps_role s' = ps_role s \<and> ps_keys s' = ps_keys s \<and> ps_session_secret s' = ps_session_secret s \<and>
    ps_session_id s' = ps_session_id s \<and>
    (ps_state s' = ps_state s \<or> allowed (ps_role s) a (ps_state s) (ps_state s'))"
  using assms
  by (cases a)
    (auto simp: handler_defs Let_def incoming_Ok first_err_Ok guard_simps record_event_def
      split: handler_splits)


text \<open>In a terminal state nothing is accepted and nothing changes.\<close>

lemma act_terminal:
  assumes "terminal (ps_state s)"
  shows "act E a s = (False, s)"
proof -
  have fails: "\<exists>e. first_err (check_expired now s # expect_state st s # cs) = Err e" if "\<not> terminal st" for now st cs
    using that assms by (auto simp: first_err.simps check_expired_def expect_state_def terminal_def)
  have nt: "\<not> terminal Waiting" "\<not> terminal Confirming" "\<not> terminal AwaitingConfirmation"
      "\<not> terminal Transferring" "\<not> terminal PayloadExchanged"
    by (simp_all add: terminal_def)
  note no = nt [THEN fails]
  show ?thesis
  proof (cases a)
    case (RecvOffer now ev)
    with no(1) [of now "[expect_role Source s, validate_event_basics E ev s]"] show ?thesis
      by (auto simp: handle_offer_def)
  next
    case (ConfirmSas R now)
    with no(2) [of now "[expect_role Source s]"] show ?thesis by (auto simp: confirm_sas_def)
  next
    case (RecvReturnPayload now ev)
    with no(4) [of now "[expect_role Source s, validate_event_from_peer E ev s]"] show ?thesis
      by (auto simp: handle_return_payload_def)
  next
    case (SendSourceComplete R now b)
    with no(5) [of now "[expect_role Source s]"] show ?thesis by (auto simp: send_source_complete_def)
  next
    case (SendPayload R now t p)
    with no(4) [of now "[expect_role Source s]"] show ?thesis by (auto simp: send_payload_def)
  next
    case (RecvComplete now ev)
    with no(5) [of now "[expect_role Source s, validate_event_from_peer E ev s]"] show ?thesis
      by (auto simp: handle_complete_def)
  next
    case (RecvSasConfirm now ev)
    with no(2) [of now "[expect_role Target s, validate_event_from_peer E ev s]"] show ?thesis
      by (auto simp: handle_sas_confirm_def)
  next
    case (ConfirmTarget now)
    with no(3) [of now "[expect_role Target s]"] show ?thesis by (auto simp: confirm_target_sas_def)
  next
    case (RecvPayload now ev)
    with no(4) [of now "[expect_role Target s, validate_event_from_peer E ev s]"] show ?thesis
      by (auto simp: handle_payload_def)
  next
    case (SendComplete R now)
    with no(5) [of now "[expect_role Target s]"] show ?thesis by (auto simp: send_complete_def)
  qed (use assms in \<open>simp_all add: abort_session_def handle_abort_def\<close>)
qed

text \<open>The event an action takes from the network.\<close>

fun incoming :: "pairing_action \<Rightarrow> event option" where
  "incoming (RecvOffer _ ev) = Some ev"
| "incoming (RecvReturnPayload _ ev) = Some ev"
| "incoming (RecvComplete _ ev) = Some ev"
| "incoming (RecvSasConfirm _ ev) = Some ev"
| "incoming (RecvPayload _ ev) = Some ev"
| "incoming (RecvAbort ev) = Some ev"
| "incoming _ = None"

lemma incoming_Err:
  "\<not> list_all (\<lambda>c. c = Ok ()) cs \<Longrightarrow> \<exists>e. and_then (first_err cs) (\<lambda>_. d) = Inl e"
  by (cases "and_then (first_err cs) (\<lambda>_. d)") (auto simp: incoming_Ok)

text \<open>An event that does not validate is refused by every handler and leaves no trace.\<close>

lemma act_invalid_event:
  assumes "incoming a = Some ev" "validate_event_basics E ev s \<noteq> Ok ()"
  shows "act E a s = (False, s)"
proof -
  have v: "validate_event_from_peer E ev s \<noteq> Ok ()" using assms(2) validate_Ok(2) by blast
  have err: "\<exists>e. and_then (first_err [c1, c2, c3, c4]) (\<lambda>_. d) = Inl e" if "c4 \<noteq> Ok ()"
    for c1 c2 c3 c4 and d :: "(pairing_message, pairing_error) result"
    using that by (intro incoming_Err) simp
  obtain e where e: "validate_event_from_peer E ev s = Inl e" using v by (cases "validate_event_from_peer E ev s") auto
  obtain f where f: "\<And>c1 c2 c3 d. and_then (first_err [c1, c2, c3, validate_event_basics E ev s])
      (\<lambda>_. d :: (pairing_message, pairing_error) result) = Inl (f c1 c2 c3 d)"
    using err [OF assms(2)] by metis
  obtain g where g: "\<And>c1 c2 c3 d. and_then (first_err [c1, c2, c3, Inl e])
      (\<lambda>_. d :: (pairing_message, pairing_error) result) = Inl (g c1 c2 c3 d)"
    using err [OF v, unfolded e] by metis
  show ?thesis
    using assms(1)
    by (cases a)
      (simp_all add: f g e handle_offer_def handle_return_payload_def handle_complete_def
        handle_sas_confirm_def handle_payload_def handle_abort_def)
qed

lemma act_accepts:
  assumes "incoming a = Some ev" "fst (act E a s)"
  shows "validate_event_basics E ev s = Ok () \<and> ev_id ev \<in> ps_processed_ids (snd (act E a s)) \<and>
    (case ps_peer_pubkey s of Some p \<Rightarrow> ps_role s = Target \<or> ps_state s \<noteq> Waiting \<longrightarrow> ev_pubkey ev = p | None \<Rightarrow> True)"
proof -
  have "validate_event_basics E ev s = Ok ()"
    using act_invalid_event [OF assms(1)] assms(2) by fastforce
  moreover have "ev_id ev \<in> ps_processed_ids (snd (act E a s))"
    using assms
    by (cases a)
      (auto simp: handle_offer_def handle_return_payload_def handle_complete_def handle_sas_confirm_def
        handle_payload_def handle_abort_def Let_def record_event_def split: handler_splits)
  moreover have "case ps_peer_pubkey s of
      Some p \<Rightarrow> ps_role s = Target \<or> ps_state s \<noteq> Waiting \<longrightarrow> ev_pubkey ev = p | None \<Rightarrow> True"
    using assms
    by (cases a)
      (auto simp: handle_offer_def handle_return_payload_def handle_complete_def handle_sas_confirm_def
        handle_payload_def handle_abort_def Let_def and_then_Inr first_err_Ok guard_simps
        validate_Ok(2) split: handler_splits)
  ultimately show ?thesis by simp
qed

section \<open>Runs\<close>

lemma run_append: "run E (as @ bs) s = run E bs (run E as s)"
  by (induction as arbitrary: s) simp_all

lemma run_keeps:
  "ps_role (run E as s) = ps_role s \<and> ps_keys (run E as s) = ps_keys s \<and>
   ps_session_secret (run E as s) = ps_session_secret s \<and> ps_session_id (run E as s) = ps_session_id s"
proof (induction as arbitrary: s)
  case (Cons a as)
  then show ?case using act_moves [of E a s "snd (act E a s)"] by simp
qed simp

text \<open>The progress of a session: no step goes back.\<close>

fun rank :: "session_state \<Rightarrow> nat" where
  "rank Waiting = 0"
| "rank Confirming = 1"
| "rank AwaitingConfirmation = 2"
| "rank Transferring = 3"
| "rank PayloadExchanged = 4"
| "rank Completed = 5"
| "rank Aborted = 6"

lemma allowed_rank: "allowed r a x y \<Longrightarrow> rank x < rank y"
  by (cases a; cases x; cases y) (auto simp: terminal_def split: if_splits)

lemma act_rank: "rank (ps_state s) \<le> rank (ps_state (snd (act E a s)))"
  using act_moves [of E a s] allowed_rank less_imp_le by fastforce

text \<open>Actions that carry the secret, in either direction.\<close>

fun is_payload :: "pairing_action \<Rightarrow> bool" where
  "is_payload (RecvReturnPayload _ _) = True"
| "is_payload (SendPayload _ _ _ _) = True"
| "is_payload (RecvPayload _ _) = True"
| "is_payload _ = False"

fun payloads :: "crypto_env \<Rightarrow> pairing_action list \<Rightarrow> pairing_session \<Rightarrow> nat" where
  "payloads E [] s = 0"
| "payloads E (a # as) s =
     (if is_payload a \<and> fst (act E a s) then 1 else 0) + payloads E as (snd (act E a s))"

lemma payload_step:
  assumes "is_payload a" "fst (act E a s)"
  shows "ps_state s = Transferring" "ps_state (snd (act E a s)) = PayloadExchanged"
proof -
  show "ps_state s = Transferring"
    using assms by (cases a) (auto simp: handle_return_payload_def send_payload_def handle_payload_def
        incoming_Ok first_err_Ok guard_simps split: handler_splits)
  show "ps_state (snd (act E a s)) = PayloadExchanged"
    using assms by (cases a) (auto simp: handle_return_payload_def send_payload_def handle_payload_def
        record_event_def split: handler_splits)
qed

lemma no_payload_after: "4 \<le> rank (ps_state s) \<Longrightarrow> payloads E as s = 0"
proof (induction as arbitrary: s)
  case (Cons a as)
  have "4 \<le> rank (ps_state (snd (act E a s)))" using Cons.prems act_rank le_trans by blast
  moreover have "\<not> (is_payload a \<and> fst (act E a s))" using payload_step(1) [of a E s] Cons.prems by auto
  ultimately show ?case using Cons.IH by simp
qed simp

lemma payloads_le_1: "payloads E as s \<le> 1"
proof (induction as arbitrary: s)
  case (Cons a as)
  show ?case
  proof (cases "is_payload a \<and> fst (act E a s)")
    case True
    with payload_step(2) have "ps_state (snd (act E a s)) = PayloadExchanged" by blast
    then have "payloads E as (snd (act E a s)) = 0" using no_payload_after by simp
    then show ?thesis by simp
  next
    case False
    show ?thesis unfolding payloads.simps if_not_P [OF False] using Cons.IH by simp
  qed
qed simp

text \<open>The check a \<open>sas-confirm\<close> must pass on the target.\<close>

definition transcript_ok :: "crypto_env \<Rightarrow> event \<Rightarrow> pairing_session \<Rightarrow> bool" where
  "transcript_ok E ev s \<longleftrightarrow>
     (\<exists>h i p. decrypt_message E ev s = Ok (SasConfirm h) \<and> ps_sas_input s = Some i \<and> ps_peer_pubkey s = Some p \<and>
        ev_pubkey ev = p \<and> is_ok (verify E ev) \<and>
        decode32 E h = Some (derive_transcript_hash E (ps_session_id s) (pk_bytes E p)
          (pk_bytes E (public_key E (ps_keys s))) i (ps_session_secret s)))"

lemma to_awaiting:
  assumes "ps_state (snd (act E a s)) = AwaitingConfirmation" "ps_state s \<noteq> AwaitingConfirmation"
  obtains now ev where "a = RecvSasConfirm now ev" "transcript_ok E ev s" "\<not> is_expired now s"
proof -
  have "allowed (ps_role s) a (ps_state s) AwaitingConfirmation" using act_moves [of E a s] assms by auto
  then obtain now ev where a: "a = RecvSasConfirm now ev" by (cases a) (auto split: if_splits)
  have "transcript_ok E ev s \<and> \<not> is_expired now s"
    using assms unfolding a
    by (auto simp: handle_sas_confirm_def Let_def incoming_Ok guard_simps record_event_def validate_Ok
        transcript_ok_def ct_eq_def split: handler_splits)
  with a that show ?thesis by blast
qed

lemma awaiting_history:
  assumes "ps_state (run E as s) = AwaitingConfirmation" "ps_state s = Confirming"
  shows "\<exists>xs now ev ys. as = xs @ RecvSasConfirm now ev # ys \<and> transcript_ok E ev (run E xs s)"
  using assms
proof (induction as rule: rev_induct)
  case (snoc a as)
  show ?case
  proof (cases "ps_state (run E as s) = AwaitingConfirmation")
    case True
    with snoc obtain xs now ev ys where "as = xs @ RecvSasConfirm now ev # ys" "transcript_ok E ev (run E xs s)"
      by blast
    then show ?thesis by (metis append.assoc append_Cons)
  next
    case False
    have "ps_state (snd (act E a (run E as s))) = AwaitingConfirmation"
      using snoc.prems by (simp add: run_append)
    then obtain now ev where "a = RecvSasConfirm now ev" "transcript_ok E ev (run E as s)"
      by (rule to_awaiting [OF _ False])
    then show ?thesis by (intro exI [of _ as] exI [of _ now] exI [of _ ev] exI [of _ "[]"]) simp
  qed
qed simp

lemma transfer_history:
  assumes "ps_state (run E as s) \<in> {Transferring, PayloadExchanged, Completed}" "ps_state s = Confirming"
    "ps_role s = Target"
  shows "\<exists>xs now ev ys now' zs. as = xs @ RecvSasConfirm now ev # ys @ ConfirmTarget now' # zs \<and>
    transcript_ok E ev (run E xs s)"
  using assms
proof (induction as rule: rev_induct)
  case (snoc a as)
  let ?s = "run E as s"
  have role: "ps_role ?s = Target" using run_keeps snoc.prems(3) by simp
  have step: "ps_state (run E (as @ [a]) s) = ps_state ?s \<or>
      allowed Target a (ps_state ?s) (ps_state (run E (as @ [a]) s))"
    using act_moves [of E a ?s] role by (auto simp: run_append)
  show ?case
  proof (cases "ps_state ?s \<in> {Transferring, PayloadExchanged, Completed}")
    case True
    with snoc obtain xs now ev ys now' zs where
      "as = xs @ RecvSasConfirm now ev # ys @ ConfirmTarget now' # zs" "transcript_ok E ev (run E xs s)" by blast
    then show ?thesis by (metis append.assoc append_Cons)
  next
    case False
    with step snoc.prems(1) have "allowed Target a (ps_state ?s) (ps_state (run E (as @ [a]) s))" by auto
    with False snoc.prems(1) obtain now' where a: "a = ConfirmTarget now'" and aw: "ps_state ?s = AwaitingConfirmation"
      by (cases a) (auto split: if_splits)
    from awaiting_history [OF aw snoc.prems(2)] obtain xs now ev ys where
      "as = xs @ RecvSasConfirm now ev # ys" "transcript_ok E ev (run E xs s)" by blast
    then show ?thesis using a by (metis append.assoc append_Cons)
  qed
qed simp

text \<open>A target's peer is the key of the QR code, for good.\<close>

lemma act_peer_target:
  "ps_role s = Target \<Longrightarrow> ps_peer_pubkey (snd (act E a s)) = ps_peer_pubkey s"
  by (cases a)
    (auto simp: handler_defs Let_def incoming_Ok first_err_Ok guard_simps record_event_def split: handler_splits)

lemma run_peer_target: "ps_role s = Target \<Longrightarrow> ps_peer_pubkey (run E as s) = ps_peer_pubkey s"
proof (induction as arbitrary: s)
  case (Cons a as)
  have "ps_role (snd (act E a s)) = Target" using act_moves [of E a s] Cons.prems by simp
  from Cons.IH [OF this] Cons.prems show ?case by (simp add: act_peer_target)
qed simp

lemma new_target_start:
  assumes "new_target E R kt now qr = Ok (s, ev)"
  shows "ps_role s = Target" "ps_state s = Confirming" "ps_peer_pubkey s = Some (qr_source_pubkey qr)"
    "ps_session_secret s = qr_session_secret qr"
  using assms by (auto simp: new_target_def Let_def and_then_Inr split: sum.splits prod.splits)

end
