(* ===== verification/HonestPairing.thy ===== *)
theory HonestPairing
  imports PairingCorrect
begin

text \<open>
  Two honest devices complete a pairing: the exchange as the two sides' methods compose it,
  what the code relies on of the cryptographic crates, and the proof that the secret arrives.
\<close>

section \<open>What the code relies on\<close>

text \<open>
  ECDH is symmetric, HKDF-Expand returns as many bytes as asked, NIP-44 decrypts what it
  encrypted for texts of 1 to 65535 bytes and its payloads are 132 to 87472 characters long,
  JSON and hex are inverse to their parsers, a signed event verifies, carries what it was
  built from, and its id determines its content.
\<close>

definition ecdh_ok :: "crypto_env \<Rightarrow> bool" where
  "ecdh_ok E \<longleftrightarrow> (\<forall>a b. is_ok (generate_shared_key E a (public_key E b)) \<and>
     generate_shared_key E a (public_key E b) = generate_shared_key E b (public_key E a))"

definition hkdf_ok :: "crypto_env \<Rightarrow> bool" where
  "hkdf_ok E \<longleftrightarrow> (\<forall>prk info. length (hkdf_expand E prk info 32) = 32)"

definition nip44_ok :: "crypto_env \<Rightarrow> bool" where
  "nip44_ok E \<longleftrightarrow> (\<forall>n a b m. 1 \<le> length m \<longrightarrow> length m \<le> 65535 \<longrightarrow>
     (\<exists>c. nip44_encrypt E n a (public_key E b) m = Ok c \<and> 132 \<le> length c \<and> length c \<le> 87472 \<and>
        nip44_decrypt E b (public_key E a) c = Ok m))"

definition codecs_ok :: "crypto_env \<Rightarrow> bool" where
  "codecs_ok E \<longleftrightarrow> (\<forall>m j. json_to_string E m = Ok j \<longrightarrow> json_from_str E j = Ok m) \<and>
     (\<forall>b. hex_decode E (hex_encode E b) = Some b)"

definition signing_ok :: "crypto_env \<Rightarrow> bool" where
  "signing_ok E \<longleftrightarrow>
     (\<forall>sk k c p t. \<exists>ev. sign_with_keys E sk k c p t = Ok ev \<and> verify E ev = Ok () \<and>
        ev_pubkey ev = public_key E sk \<and> ev_kind ev = k \<and> ev_content ev = c \<and>
        list_ex (names_us p) (ev_tags ev)) \<and>
     (\<forall>sk k c p t ev sk' k' c' p' t' ev'. sign_with_keys E sk k c p t = Ok ev \<longrightarrow>
        sign_with_keys E sk' k' c' p' t' = Ok ev' \<longrightarrow> ev_id ev = ev_id ev' \<longrightarrow> c = c')"

definition crypto_ok :: "crypto_env \<Rightarrow> bool" where
  "crypto_ok E \<longleftrightarrow> ecdh_ok E \<and> hkdf_ok E \<and> nip44_ok E \<and> codecs_ok E \<and> signing_ok E"

text \<open>The message has a JSON text that NIP-44 can carry.\<close>

definition fits :: "crypto_env \<Rightarrow> pairing_message \<Rightarrow> bool" where
  "fits E m \<longleftrightarrow> (case json_to_string E m of Inl _ \<Rightarrow> False | Inr j \<Rightarrow> 1 \<le> length j \<and> length j \<le> 65535)"

section \<open>An event that arrives\<close>

text \<open>\<open>ev\<close> carries \<open>m\<close> from the holder of \<open>ks\<close> to the holder of \<open>kr\<close>.\<close>

definition carries :: "crypto_env \<Rightarrow> seckey \<Rightarrow> seckey \<Rightarrow> pairing_message \<Rightarrow> event \<Rightarrow> bool" where
  "carries E ks kr m ev \<longleftrightarrow> ev_pubkey ev = public_key E ks \<and>
     (\<forall>r. ps_keys r = kr \<longrightarrow> decrypt_message E ev r = Ok m \<and>
        (validate_event_basics E ev r = Ok () \<longleftrightarrow> ev_id ev \<notin> ps_processed_ids r))"

lemma built_carries:
  assumes "crypto_ok E" "fits E m" "ps_peer_pubkey s = Some (public_key E kr)"
  shows "\<exists>ev. build_event E R m s = Ok ev \<and> carries E (ps_keys s) kr m ev"
proof -
  from assms(2) obtain j where j: "json_to_string E m = Ok j" "1 \<le> length j" "length j \<le> 65535"
    by (auto simp: fits_def split: sum.splits)
  from assms(1) j(2,3) obtain c where c: "nip44_encrypt E (er_nonce R) (ps_keys s) (public_key E kr) j = Ok c"
    "132 \<le> length c" "length c \<le> 87472" "nip44_decrypt E kr (public_key E (ps_keys s)) c = Ok j"
    unfolding crypto_ok_def nip44_ok_def by blast
  from assms(1) obtain ev where ev: "sign_with_keys E (ps_keys s) PAIRING_KIND c (public_key E kr) (jittered R) = Ok ev"
    "verify E ev = Ok ()" "ev_pubkey ev = public_key E (ps_keys s)" "ev_kind ev = PAIRING_KIND"
    "ev_content ev = c" "list_ex (names_us (public_key E kr)) (ev_tags ev)"
    unfolding crypto_ok_def signing_ok_def by blast
  have "json_from_str E j = Ok m" using assms(1) j(1) unfolding crypto_ok_def codecs_ok_def by blast
  with ev c j have "carries E (ps_keys s) kr m ev"
    by (simp add: carries_def decrypt_message_def validate_Ok(1))
  with ev(1) c(1) j(1) assms(3) show ?thesis by (simp add: build_event_def)
qed

lemma built_ids_differ:
  assumes "crypto_ok E" "build_event E R m s = Ok ev" "build_event E R' m' s' = Ok ev'"
    and "carries E ks kr m ev" "carries E ks kr m' ev'" "m \<noteq> m'"
  shows "ev_id ev \<noteq> ev_id ev'"
proof
  assume eq: "ev_id ev = ev_id ev'"
  obtain c p t sk where s1: "sign_with_keys E sk PAIRING_KIND c p t = Ok ev"
    using assms(2) by (auto simp: build_event_def split: option.splits sum.splits)
  obtain c' p' t' sk' where s2: "sign_with_keys E sk' PAIRING_KIND c' p' t' = Ok ev'"
    using assms(3) by (auto simp: build_event_def split: option.splits sum.splits)
  have "c = c'" using assms(1) s1 s2 eq unfolding crypto_ok_def signing_ok_def by blast
  moreover have "ev_content ev = c" "ev_content ev' = c'"
    using assms(1) s1 s2 unfolding crypto_ok_def signing_ok_def
    by (metis (mono_tags, lifting) sum.inject(2))+
  moreover have "ev_pubkey ev = ev_pubkey ev'" using assms(4,5) by (simp add: carries_def)
  ultimately have "decrypt_message E ev r = decrypt_message E ev' r" for r by (simp add: decrypt_message_def Let_def)
  then have "m = m'" using assms(4,5) unfolding carries_def
    by (metis (no_types) pairing_session.select_convs(3) sum.inject(2))
  with assms(6) show False ..
qed

section \<open>The exchange\<close>

text \<open>Go on with the value and the session of a method that succeeded.\<close>

definition when_ok :: "('a, 'e) result \<times> 's \<Rightarrow> ('a \<Rightarrow> 's \<Rightarrow> 'b option) \<Rightarrow> 'b option" where
  "when_ok r k = (case fst r of Inl _ \<Rightarrow> None | Inr a \<Rightarrow> k a (snd r))"

definition honest_exchange ::
  "crypto_env \<Rightarrow> (nat \<Rightarrow> event_rand) \<Rightarrow> seckey \<Rightarrow> seckey \<Rightarrow> bytes \<Rightarrow> nat \<Rightarrow> string \<Rightarrow> payload_type \<Rightarrow> string
     \<Rightarrow> (string \<times> string \<times> (payload_type \<times> string) \<times> pairing_session \<times> pairing_session) option" where
  "honest_exchange E R ks kt secret now url t p =
     (let (src0, qr) = new_source E ks secret now url in
      case new_target E (R 0) kt now qr of
        Inl _ \<Rightarrow> None
      | Inr target \<Rightarrow>
          when_ok (handle_offer E now (snd target) src0) (\<lambda>sas1 src1.
          when_ok (confirm_sas E (R 1) now src1) (\<lambda>conf src2.
          when_ok (handle_sas_confirm E now conf (fst target)) (\<lambda>sas2 tgt1.
          when_ok (confirm_target_sas now tgt1) (\<lambda>_ tgt2.
          when_ok (send_payload E (R 2) now t p src2) (\<lambda>pay src3.
          when_ok (handle_payload E now pay tgt2) (\<lambda>got tgt3.
          when_ok (send_complete E (R 3) now tgt3) (\<lambda>fin tgt4.
          when_ok (handle_complete E now fin src3) (\<lambda>_ src4.
            Some (sas1, sas2, got, src4, tgt4))))))))))"

lemma when_ok_Inr [simp]: "when_ok (Inr a, s) k = k a s"
  by (simp add: when_ok_def)

lemma hkdf32_length: "crypto_ok E \<Longrightarrow> length (hkdf32 E salt ikm info) = 32"
  by (simp add: crypto_ok_def hkdf_ok_def hkdf32_def)

lemma decode32_hex: "crypto_ok E \<Longrightarrow> length b = 32 \<Longrightarrow> decode32 E (hex_encode E b) = Some b"
  by (simp add: crypto_ok_def codecs_ok_def decode32_def)

lemma fresh_not_expired: "ps_created_at s = now \<Longrightarrow> check_expired now s = Ok ()"
  by (simp add: check_expired_def is_expired_def)

text \<open>Each receiving step, once its event carries the message it waits for.\<close>

lemma handle_offer_honest:
  assumes "crypto_ok E" "carries E kt (ps_keys s) (Offer (hex_encode E (ps_session_id s)) 1) ev"
    and "ps_state s = Waiting" "ps_role s = Source" "ps_created_at s = now" "ev_id ev \<notin> ps_processed_ids s"
    and "length (ps_session_id s) = 32" "generate_shared_key E (ps_keys s) (public_key E kt) = Ok ecdh"
    and "derive_sas E ecdh (ps_session_secret s) = (code, input)"
  shows "handle_offer E now ev s = (Ok (format_sas code), record_event ev (s\<lparr>ps_peer_pubkey := Some (public_key E kt),
     ps_sas_code := Some code, ps_sas_input := Some input, ps_state := Confirming\<rparr>))"
proof -
  have "validate_event_basics E ev s = Ok ()" "ev_pubkey ev = public_key E kt"
    "decrypt_message E ev s = Ok (Offer (hex_encode E (ps_session_id s)) 1)"
    using assms(2,6) by (simp_all add: carries_def)
  with assms show ?thesis
    by (simp add: handle_offer_def first_err.simps fresh_not_expired expect_state_def expect_role_def
        decode32_hex ct_eq_def Let_def)
qed

lemma from_peer_honest:
  "carries E kp (ps_keys s) m ev \<Longrightarrow> ps_peer_pubkey s = Some (public_key E kp) \<Longrightarrow>
     ev_id ev \<notin> ps_processed_ids s \<Longrightarrow> validate_event_from_peer E ev s = Ok () \<and> decrypt_message E ev s = Ok m"
  by (simp add: validate_Ok(2) carries_def)

lemma handle_sas_confirm_honest:
  assumes "crypto_ok E" "ps_peer_pubkey s = Some (public_key E kp)" "ps_sas_input s = Some input"
    and "carries E kp (ps_keys s) (SasConfirm (hex_encode E (derive_transcript_hash E (ps_session_id s)
          (pk_bytes E (public_key E kp)) (pk_bytes E (public_key E (ps_keys s))) input (ps_session_secret s)))) ev"
    and "ps_state s = Confirming" "ps_role s = Target" "ps_created_at s = now" "ev_id ev \<notin> ps_processed_ids s"
    and "ps_sas_code s = Some code"
  shows "handle_sas_confirm E now ev s =
    (Ok (format_sas code), record_event ev (s\<lparr>ps_state := AwaitingConfirmation\<rparr>))"
  using assms from_peer_honest [OF assms(4,2,8)] hkdf32_length [OF assms(1)]
  by (simp add: handle_sas_confirm_def first_err.simps fresh_not_expired expect_state_def expect_role_def
      decode32_hex derive_transcript_hash_def ct_eq_def Let_def)

lemma handle_payload_honest:
  assumes "carries E kp (ps_keys s) (Payload t p) ev" "ps_peer_pubkey s = Some (public_key E kp)"
    "ev_id ev \<notin> ps_processed_ids s" "ps_state s = Transferring" "ps_role s = Target" "ps_created_at s = now"
  shows "handle_payload E now ev s = (Ok (t, p), record_event ev (s\<lparr>ps_state := PayloadExchanged\<rparr>))"
  using assms from_peer_honest [OF assms(1-3)]
  by (simp add: handle_payload_def first_err.simps fresh_not_expired expect_state_def expect_role_def)

lemma handle_complete_honest:
  assumes "carries E kp (ps_keys s) (Complete True) ev" "ps_peer_pubkey s = Some (public_key E kp)"
    "ev_id ev \<notin> ps_processed_ids s" "ps_state s = PayloadExchanged" "ps_role s = Source" "ps_created_at s = now"
  shows "handle_complete E now ev s = (Ok (), record_event ev (s\<lparr>ps_state := Completed\<rparr>))"
  using assms from_peer_honest [OF assms(1-3)]
  by (simp add: handle_complete_def first_err.simps fresh_not_expired expect_state_def expect_role_def)

lemma first_err_fresh:
  "ps_created_at s = now \<Longrightarrow> ps_state s = st \<Longrightarrow> ps_role s = r \<Longrightarrow>
     first_err [check_expired now s, expect_state st s, expect_role r s] = Ok ()"
  by (simp add: first_err.simps fresh_not_expired expect_state_def expect_role_def)

text \<open>Both sides after the short authentication strings were confirmed.\<close>

definition paired ::
  "crypto_env \<Rightarrow> seckey \<Rightarrow> seckey \<Rightarrow> nat \<Rightarrow> event \<Rightarrow> event \<Rightarrow> pairing_session \<Rightarrow> pairing_session \<Rightarrow> bool" where
  "paired E ks kt now offer cf src tgt \<longleftrightarrow>
     ps_state src = Transferring \<and> ps_role src = Source \<and> ps_keys src = ks \<and> ps_created_at src = now \<and>
     ps_peer_pubkey src = Some (public_key E kt) \<and> ps_processed_ids src = {ev_id offer} \<and>
     ps_state tgt = Transferring \<and> ps_role tgt = Target \<and> ps_keys tgt = kt \<and> ps_created_at tgt = now \<and>
     ps_peer_pubkey tgt = Some (public_key E ks) \<and> ps_processed_ids tgt = {ev_id cf}"

definition built :: "crypto_env \<Rightarrow> seckey \<Rightarrow> seckey \<Rightarrow> pairing_message \<Rightarrow> event \<Rightarrow> bool" where
  "built E ks kr m ev \<longleftrightarrow> carries E ks kr m ev \<and> (\<exists>R s. build_event E R m s = Ok ev)"

lemma built_exists:
  assumes "crypto_ok E" "fits E m" "ps_peer_pubkey s = Some (public_key E kr)" "ps_keys s = ks"
  obtains ev where "build_event E R m s = Ok ev" "built E ks kr m ev"
  using built_carries [OF assms(1-3), of R] assms(4) unfolding built_def by blast

lemma built_distinct:
  "crypto_ok E \<Longrightarrow> built E ks kr m ev \<Longrightarrow> built E ks kr m' ev' \<Longrightarrow> m \<noteq> m' \<Longrightarrow> ev_id ev \<noteq> ev_id ev'"
  unfolding built_def using built_ids_differ by blast

lemma handshake_completes:
  assumes ok: "crypto_ok E" and fo: "fits E (Offer (hex_encode E (derive_session_id E secret)) 1)"
    and fc: "\<And>h. length h = 32 \<Longrightarrow> fits E (SasConfirm (hex_encode E h))"
    and n0: "new_source E ks secret now url = (src0, qr)"
  shows "\<exists>tgt0 offer sas src1 cf src2 tgt1 tgt2 h. new_target E R0 kt now qr = Ok (tgt0, offer) \<and>
    handle_offer E now offer src0 = (Ok sas, src1) \<and> confirm_sas E R1 now src1 = (Ok cf, src2) \<and>
    handle_sas_confirm E now cf tgt0 = (Ok sas, tgt1) \<and> confirm_target_sas now tgt1 = (Ok (), tgt2) \<and>
    paired E ks kt now offer cf src2 tgt2 \<and>
    built E kt ks (Offer (hex_encode E (derive_session_id E secret)) 1) offer \<and> built E ks kt (SasConfirm h) cf"
proof -
  let ?S = "public_key E ks" and ?T = "public_key E kt" and ?id = "derive_session_id E secret"
  obtain ecdh where dh: "generate_shared_key E kt ?S = Ok ecdh" "generate_shared_key E ks ?T = Ok ecdh"
    using ok unfolding crypto_ok_def ecdh_ok_def by (metis is_ok_def old.sum.exhaust old.sum.simps(5))
  obtain code input where sas: "derive_sas E ecdh secret = (code, input)" by fastforce
  let ?hash = "derive_transcript_hash E ?id (pk_bytes E ?S) (pk_bytes E ?T) input secret"
  define tgtw where "tgtw = \<lparr>ps_role = Target, ps_state = Waiting, ps_keys = kt, ps_session_secret = secret,
      ps_relay_urls = [url], ps_peer_pubkey = Some ?S, ps_session_id = ?id, ps_sas_code = Some code,
      ps_sas_input = Some input, ps_processed_ids = {}, ps_created_at = now, ps_timeout = DEFAULT_TIMEOUT\<rparr>"
  define tgt0 where "tgt0 = tgtw\<lparr>ps_state := Confirming\<rparr>"
  obtain offer where offer: "build_event E R0 (Offer (hex_encode E ?id) 1) tgtw = Ok offer"
      "built E kt ks (Offer (hex_encode E ?id) 1) offer"
    by (rule built_exists [OF ok fo, of tgtw ks kt R0]) (simp_all add: tgtw_def)
  have n1: "new_target E R0 kt now qr = Ok (tgt0, offer)"
    using offer(1) dh(1) sas n0 by (auto simp: new_target_def new_source_def Let_def tgt0_def tgtw_def)
  define src1 where "src1 = record_event offer (src0\<lparr>ps_peer_pubkey := Some ?T, ps_sas_code := Some code,
      ps_sas_input := Some input, ps_state := Confirming\<rparr>)"
  note defs = new_source_def src1_def tgt0_def tgtw_def record_event_def
  have n2: "handle_offer E now offer src0 = (Ok (format_sas code), src1)"
    unfolding src1_def
    by (rule handle_offer_honest [OF ok])
      (use offer(2) dh(2) sas hkdf32_length [OF ok] n0 in \<open>auto simp: new_source_def derive_session_id_def built_def\<close>)
  have len: "length ?hash = 32" by (simp add: derive_transcript_hash_def hkdf32_length [OF ok])
  obtain cf where cf: "build_event E R1 (SasConfirm (hex_encode E ?hash)) src1 = Ok cf"
      "built E ks kt (SasConfirm (hex_encode E ?hash)) cf"
    by (rule built_exists [OF ok fc [OF len], of src1 kt ks R1]) (use n0 in \<open>auto simp: defs\<close>)
  have n3: "confirm_sas E R1 now src1 = (Ok cf, src1\<lparr>ps_state := Transferring\<rparr>)"
    using cf(1) n0 by (auto simp: confirm_sas_def first_err_fresh defs Let_def)
  have n4: "handle_sas_confirm E now cf tgt0 = (Ok (format_sas code), record_event cf (tgt0\<lparr>ps_state := AwaitingConfirmation\<rparr>))"
    by (rule handle_sas_confirm_honest [OF ok, of _ ks input])
      (use cf(2) in \<open>simp_all add: tgt0_def tgtw_def built_def\<close>)
  have "confirm_target_sas now (record_event cf (tgt0\<lparr>ps_state := AwaitingConfirmation\<rparr>)) =
      (Ok (), record_event cf (tgt0\<lparr>ps_state := Transferring\<rparr>))"
    by (simp add: confirm_target_sas_def first_err_fresh defs)
  moreover have "paired E ks kt now offer cf (src1\<lparr>ps_state := Transferring\<rparr>) (record_event cf (tgt0\<lparr>ps_state := Transferring\<rparr>))"
    using n0 by (auto simp: paired_def defs)
  ultimately show ?thesis using n1 n2 n3 n4 offer(2) cf(2) by blast
qed

lemma transfer_completes:
  assumes ok: "crypto_ok E" and fp: "fits E (Payload t p)" "fits E (Complete True)"
    and pr: "paired E ks kt now offer cf src tgt"
    and "built E kt ks (Offer i v) offer" "built E ks kt (SasConfirm h) cf"
  shows "\<exists>pay src3 tgt3 fin tgt4 src4. send_payload E R2 now t p src = (Ok pay, src3) \<and>
    handle_payload E now pay tgt = (Ok (t, p), tgt3) \<and> send_complete E R3 now tgt3 = (Ok fin, tgt4) \<and>
    handle_complete E now fin src3 = (Ok (), src4) \<and> ps_state src4 = Completed \<and> ps_state tgt4 = Completed"
proof -
  obtain pay where pay: "build_event E R2 (Payload t p) src = Ok pay" "built E ks kt (Payload t p) pay"
    by (rule built_exists [OF ok fp(1), of src kt ks R2]) (use pr in \<open>simp_all add: paired_def\<close>)
  have n6: "send_payload E R2 now t p src = (Ok pay, src\<lparr>ps_state := PayloadExchanged\<rparr>)"
    using pay(1) pr by (simp add: send_payload_def first_err_fresh paired_def)
  have "ev_id pay \<noteq> ev_id cf" by (rule built_distinct [OF ok pay(2) assms(6)]) simp
  then have n7: "handle_payload E now pay tgt = (Ok (t, p), record_event pay (tgt\<lparr>ps_state := PayloadExchanged\<rparr>))"
    by (intro handle_payload_honest [of _ ks]) (use pay(2) pr in \<open>simp_all add: paired_def built_def\<close>)
  define tgt3 where "tgt3 = record_event pay (tgt\<lparr>ps_state := PayloadExchanged\<rparr>)"
  obtain fin where fin: "build_event E R3 (Complete True) tgt3 = Ok fin" "built E kt ks (Complete True) fin"
    by (rule built_exists [OF ok fp(2), of tgt3 ks kt R3]) (use pr in \<open>simp_all add: paired_def tgt3_def record_event_def\<close>)
  have n8: "send_complete E R3 now tgt3 = (Ok fin, tgt3\<lparr>ps_state := Completed\<rparr>)"
    using fin(1) pr by (simp add: send_complete_def first_err_fresh tgt3_def record_event_def paired_def)
  have "ev_id fin \<noteq> ev_id offer" by (rule built_distinct [OF ok fin(2) assms(5)]) simp
  then have "handle_complete E now fin (src\<lparr>ps_state := PayloadExchanged\<rparr>) =
      (Ok (), record_event fin (src\<lparr>ps_state := Completed\<rparr>))"
    by (subst handle_complete_honest [of _ kt]) (use fin(2) pr in \<open>simp_all add: paired_def built_def\<close>)
  with n6 n7 n8 show ?thesis unfolding tgt3_def by (auto simp: record_event_def)
qed

lemma exchange_completes:
  assumes "crypto_ok E"
    and "fits E (Offer (hex_encode E (derive_session_id E secret)) 1)" "fits E (Payload t p)" "fits E (Complete True)"
    and "\<And>h. length h = 32 \<Longrightarrow> fits E (SasConfirm (hex_encode E h))"
  shows "\<exists>sas src tgt. honest_exchange E R ks kt secret now url t p = Some (sas, sas, (t, p), src, tgt) \<and>
    ps_state src = Completed \<and> ps_state tgt = Completed"
proof -
  obtain src0 qr where n0: "new_source E ks secret now url = (src0, qr)" by fastforce
  from handshake_completes [OF assms(1,2,5) n0, of "R 0" kt "R 1"]
  obtain tgt0 offer sas src1 cf src2 tgt1 tgt2 h where hs:
    "new_target E (R 0) kt now qr = Ok (tgt0, offer)" "handle_offer E now offer src0 = (Ok sas, src1)"
    "confirm_sas E (R 1) now src1 = (Ok cf, src2)" "handle_sas_confirm E now cf tgt0 = (Ok sas, tgt1)"
    "confirm_target_sas now tgt1 = (Ok (), tgt2)" "paired E ks kt now offer cf src2 tgt2"
    "built E kt ks (Offer (hex_encode E (derive_session_id E secret)) 1) offer" "built E ks kt (SasConfirm h) cf"
    by blast
  from transfer_completes [OF assms(1,3,4) hs(6-8), of "R 2" "R 3"] obtain pay src3 tgt3 fin tgt4 src4 where
    "send_payload E (R 2) now t p src2 = (Ok pay, src3)" "handle_payload E now pay tgt2 = (Ok (t, p), tgt3)"
    "send_complete E (R 3) now tgt3 = (Ok fin, tgt4)" "handle_complete E now fin src3 = (Ok (), src4)"
    "ps_state src4 = Completed" "ps_state tgt4 = Completed" by blast
  with hs n0 show ?thesis by (simp add: honest_exchange_def del: One_nat_def)
qed

section \<open>A concrete environment\<close>

text \<open>
  An environment that meets the assumptions: transparent "encryption" with a header of 132
  characters, a key exchange that adds, a tagged text form of messages.
\<close>

definition sample_encode :: "pairing_message \<Rightarrow> string" where
  "sample_encode m = (case m of
     Offer i v \<Rightarrow> CHR ''o'' # show_nat (unat v) @ CHR '':'' # i
   | SasConfirm h \<Rightarrow> CHR ''s'' # h
   | Payload t p \<Rightarrow> CHR ''p'' # (case t of Nsec \<Rightarrow> CHR ''n'' | Bunker \<Rightarrow> CHR ''b'' | Connect \<Rightarrow> CHR ''c'' | Custom \<Rightarrow> CHR ''x'') # p
   | Complete b \<Rightarrow> [CHR ''c'', if b then CHR ''t'' else CHR ''f'']
   | Abort r \<Rightarrow> [CHR ''a'', case r of SasMismatch \<Rightarrow> CHR ''s'' | UserDenied \<Rightarrow> CHR ''u'' | Timeout \<Rightarrow> CHR ''t''
       | ProtocolError \<Rightarrow> CHR ''p'' | UnknownReason \<Rightarrow> CHR ''x''])"

definition sample_decode :: "string \<Rightarrow> (pairing_message, string) result" where
  "sample_decode s = (case s of
     [] \<Rightarrow> Err ''empty''
   | c # r \<Rightarrow>
       if c = CHR ''o'' then Ok (Offer (tl (dropWhile (\<lambda>x. x \<noteq> CHR '':'') r))
         (word_of_nat (read_nat (takeWhile (\<lambda>x. x \<noteq> CHR '':'') r))))
       else if c = CHR ''s'' then Ok (SasConfirm r)
       else if r = [] then Err ''short''
       else if c = CHR ''p'' then Ok (Payload (if hd r = CHR ''n'' then Nsec else if hd r = CHR ''b'' then Bunker
         else if hd r = CHR ''c'' then Connect else Custom) (tl r))
       else if c = CHR ''c'' then Ok (Complete (hd r = CHR ''t''))
       else Ok (Abort (if hd r = CHR ''s'' then SasMismatch else if hd r = CHR ''u'' then UserDenied
         else if hd r = CHR ''t'' then Timeout else if hd r = CHR ''p'' then ProtocolError else UnknownReason)))"

definition sample_env :: crypto_env where
  "sample_env = \<lparr>hkdf_extract = (\<lambda>salt ikm. salt @ ikm),
     hkdf_expand = (\<lambda>prk info n. take n (prk @ info @ replicate n 0)),
     public_key = (\<lambda>sk. CHR ''K'' # sk), pk_bytes = ascii,
     generate_shared_key = (\<lambda>sk pk. Ok [word_of_nat (length sk + length (tl pk))]),
     nip44_encrypt = (\<lambda>n sk pk m. Ok (replicate 132 CHR ''e'' @ m)),
     nip44_decrypt = (\<lambda>sk pk c. Ok (drop 132 c)),
     json_to_string = (\<lambda>m. Ok (sample_encode m)), json_from_str = sample_decode,
     hex_encode = map (\<lambda>b. char_of (unat b)), hex_decode = (\<lambda>s. Some (map (\<lambda>c. word_of_nat (of_char c)) s)),
     sign_with_keys = (\<lambda>sk k c p t. Ok \<lparr>ev_id = c, ev_pubkey = CHR ''K'' # sk, ev_created_at = t, ev_kind = k,
        ev_tags = [\<lparr>tag_kind = ''p'', tag_content = Some p, tag_slice = [''p'', p]\<rparr>], ev_content = c\<rparr>),
     verify = (\<lambda>ev. Ok ())\<rparr>"

lemma show_nat_no_colon: "c \<in> set (show_nat n) \<Longrightarrow> c \<noteq> CHR '':''"
  using show_nat_digits [of n] by (auto simp: list_all_iff is_digit_def)

lemma sample_decode_encode: "sample_decode (sample_encode m) = Ok m"
proof (cases m)
  case (Offer i v)
  have "takeWhile (\<lambda>x. x \<noteq> CHR '':'') (show_nat (unat v) @ CHR '':'' # i) = show_nat (unat v)"
    "dropWhile (\<lambda>x. x \<noteq> CHR '':'') (show_nat (unat v) @ CHR '':'' # i) = CHR '':'' # i"
    using show_nat_no_colon by (auto simp: takeWhile_append2 dropWhile_append2)
  with Offer show ?thesis by (simp add: sample_encode_def sample_decode_def read_show_nat)
next
  case (Payload t p)
  then show ?thesis by (cases t) (simp_all add: sample_encode_def sample_decode_def)
next
  case (Abort r)
  then show ?thesis by (cases r) (simp_all add: sample_encode_def sample_decode_def)
qed (simp_all add: sample_encode_def sample_decode_def)

lemma sample_env_ok: "crypto_ok sample_env"
proof -
  have "map (\<lambda>c. word_of_nat (of_char c)) (map (\<lambda>b. char_of (unat b) :: char) bs) = bs" for bs :: bytes
  proof (induction bs)
    case (Cons b bs)
    have "unat b < 256" using unsigned_less [of b] by simp
    with Cons show ?case by simp
  qed simp
  then show ?thesis
    unfolding crypto_ok_def ecdh_ok_def hkdf_ok_def nip44_ok_def codecs_ok_def signing_ok_def sample_env_def
    by (auto simp: sample_decode_encode names_us_def add.commute)
qed

lemma sample_fits: "length (sample_encode m) \<le> 65535 \<Longrightarrow> fits sample_env m"
  by (auto simp: fits_def sample_env_def sample_encode_def split: pairing_message.splits)

section \<open>Properties\<close>

text \<open>
  C39: Whatever events arrive and whenever a method is called, a session only moves along the
  protocol's transitions for its role, and no step changes its role, its key, its session
  secret or its session id.
\<close>

theorem session_follows_protocol:
  "let s' = snd (act E a s) in
     (ps_state s' = ps_state s \<or> allowed (ps_role s) a (ps_state s) (ps_state s')) \<and>
     ps_role s' = ps_role s \<and> ps_keys s' = ps_keys s \<and> ps_session_secret s' = ps_session_secret s \<and>
     ps_session_id s' = ps_session_id s"
  using act_moves [of E a s "snd (act E a s)"] by (simp add: Let_def)

text \<open>
  A completed or aborted session is final: every method fails and leaves it exactly as it
  is.
\<close>

theorem finished_session_is_final:
  assumes "ps_state s = Completed \<or> ps_state s = Aborted"
  shows "act E a s = (False, s)"
  using assms act_terminal by (simp add: terminal_def)

text \<open>
  C14: A target accepts a secret only from the device of the QR code and only after consent:
  in any run, before \<open>handle_payload\<close> succeeds a \<open>sas-confirm\<close> from the QR code's key was
  verified whose hash equals the target's own transcript, and after it the user confirmed the
  code.
\<close>

theorem secret_needs_confirmed_transcript:
  assumes "new_target E R kt now0 qr = Ok (s0, offer)"
    and "handle_payload E now ev (run E as s0) = (Ok (t, p), s')"
  shows "ev_pubkey ev = qr_source_pubkey qr \<and> is_ok (verify E ev) \<and>
    (\<exists>xs t1 cev ys t2 zs. as = xs @ RecvSasConfirm t1 cev # ys @ ConfirmTarget t2 # zs \<and>
       transcript_ok E cev (run E xs s0) \<and> ev_pubkey cev = qr_source_pubkey qr)"
proof -
  note start = new_target_start [OF assms(1)]
  let ?s = "run E as s0"
  have peer: "ps_peer_pubkey (run E bs s0) = Some (qr_source_pubkey qr)" for bs
    by (simp add: run_peer_target start)
  have acc: "fst (act E (RecvPayload now ev) ?s)" using assms(2) by simp
  have tr: "ps_state ?s = Transferring" by (rule payload_step(1) [OF _ acc]) simp
  have "ps_role ?s = Target" using run_keeps start(1) by simp
  with act_accepts [OF _ acc, of ev] peer have ev: "ev_pubkey ev = qr_source_pubkey qr" "is_ok (verify E ev)"
    by (simp_all add: validate_Ok(1))
  from tr transfer_history [OF _ start(2,1), of E as] obtain xs t1 cev ys t2 zs where
    h: "as = xs @ RecvSasConfirm t1 cev # ys @ ConfirmTarget t2 # zs" "transcript_ok E cev (run E xs s0)" by auto
  moreover have "ev_pubkey cev = qr_source_pubkey qr"
    using h(2) peer by (auto simp: transcript_ok_def)
  ultimately show ?thesis using ev by blast
qed

text \<open>A session sends or receives at most one secret, whatever is done with it.\<close>

theorem at_most_one_payload: "payloads E as s \<le> 1"
  by (rule payloads_le_1)

text \<open>
  C40: what a handler accepts is authentic and fresh: the event verifies, is of the pairing
  kind, addresses this session's key, was not processed before, and comes from the peer once
  there is one (a source still waiting takes its peer from the offer). A processed event is
  refused by every handler and changes nothing.
\<close>

theorem incoming_events_authenticated:
  assumes "incoming a = Some ev"
  shows "(if fst (act E a s)
          then is_ok (verify E ev) \<and> ev_kind ev = PAIRING_KIND \<and>
            list_ex (names_us (public_key E (ps_keys s))) (ev_tags ev) \<and> ev_id ev \<notin> ps_processed_ids s \<and>
            ev_id ev \<in> ps_processed_ids (snd (act E a s)) \<and>
            (case ps_peer_pubkey s of
               Some p \<Rightarrow> ps_role s = Target \<or> ps_state s \<noteq> Waiting \<longrightarrow> ev_pubkey ev = p | None \<Rightarrow> True)
          else True) \<and>
    (if ev_id ev \<in> ps_processed_ids s then act E a s = (False, s) else True)"
proof (rule conjI)
  show "if fst (act E a s)
      then is_ok (verify E ev) \<and> ev_kind ev = PAIRING_KIND \<and>
        list_ex (names_us (public_key E (ps_keys s))) (ev_tags ev) \<and> ev_id ev \<notin> ps_processed_ids s \<and>
        ev_id ev \<in> ps_processed_ids (snd (act E a s)) \<and>
        (case ps_peer_pubkey s of
           Some p \<Rightarrow> ps_role s = Target \<or> ps_state s \<noteq> Waiting \<longrightarrow> ev_pubkey ev = p | None \<Rightarrow> True)
      else True"
    using act_accepts [OF assms, of E s, unfolded validate_Ok(1)] by (simp split: if_split)
  show "if ev_id ev \<in> ps_processed_ids s then act E a s = (False, s) else True"
    using act_invalid_event [OF assms, of E s, unfolded validate_Ok(1)] by (simp split: if_split)
qed

text \<open>
  C21: The protocol works: with cryptography that keeps its promises and messages that fit into
  NIP-44, two honest devices see the same authentication string, the target receives exactly
  the payload the source sent, and both sessions complete.
\<close>

theorem honest_pairing_delivers:
  assumes "crypto_ok E"
    and "fits E (Offer (hex_encode E (derive_session_id E secret)) 1)" "fits E (Payload t p)" "fits E (Complete True)"
    and "\<forall>h. length h = 32 \<longrightarrow> fits E (SasConfirm (hex_encode E h))"
  shows "\<exists>sas src tgt. honest_exchange E R ks kt secret now url t p = Some (sas, sas, (t, p), src, tgt) \<and>
    ps_state src = Completed \<and> ps_state tgt = Completed"
  using exchange_completes [OF assms(1-4)] assms(5) by blast

text \<open>
  The authentication string shown to the user is six decimal digits that denote the SAS
  code, for every code \<open>derive_sas\<close> can return.
\<close>

theorem sas_text_is_six_digits:
  "let code = fst (derive_sas E ecdh secret) in
     length (format_sas code) = 6 \<and> read_nat (format_sas code) = unat code \<and> unat code < 1000000"
proof -
  define code where "code = fst (derive_sas E ecdh secret)"
  have lt: "unat code < 1000000"
    by (simp add: code_def derive_sas_def Let_def unat_mod_distrib)
  have "length (show_nat (unat code)) \<le> 6" using length_show_nat [of "unat code" 6] lt by simp
  then show ?thesis
    using lt by (simp add: code_def [symmetric] format_sas_def Let_def read_nat_zeros read_show_nat)
qed

subsection \<open>Witnesses\<close>

definition sample_rand :: event_rand where
  "sample_rand = \<lparr>er_nonce = 0, er_now = 100, er_jitter = 7\<rparr>"

lemma sample_small_fits:
  "fits sample_env (Payload Nsec ''nsec1'')" "fits sample_env (Complete True)"
  "fits sample_env (Offer (hex_encode sample_env (derive_session_id sample_env [1])) 1)"
  "length h = 32 \<Longrightarrow> fits sample_env (SasConfirm (hex_encode sample_env h))"
proof -
  show "fits sample_env (Payload Nsec ''nsec1'')" "fits sample_env (Complete True)"
    by (rule sample_fits; simp add: sample_encode_def)+
  have len: "length (hex_encode sample_env b) = length b" for b by (simp add: sample_env_def)
  show "length h = 32 \<Longrightarrow> fits sample_env (SasConfirm (hex_encode sample_env h))"
    by (rule sample_fits) (simp add: sample_encode_def len)
  have "length (derive_session_id sample_env [1]) = 32"
    by (simp add: derive_session_id_def hkdf32_length sample_env_ok)
  then show "fits sample_env (Offer (hex_encode sample_env (derive_session_id sample_env [1])) 1)"
    by (intro sample_fits) (simp add: sample_encode_def len show_nat.simps)
qed

definition sample_session :: pairing_session where
  "sample_session = (fst (new_source sample_env ''a'' [1] 0 ''wss://r''))
     \<lparr>ps_state := Completed, ps_processed_ids := {''e1''}\<rparr>"

theorem finished_session_is_final_witness:
  "act sample_env (ConfirmTarget 5) sample_session = (False, sample_session)"
  using finished_session_is_final [of sample_session sample_env "ConfirmTarget 5"] by (simp add: sample_session_def)

definition replayed_event :: event where
  "replayed_event = \<lparr>ev_id = ''e1'', ev_pubkey = ''Kb'', ev_created_at = 0, ev_kind = 24134, ev_tags = [], ev_content = ''x''\<rparr>"

theorem incoming_events_authenticated_witness:
  "act sample_env (RecvAbort replayed_event) (sample_session\<lparr>ps_state := Confirming\<rparr>) =
     (False, sample_session\<lparr>ps_state := Confirming\<rparr>)"
  using incoming_events_authenticated [of "RecvAbort replayed_event" replayed_event sample_env
      "sample_session\<lparr>ps_state := Confirming\<rparr>"]
  by (simp add: sample_session_def replayed_event_def new_source_def)

theorem honest_pairing_delivers_witness:
  "\<exists>sas src tgt. honest_exchange sample_env (\<lambda>_. sample_rand) ''a'' ''b'' [1] 0 ''wss://r'' Nsec ''nsec1'' =
     Some (sas, sas, (Nsec, ''nsec1''), src, tgt) \<and> ps_state src = Completed \<and> ps_state tgt = Completed"
  using honest_pairing_delivers [OF sample_env_ok sample_small_fits(3,1,2)] sample_small_fits(4) by blast

theorem secret_needs_confirmed_transcript_witness:
  "\<exists>qr s0 offer ev as. new_target sample_env sample_rand ''b'' 0 qr = Ok (s0, offer) \<and>
     fst (handle_payload sample_env 0 ev (run sample_env as s0)) = Ok (Nsec, ''nsec1'') \<and>
     ev_pubkey ev = qr_source_pubkey qr \<and> (\<exists>t. ConfirmTarget t \<in> set as)"
proof -
  let ?E = sample_env
  obtain src0 qr where n0: "new_source ?E ''a'' [1] 0 ''wss://r'' = (src0, qr)" by fastforce
  from handshake_completes [OF sample_env_ok sample_small_fits(3,4) n0, of sample_rand "''b''" sample_rand]
  obtain tgt0 offer sas src1 cf src2 tgt1 tgt2 h where hs:
    "new_target ?E sample_rand ''b'' 0 qr = Ok (tgt0, offer)" "handle_sas_confirm ?E 0 cf tgt0 = (Ok sas, tgt1)"
    "confirm_target_sas 0 tgt1 = (Ok (), tgt2)" "paired ?E ''a'' ''b'' 0 offer cf src2 tgt2"
    "built ?E ''b'' ''a'' (Offer (hex_encode ?E (derive_session_id ?E [1])) 1) offer"
    "built ?E ''a'' ''b'' (SasConfirm h) cf"
    by blast
  from transfer_completes [OF sample_env_ok sample_small_fits(1,2) hs(4-6), of sample_rand sample_rand]
  obtain pay tgt3 where pay: "handle_payload ?E 0 pay tgt2 = (Ok (Nsec, ''nsec1''), tgt3)" by blast
  let ?as = "[RecvSasConfirm 0 cf, ConfirmTarget 0]"
  have "run ?E ?as tgt0 = tgt2" using hs(2,3) by simp
  with pay have p: "handle_payload ?E 0 pay (run ?E ?as tgt0) = (Ok (Nsec, ''nsec1''), tgt3)" by simp
  from secret_needs_confirmed_transcript [OF hs(1) p] have "ev_pubkey pay = qr_source_pubkey qr" by blast
  with hs(1) p show ?thesis by (intro exI [of _ qr] exI [of _ tgt0] exI [of _ offer] exI [of _ pay] exI [of _ ?as]) auto
qed

end
