(* ===== verification/AuditLog.thy ===== *)
theory AuditLog
  imports Prelude "HOL-Library.List_Lexorder" "HOL-Library.Char_ord"
begin

text \<open>
  The audit log (\<open>buzz-audit\<close>: \<open>action.rs\<close>, \<open>entry.rs\<close>, \<open>error.rs\<close>, \<open>hash.rs\<close>,
  \<open>service.rs\<close>): an append-only hash chain per community. The table is the list of its rows
  in insertion order; a query is a filter and a sort of it. The advisory lock makes an append
  atomic, so \<open>log\<close> is one step. The database keeps the columns as they are, timestamps at
  microseconds. An append is told whether the database fails before the head is read or while
  the row is written (the transaction then leaves no row); reads are modelled on a database
  that answers.

  SHA-256, RFC 3339 text and the JSON text of scalars and object keys come from other crates
  and are the record \<open>audit_env\<close>. A community id is the 16 bytes of its UUID.
\<close>

section \<open>Data\<close>

type_synonym community_id = "u8 list"

datatype audit_action =
  EventCreated | EventDeleted | ChannelCreated | ChannelUpdated | ChannelDeleted | MemberAdded
| MemberRemoved | AuthSuccess | AuthFailure | RateLimitExceeded | MediaUploaded

fun action_as_str :: "audit_action \<Rightarrow> string" where
  "action_as_str EventCreated = ''event_created''"
| "action_as_str EventDeleted = ''event_deleted''"
| "action_as_str ChannelCreated = ''channel_created''"
| "action_as_str ChannelUpdated = ''channel_updated''"
| "action_as_str ChannelDeleted = ''channel_deleted''"
| "action_as_str MemberAdded = ''member_added''"
| "action_as_str MemberRemoved = ''member_removed''"
| "action_as_str AuthSuccess = ''auth_success''"
| "action_as_str AuthFailure = ''auth_failure''"
| "action_as_str RateLimitExceeded = ''rate_limit_exceeded''"
| "action_as_str MediaUploaded = ''media_uploaded''"

definition ALL_ACTIONS :: "audit_action list" where
  "ALL_ACTIONS = [EventCreated, EventDeleted, ChannelCreated, ChannelUpdated, ChannelDeleted, MemberAdded,
     MemberRemoved, AuthSuccess, AuthFailure, RateLimitExceeded, MediaUploaded]"

definition action_from_str :: "string \<Rightarrow> audit_action option" where
  "action_from_str s = List.find (\<lambda>a. action_as_str a = s) ALL_ACTIONS"

text \<open>A number is its JSON literal; an object its list of entries, with distinct keys.\<close>

datatype json = JNull | JBool bool | JNumber string | JString string | JArray "json list"
  | JObject "(string \<times> json) list"

record audit_env =
  sha256 :: "u8 list \<Rightarrow> u8 list"
  rfc3339 :: "nat \<Rightarrow> u8 list"
  json_scalar :: "json \<Rightarrow> (string, string) result"
  json_key :: "string \<Rightarrow> (string, string) result"

record audit_entry =
  ae_community_id :: community_id
  ae_seq :: int
  ae_hash :: "u8 list"
  ae_prev_hash :: "u8 list option"
  ae_action :: audit_action
  ae_actor_pubkey :: "u8 list option"
  ae_object_id :: "string option"
  ae_detail :: json
  ae_created_at :: nat

record new_audit_entry =
  ne_community_id :: community_id
  ne_action :: audit_action
  ne_actor_pubkey :: "u8 list option"
  ne_object_id :: "string option"
  ne_detail :: json

datatype audit_error = Database string | ChainViolation int | HashMismatch int | UnknownAction | Serialization string

section \<open>Hashing\<close>

definition GENESIS_HASH :: "u8 list" where
  "GENESIS_HASH = replicate 32 0"

text \<open>Nanoseconds cut to microseconds.\<close>

definition to_storage_precision :: "nat \<Rightarrow> nat" where
  "to_storage_precision t = t div 1000 * 1000"

definition text_bytes :: "string \<Rightarrow> u8 list" where
  "text_bytes s = map of_char s"

text \<open>\<open>i64::to_be_bytes\<close>\<close>

definition i64_be_bytes :: "int \<Rightarrow> u8 list" where
  "i64_be_bytes n = map (\<lambda>i. ucast (drop_bit (8 * i) (word_of_int n :: 64 word))) [7, 6, 5, 4, 3, 2, 1, 0]"

text \<open>The loops over elements and over sorted entries: separators, and the first error.\<close>

fun json_elements :: "(string, string) result list \<Rightarrow> bool \<Rightarrow> string \<Rightarrow> (string, string) result" where
  "json_elements [] first out = Ok out"
| "json_elements (v # vs) first out =
     and_then v (\<lambda>t. json_elements vs False ((if first then out else out @ '','') @ t))"

fun json_entries ::
  "(string \<Rightarrow> (string, string) result) \<Rightarrow> (string \<times> (string, string) result) list \<Rightarrow> bool \<Rightarrow> string
     \<Rightarrow> (string, string) result" where
  "json_entries key [] first out = Ok out"
| "json_entries key ((k, v) # es) first out =
     and_then (key k) (\<lambda>kt. and_then v (\<lambda>t.
       json_entries key es False ((if first then out else out @ '','') @ kt @ '':'' @ t)))"

primrec canonical_json :: "audit_env \<Rightarrow> json \<Rightarrow> (string, string) result" where
  "canonical_json E JNull = json_scalar E JNull"
| "canonical_json E (JBool b) = json_scalar E (JBool b)"
| "canonical_json E (JNumber n) = json_scalar E (JNumber n)"
| "canonical_json E (JString s) = json_scalar E (JString s)"
| "canonical_json E (JArray vs) =
     and_then (json_elements (map (canonical_json E) vs) True ''['') (\<lambda>out. Ok (out @ '']''))"
| "canonical_json E (JObject es) =
     and_then (json_entries (json_key E) (sort_key fst (map (map_prod id (canonical_json E)) es)) True ''{'')
       (\<lambda>out. Ok (out @ ''}''))"

definition optional_field :: "u8 list option \<Rightarrow> u8 list" where
  "optional_field f = (case f of Some b \<Rightarrow> 1 # b | None \<Rightarrow> [0])"

text \<open>The bytes fed to the hasher, in order.\<close>

definition preimage :: "audit_env \<Rightarrow> audit_entry \<Rightarrow> (u8 list, audit_error) result" where
  "preimage E e =
     (case canonical_json E (ae_detail e) of
        Inl err \<Rightarrow> Err (Serialization err)
      | Inr detail \<Rightarrow>
          Ok (ae_community_id e @ i64_be_bytes (ae_seq e) @
              rfc3339 E (to_storage_precision (ae_created_at e)) @ text_bytes (action_as_str (ae_action e)) @
              optional_field (ae_actor_pubkey e) @ optional_field (map_option text_bytes (ae_object_id e)) @
              text_bytes detail @
              (case ae_prev_hash e of Some h \<Rightarrow> h | None \<Rightarrow> GENESIS_HASH)))"

definition compute_hash :: "audit_env \<Rightarrow> audit_entry \<Rightarrow> (u8 list, audit_error) result" where
  "compute_hash E e = and_then (preimage E e) (\<lambda>bytes. Ok (sha256 E bytes))"

section \<open>Service\<close>

text \<open>A row has the action as text.\<close>

record audit_row =
  row_action :: string
  row_entry :: audit_entry

type_synonym audit_table = "audit_row list"

definition row_to_audit_entry :: "audit_row \<Rightarrow> (audit_entry, audit_error) result" where
  "row_to_audit_entry row =
     (case action_from_str (row_action row) of
        None \<Rightarrow> Err UnknownAction
      | Some action \<Rightarrow> Ok ((row_entry row)\<lparr>ae_action := action\<rparr>))"

definition of_community :: "community_id \<Rightarrow> audit_table \<Rightarrow> audit_row list" where
  "of_community com rows = filter (\<lambda>r. ae_community_id (row_entry r) = com) rows"

definition by_seq :: "audit_row list \<Rightarrow> audit_row list" where
  "by_seq rows = sort_key (\<lambda>r. ae_seq (row_entry r)) rows"

definition chain_head :: "community_id \<Rightarrow> audit_table \<Rightarrow> audit_row option" where
  "chain_head com rows = (case rev (by_seq (of_community com rows)) of [] \<Rightarrow> None | r # _ \<Rightarrow> Some r)"

text \<open>How the database answers an append: an error up to reading the head, an error from writing the row.\<close>

record db_answer =
  head_error :: "string option"
  insert_error :: "string option"

definition audit_log :: "audit_env \<Rightarrow> db_answer \<Rightarrow> nat \<Rightarrow> new_audit_entry \<Rightarrow> audit_table
    \<Rightarrow> (audit_entry, audit_error) result \<times> audit_table" where
  "audit_log E db now new rows =
     (case head_error db of
        Some msg \<Rightarrow> (Err (Database msg), rows)
      | None \<Rightarrow>
     (let (prev_seq, prev_hash) = (case chain_head (ne_community_id new) rows of
             Some row \<Rightarrow> (ae_seq (row_entry row), Some (ae_hash (row_entry row)))
           | None \<Rightarrow> (0, None));
          entry = \<lparr>ae_community_id = ne_community_id new, ae_seq = prev_seq + 1, ae_hash = [],
                   ae_prev_hash = prev_hash, ae_action = ne_action new, ae_actor_pubkey = ne_actor_pubkey new,
                   ae_object_id = ne_object_id new, ae_detail = ne_detail new,
                   ae_created_at = to_storage_precision now\<rparr>
      in case compute_hash E entry of
           Inl err \<Rightarrow> (Err err, rows)
         | Inr h \<Rightarrow>
             (let entry = entry\<lparr>ae_hash := h\<rparr>
              in case insert_error db of
                   Some msg \<Rightarrow> (Err (Database msg), rows)
                 | None \<Rightarrow>
                     (Ok entry, rows @ [\<lparr>row_action = action_as_str (ae_action entry), row_entry = entry\<rparr>]))))"

fun verify_rows :: "audit_env \<Rightarrow> audit_row list \<Rightarrow> u8 list option \<Rightarrow> (bool, audit_error) result" where
  "verify_rows E [] expected_prev = Ok True"
| "verify_rows E (row # rows) expected_prev =
     and_then (row_to_audit_entry row) (\<lambda>entry.
       if (case expected_prev of Some expected \<Rightarrow> ae_prev_hash entry \<noteq> Some expected | None \<Rightarrow> False)
       then Err (ChainViolation (ae_seq entry))
       else and_then (compute_hash E entry) (\<lambda>computed.
         if computed \<noteq> ae_hash entry then Err (HashMismatch (ae_seq entry))
         else verify_rows E rows (Some (ae_hash entry))))"

definition rows_between :: "community_id \<Rightarrow> int \<Rightarrow> int \<Rightarrow> audit_table \<Rightarrow> audit_row list" where
  "rows_between com from_seq to_seq rows =
     by_seq (filter (\<lambda>r. from_seq \<le> ae_seq (row_entry r) \<and> ae_seq (row_entry r) \<le> to_seq) (of_community com rows))"

definition verify_chain :: "audit_env \<Rightarrow> community_id \<Rightarrow> int \<Rightarrow> int \<Rightarrow> audit_table \<Rightarrow> (bool, audit_error) result" where
  "verify_chain E com from_seq to_seq rows =
     (let selected = rows_between com from_seq to_seq rows
      in if selected = [] then Ok False else verify_rows E selected None)"

fun all_ok :: "('a, 'e) result list \<Rightarrow> ('a list, 'e) result" where
  "all_ok [] = Ok []"
| "all_ok (r # rs) = and_then r (\<lambda>a. and_then (all_ok rs) (\<lambda>as. Ok (a # as)))"

definition get_entries :: "community_id \<Rightarrow> int \<Rightarrow> nat \<Rightarrow> audit_table \<Rightarrow> (audit_entry list, audit_error) result" where
  "get_entries com from_seq limit rows =
     all_ok (map row_to_audit_entry (take limit
       (by_seq (filter (\<lambda>r. from_seq \<le> ae_seq (row_entry r)) (of_community com rows)))))"

end
