(* ===== verification/AuditCorrect.thy ===== *)
theory AuditCorrect
  imports AuditLog
begin

text \<open>
  Correctness of the audit log: every append extends its community's chain, every range of a
  chain verifies, communities are independent, and what a chain's head hash fixes.
\<close>

section \<open>Actions\<close>

lemma action_from_str_iff: "action_from_str s = Some a \<longleftrightarrow> s = action_as_str a"
proof
  show "action_from_str s = Some a \<Longrightarrow> s = action_as_str a"
    by (auto simp: action_from_str_def find_Some_iff)
  show "s = action_as_str a \<Longrightarrow> action_from_str s = Some a"
    by (cases a) (simp_all add: action_from_str_def ALL_ACTIONS_def)
qed

lemma row_to_entry_stored:
  "row_action r = action_as_str (ae_action (row_entry r)) \<Longrightarrow> row_to_audit_entry r = Ok (row_entry r)"
  by (simp add: row_to_audit_entry_def action_from_str_iff [THEN iffD2])

section \<open>Chains\<close>

text \<open>A chain from sequence number \<open>n\<close> on, after an entry with the hash \<open>p\<close>.\<close>

fun chained :: "audit_env \<Rightarrow> audit_row list \<Rightarrow> int \<Rightarrow> u8 list option \<Rightarrow> bool" where
  "chained E [] n p = True"
| "chained E (r # rs) n p \<longleftrightarrow>
     ae_seq (row_entry r) = n \<and> ae_prev_hash (row_entry r) = p \<and>
     row_action r = action_as_str (ae_action (row_entry r)) \<and>
     compute_hash E (row_entry r) = Ok (ae_hash (row_entry r)) \<and>
     chained E rs (n + 1) (Some (ae_hash (row_entry r)))"

definition audit_inv :: "audit_env \<Rightarrow> audit_table \<Rightarrow> bool" where
  "audit_inv E rows \<longleftrightarrow> (\<forall>com. chained E (of_community com rows) 1 None)"

lemma chained_snoc:
  "chained E (rs @ [r]) n p \<longleftrightarrow> chained E rs n p \<and> ae_seq (row_entry r) = n + int (length rs) \<and>
     ae_prev_hash (row_entry r) = (if rs = [] then p else Some (ae_hash (row_entry (last rs)))) \<and>
     row_action r = action_as_str (ae_action (row_entry r)) \<and>
     compute_hash E (row_entry r) = Ok (ae_hash (row_entry r))"
  by (induction rs arbitrary: n p) auto

lemma chained_seqs: "chained E rs n p \<Longrightarrow> r \<in> set rs \<Longrightarrow> n \<le> ae_seq (row_entry r)"
  by (induction rs arbitrary: n p) force+

lemma chained_sorted: "chained E rs n p \<Longrightarrow> sorted (map (\<lambda>r. ae_seq (row_entry r)) rs)"
proof (induction rs arbitrary: n p)
  case (Cons r rs)
  then have "chained E rs (n + 1) (Some (ae_hash (row_entry r)))" "ae_seq (row_entry r) = n" by auto
  with Cons.IH chained_seqs show ?case by fastforce
qed simp

lemma by_seq_chained: "chained E rs n p \<Longrightarrow> by_seq (filter P rs) = filter P rs"
  unfolding by_seq_def by (intro sort_key_id_if_sorted sorted_filter chained_sorted)

lemma by_seq_chained_all: "chained E rs n p \<Longrightarrow> by_seq rs = rs"
  using by_seq_chained [of E rs n p "\<lambda>_. True"] by simp

text \<open>A range of a chain is a chain, starting after whatever precedes it.\<close>

lemma chained_upto:
  "chained E rs n p \<Longrightarrow> from \<le> n \<Longrightarrow>
     chained E (filter (\<lambda>r. from \<le> ae_seq (row_entry r) \<and> ae_seq (row_entry r) \<le> to) rs) n p"
proof (induction rs arbitrary: n p)
  case (Cons r rs)
  then have rest: "chained E rs (n + 1) (Some (ae_hash (row_entry r)))" and n: "ae_seq (row_entry r) = n" by auto
  show ?case
  proof (cases "n \<le> to")
    case True
    with Cons.IH [OF rest] Cons.prems n show ?thesis by auto
  next
    case False
    then have "filter (\<lambda>r. from \<le> ae_seq (row_entry r) \<and> ae_seq (row_entry r) \<le> to) (r # rs) = []"
      using chained_seqs [OF Cons.prems(1)] by (fastforce simp: filter_empty_conv)
    then show ?thesis by simp
  qed
qed simp

lemma chained_range:
  "chained E rs n p \<Longrightarrow>
     \<exists>n' p'. chained E (filter (\<lambda>r. from \<le> ae_seq (row_entry r) \<and> ae_seq (row_entry r) \<le> to) rs) n' p'"
proof (induction rs arbitrary: n p)
  case Nil
  then show ?case by auto
next
  case (Cons r rs)
  then have rest: "chained E rs (n + 1) (Some (ae_hash (row_entry r)))" and n: "ae_seq (row_entry r) = n" by auto
  show ?case
  proof (cases "from \<le> n")
    case True
    from chained_upto [OF Cons.prems this, of to] show ?thesis by blast
  next
    case False
    with Cons.IH [OF rest] n show ?thesis by simp
  qed
qed

lemma verify_chained:
  "chained E rs n p \<Longrightarrow> q = None \<or> q = p \<Longrightarrow> verify_rows E rs q = Ok True"
  by (induction rs arbitrary: n p q) (auto simp: row_to_entry_stored split: option.splits)

lemma chained_suffix:
  "chained E (rs @ [r]) n p \<Longrightarrow> filter (\<lambda>r'. ae_seq (row_entry r) \<le> ae_seq (row_entry r')) rs = []"
proof (induction rs arbitrary: n p)
  case (Cons r0 rs)
  then have rest: "chained E (rs @ [r]) (n + 1) (Some (ae_hash (row_entry r0)))" and "ae_seq (row_entry r0) = n"
    by auto
  moreover have "n + 1 \<le> ae_seq (row_entry r)" using chained_seqs [OF rest] by simp
  ultimately show ?case using Cons.IH [OF rest] by simp
qed simp

section \<open>Appending\<close>

lemma of_community_append:
  "of_community com (rows @ [r]) = of_community com rows @ (if ae_community_id (row_entry r) = com then [r] else [])"
  by (simp add: of_community_def)

lemma chain_head_inv:
  "audit_inv E rows \<Longrightarrow> chain_head com rows =
     (if of_community com rows = [] then None else Some (last (of_community com rows)))"
proof -
  assume "audit_inv E rows"
  then have "by_seq (of_community com rows) = of_community com rows"
    using by_seq_chained_all unfolding audit_inv_def by blast
  then show ?thesis
    by (cases "of_community com rows" rule: rev_cases) (simp_all add: chain_head_def)
qed

lemma compute_hash_ignores_hash [simp]: "compute_hash E (e\<lparr>ae_hash := h\<rparr>) = compute_hash E e"
  by (simp add: compute_hash_def preimage_def split: sum.split)

lemma chained_last_seq:
  "chained E rs n p \<Longrightarrow> rs \<noteq> [] \<Longrightarrow> ae_seq (row_entry (last rs)) = n + int (length rs) - 1"
  by (cases rs rule: rev_cases) (auto simp: chained_snoc)

text \<open>The outcome of an append: an error that changes nothing, or one more row.\<close>

lemma audit_log_outcome:
  assumes "audit_inv E rows"
  obtains (failed) err where "audit_log E db now new rows = (Err err, rows)"
  | (appended) e where "audit_log E db now new rows = (Ok e, rows @ [\<lparr>row_action = action_as_str (ae_action e), row_entry = e\<rparr>])"
      "ae_community_id e = ne_community_id new" "ae_action e = ne_action new" "ae_actor_pubkey e = ne_actor_pubkey new"
      "ae_object_id e = ne_object_id new" "ae_detail e = ne_detail new"
      "ae_seq e = 1 + int (length (of_community (ne_community_id new) rows))"
      "ae_prev_hash e = (if of_community (ne_community_id new) rows = [] then None
         else Some (ae_hash (row_entry (last (of_community (ne_community_id new) rows)))))"
      "compute_hash E e = Ok (ae_hash e)"
proof -
  let ?rs = "of_community (ne_community_id new) rows"
  have ch: "chained E ?rs 1 None" using assms by (simp add: audit_inv_def)
  define e0 where "e0 = \<lparr>ae_community_id = ne_community_id new, ae_seq = int (length ?rs) + 1, ae_hash = [],
      ae_prev_hash = (if ?rs = [] then None else Some (ae_hash (row_entry (last ?rs)))),
      ae_action = ne_action new, ae_actor_pubkey = ne_actor_pubkey new, ae_object_id = ne_object_id new,
      ae_detail = ne_detail new, ae_created_at = to_storage_precision now\<rparr>"
  have log: "audit_log E db now new rows = (case compute_hash E e0 of
      Inl err \<Rightarrow> (Err err, rows)
    | Inr h \<Rightarrow> (case insert_error db of Some msg \<Rightarrow> (Err (Database msg), rows)
        | None \<Rightarrow> (Ok (e0\<lparr>ae_hash := h\<rparr>),
                    rows @ [\<lparr>row_action = action_as_str (ae_action e0), row_entry = e0\<lparr>ae_hash := h\<rparr>\<rparr>])))"
    if "head_error db = None"
  proof (cases "?rs = []")
    case True
    with that show ?thesis
      by (simp add: audit_log_def chain_head_inv [OF assms] Let_def e0_def split: sum.split option.split)
  next
    case False
    with that show ?thesis
      by (simp add: audit_log_def chain_head_inv [OF assms] chained_last_seq [OF ch False] Let_def e0_def
          split: sum.split option.split)
  qed
  show ?thesis
  proof (cases "\<exists>err. audit_log E db now new rows = (Err err, rows)")
    case True
    with failed show ?thesis by blast
  next
    case False
    then have "head_error db = None" by (auto simp: audit_log_def split: option.splits)
    moreover from False log [OF this] obtain h where "compute_hash E e0 = Ok h" "insert_error db = None"
      by (auto split: sum.splits option.splits)
    moreover have "ae_community_id e0 = ne_community_id new" "ae_action e0 = ne_action new"
      "ae_actor_pubkey e0 = ne_actor_pubkey new" "ae_object_id e0 = ne_object_id new" "ae_detail e0 = ne_detail new"
      "ae_seq e0 = 1 + int (length ?rs)"
      "ae_prev_hash e0 = (if ?rs = [] then None else Some (ae_hash (row_entry (last ?rs))))"
      by (simp_all add: e0_def)
    ultimately show ?thesis by (intro appended [of "e0\<lparr>ae_hash := h\<rparr>"]) (simp_all add: log)
  qed
qed

lemma audit_log_other:
  "ne_community_id new \<noteq> com \<Longrightarrow> of_community com (snd (audit_log E db now new rows)) = of_community com rows"
  by (simp add: audit_log_def Let_def of_community_def split: option.split sum.split)

lemma audit_log_fst:
  "chain_head (ne_community_id new) rows = chain_head (ne_community_id new) rows' \<Longrightarrow>
     fst (audit_log E db now new rows) = fst (audit_log E db now new rows')"
  by (simp add: audit_log_def Let_def split: option.split sum.split)

lemma audit_log_inv:
  assumes "audit_inv E rows"
  shows "audit_inv E (snd (audit_log E db now new rows))"
proof (rule audit_log_outcome [OF assms, of db now new])
  show ?thesis if "audit_log E db now new rows = (Err err, rows)" for err
    using that assms by simp
next
  fix e
  assume "audit_log E db now new rows = (Ok e, rows @ [\<lparr>row_action = action_as_str (ae_action e), row_entry = e\<rparr>])"
    "ae_community_id e = ne_community_id new"
    "ae_seq e = 1 + int (length (of_community (ne_community_id new) rows))"
    "ae_prev_hash e = (if of_community (ne_community_id new) rows = [] then None
         else Some (ae_hash (row_entry (last (of_community (ne_community_id new) rows)))))"
    "compute_hash E e = Ok (ae_hash e)"
  with assms show ?thesis
    by (auto simp: audit_inv_def of_community_append chained_snoc)
qed

interpretation audit: step_system "\<lambda>rows. rows = []"
  "\<lambda>rows rows'. \<exists>db now new. rows' = snd (audit_log E db now new rows)" "audit_inv E" for E
proof
  show "audit_inv E s" if "s = []" for s using that by (simp add: audit_inv_def of_community_def)
  show "audit_inv E t" if "audit_inv E s" "\<exists>db now new. t = snd (audit_log E db now new s)" for s t
    using that audit_log_inv by blast
qed

text \<open>A run of the service: appends, each with its clock reading, from the empty table.\<close>

fun audit_run :: "audit_env \<Rightarrow> (db_answer \<times> nat \<times> new_audit_entry) list \<Rightarrow> audit_table \<Rightarrow> audit_table" where
  "audit_run E [] rows = rows"
| "audit_run E ((db, now, new) # appends) rows = audit_run E appends (snd (audit_log E db now new rows))"

lemma audit_run_steps:
  "(\<lambda>rows rows'. \<exists>db now new. rows' = snd (audit_log E db now new rows))\<^sup>*\<^sup>* rows (audit_run E appends rows)"
  by (induction E appends rows rule: audit_run.induct) (auto intro: converse_rtranclp_into_rtranclp)

lemma audit_run_inv: "audit_inv E (audit_run E appends [])"
  using audit.reachable_inv audit_run_steps by blast

section \<open>Properties\<close>

lemma verify_chain_inv:
  assumes "audit_inv E rows"
  shows "verify_chain E com from_seq to_seq rows = Ok (rows_between com from_seq to_seq rows \<noteq> [])"
proof -
  have ch: "chained E (of_community com rows) 1 None" using assms by (simp add: audit_inv_def)
  then obtain n p where "chained E (rows_between com from_seq to_seq rows) n p"
    using chained_range [OF ch, of from_seq to_seq] unfolding rows_between_def by_seq_chained [OF ch] by blast
  then show ?thesis by (simp add: verify_chain_def verify_chained Let_def)
qed


lemma append_ok:
  assumes "audit_log E db now new (audit_run E appends []) = (Ok e, rows')"
  shows "of_community (ne_community_id new) rows' =
           of_community (ne_community_id new) (audit_run E appends []) @
             [\<lparr>row_action = action_as_str (ae_action e), row_entry = e\<rparr>] \<and>
         ae_seq e = int (length (of_community (ne_community_id new) rows')) \<and>
         ae_prev_hash e = map_option (\<lambda>r. ae_hash (row_entry r))
           (chain_head (ne_community_id new) (audit_run E appends [])) \<and>
         (ae_community_id e, ae_action e, ae_actor_pubkey e, ae_object_id e, ae_detail e) =
           (ne_community_id new, ne_action new, ne_actor_pubkey new, ne_object_id new, ne_detail new) \<and>
         compute_hash E e = Ok (ae_hash e) \<and>
         get_entries (ne_community_id new) (ae_seq e) 1 rows' = Ok [e]"
proof -
  let ?rows = "audit_run E appends []" and ?com = "ne_community_id new"
  let ?row = "\<lparr>row_action = action_as_str (ae_action e), row_entry = e\<rparr>"
  note inv = audit_run_inv [of E appends]
  have one: "of_community ?com rows' = of_community ?com ?rows @ [?row]"
    and seq: "ae_seq e = 1 + int (length (of_community ?com ?rows))"
    and fields: "ae_prev_hash e = map_option (\<lambda>r. ae_hash (row_entry r)) (chain_head ?com ?rows)"
      "(ae_community_id e, ae_action e, ae_actor_pubkey e, ae_object_id e, ae_detail e) =
        (?com, ne_action new, ne_actor_pubkey new, ne_object_id new, ne_detail new)"
      "compute_hash E e = Ok (ae_hash e)"
    by (rule audit_log_outcome [OF inv, of db now new];
        use assms in \<open>auto simp: chain_head_inv [OF inv] of_community_append\<close>)+
  have ch: "chained E (of_community ?com rows') 1 None"
    using audit_log_inv [OF inv, of db now new] assms by (simp add: audit_inv_def)
  have "get_entries ?com (ae_seq e) 1 rows' = Ok [e]"
    using chained_suffix [OF ch [unfolded one]]
    by (simp add: get_entries_def by_seq_def of_community_append one row_to_entry_stored)
  with one seq fields show ?thesis by simp
qed

text \<open>
  C24: An append either fails and leaves the table as it was, or adds exactly one row, at the end
  of its community's chain: numbered one more than the entries before it, linked to the hash of
  the entry before it, carrying the fields it was given and the hash of its own content. The
  entry returned is the entry a reader of the chain then gets back.
\<close>

theorem append_extends_chain:
  assumes "audit_log E db now new (audit_run E appends []) = (res, rows')"
  shows "case res of
           Inl err \<Rightarrow> rows' = audit_run E appends []
         | Inr e \<Rightarrow>
             of_community (ne_community_id new) rows' =
               of_community (ne_community_id new) (audit_run E appends []) @
                 [\<lparr>row_action = action_as_str (ae_action e), row_entry = e\<rparr>] \<and>
             ae_seq e = int (length (of_community (ne_community_id new) rows')) \<and>
             ae_prev_hash e = map_option (\<lambda>r. ae_hash (row_entry r))
               (chain_head (ne_community_id new) (audit_run E appends [])) \<and>
             (ae_community_id e, ae_action e, ae_actor_pubkey e, ae_object_id e, ae_detail e) =
               (ne_community_id new, ne_action new, ne_actor_pubkey new, ne_object_id new, ne_detail new) \<and>
             compute_hash E e = Ok (ae_hash e) \<and>
             get_entries (ne_community_id new) (ae_seq e) 1 rows' = Ok [e]"
proof (cases res)
  case (Inl err)
  show ?thesis
    by (rule audit_log_outcome [OF audit_run_inv [of E appends], of db now new])
      (use assms Inl in simp_all)
next
  case (Inr e)
  show ?thesis using append_ok [OF assms [unfolded Inr]] unfolding Inr sum.case .
qed

text \<open>
  C32: Communities do not interfere: an append for one community changes neither the head, nor
  any range, nor any verification or read of another community's chain, and leaves the outcome
  of that community's next append as it was. This holds for every table, tampered ones too.
\<close>

theorem communities_do_not_interfere:
  assumes "ne_community_id new \<noteq> com" "ne_community_id other = com"
    "rows' = snd (audit_log E db now new rows)"
  shows "chain_head com rows' = chain_head com rows \<and>
         verify_chain E com from_seq to_seq rows' = verify_chain E com from_seq to_seq rows \<and>
         get_entries com from_seq limit rows' = get_entries com from_seq limit rows \<and>
         fst (audit_log E db' now' other rows') = fst (audit_log E db' now' other rows)"
proof -
  have com: "of_community com rows' = of_community com rows"
    using assms(1) unfolding assms(3) by (rule audit_log_other)
  then have "chain_head com rows' = chain_head com rows" by (simp add: chain_head_def)
  moreover from this have "fst (audit_log E db' now' other rows') = fst (audit_log E db' now' other rows)"
    using assms(2) by (intro audit_log_fst) simp
  ultimately show ?thesis using com by (simp add: verify_chain_def rows_between_def get_entries_def)
qed

section \<open>What the hashes fix\<close>

text \<open>The bytes a stored row's hash covers.\<close>

definition row_preimage :: "audit_env \<Rightarrow> audit_row \<Rightarrow> (u8 list, audit_error) result" where
  "row_preimage E row = and_then (row_to_audit_entry row) (preimage E)"

lemma verify_rows_cons:
  assumes "verify_rows E (r # rs) q = Ok True"
  obtains b where "row_preimage E r = Ok b" "sha256 E b = ae_hash (row_entry r)"
    "q = None \<or> ae_prev_hash (row_entry r) = q" "verify_rows E rs (Some (ae_hash (row_entry r))) = Ok True"
  using assms
  by (auto simp: row_preimage_def row_to_audit_entry_def compute_hash_def and_then_def
      split: option.splits if_splits sum.splits)

lemma verify_rows_context:
  "(\<And>q. verify_rows E rs q = verify_rows E rs' q) \<Longrightarrow>
     verify_rows E (before @ rs) q = verify_rows E (before @ rs') q"
  by (induction before arbitrary: q) (auto simp: and_then_def split: sum.splits)

text \<open>Verification reads a row only through its action, numbering, links and hashed bytes.\<close>

lemma verify_rows_row_cong:
  assumes "row_action r' = row_action r" "ae_seq (row_entry r') = ae_seq (row_entry r)"
    "ae_prev_hash (row_entry r') = ae_prev_hash (row_entry r)" "ae_hash (row_entry r') = ae_hash (row_entry r)"
    "\<And>a. preimage E ((row_entry r')\<lparr>ae_action := a\<rparr>) = preimage E ((row_entry r)\<lparr>ae_action := a\<rparr>)"
  shows "verify_rows E (r' # rs) q = verify_rows E (r # rs) q"
proof (cases "action_from_str (row_action r)")
  case None
  with assms show ?thesis by (simp add: row_to_audit_entry_def)
next
  case (Some a)
  with assms show ?thesis
    by (cases "preimage E ((row_entry r)\<lparr>ae_action := a\<rparr>)")
      (simp_all add: row_to_audit_entry_def compute_hash_def split: if_split option.split)
qed

lemma length_i64_be_bytes: "length (i64_be_bytes n) = 8"
  by (simp add: i64_be_bytes_def)

text \<open>The eight bytes of an \<open>i64\<close> determine it.\<close>

lemma i64_be_bytes_inj:
  assumes "i64_be_bytes m = i64_be_bytes n" "m \<in> {- (2 ^ 63)..<2 ^ 63}" "n \<in> {- (2 ^ 63)..<2 ^ 63}"
  shows "m = n"
proof -
  let ?w = "\<lambda>n. word_of_int n :: 64 word"
  have bytes: "(ucast (drop_bit (8 * i) (?w m)) :: u8) = ucast (drop_bit (8 * i) (?w n))" if "i < 8" for i
    using assms(1) that unfolding i64_be_bytes_def by (simp add: less_Suc_eq numeral_eq_Suc) fastforce
  have "?w m = ?w n"
  proof (rule bit_word_eqI)
    fix k assume "k < LENGTH(64)"
    then have "k div 8 < 8" "8 * (k div 8) + k mod 8 = k" by auto
    moreover have "bit (ucast (drop_bit (8 * (k div 8)) (?w j)) :: u8) (k mod 8) = bit (?w j) (8 * (k div 8) + k mod 8)" for j
      by (simp add: bit_unsigned_iff bit_drop_bit_eq)
    ultimately show "bit (?w m) k = bit (?w n) k" using bytes by metis
  qed
  moreover have "sint (?w j) = j" if "j \<in> {- (2 ^ 63)..<2 ^ 63}" for j
    using that by (simp add: sint_sbintrunc' signed_take_bit_int_eq_self)
  ultimately show ?thesis using assms(2,3) by metis
qed

lemma preimage_ends_in_prev_hash:
  "preimage E e = Ok b \<Longrightarrow> ae_prev_hash e = Some h \<Longrightarrow> \<exists>a. b = a @ h"
  by (auto simp: preimage_def append_assoc [symmetric] simp del: append_assoc split: sum.splits)

lemma row_preimage_ends_in_prev_hash:
  "row_preimage E r = Ok b \<Longrightarrow> ae_prev_hash (row_entry r) = Some h \<Longrightarrow> \<exists>a. b = a @ h"
  by (auto simp: row_preimage_def row_to_audit_entry_def split: option.splits intro: preimage_ends_in_prev_hash)

lemma preimage_prev_hash:
  assumes "row_preimage E r = Ok b" "row_preimage E r' = Ok b"
    "ae_prev_hash (row_entry r) = Some h" "ae_prev_hash (row_entry r') = Some h'" "length h = length h'"
  shows "h = h'"
proof -
  obtain a c where "b = a @ h" "b = c @ h'"
    using row_preimage_ends_in_prev_hash assms(1-4) by metis
  with assms(5) show ?thesis by simp
qed

text \<open>Two verified segments with the same last hash agree throughout, or collide.\<close>

lemma segments_agree:
  assumes "\<forall>b. length (sha256 E b) = 32"
  shows "verify_rows E rs q = Ok True \<Longrightarrow> verify_rows E rs' q' = Ok True \<Longrightarrow> length rs = length rs' \<Longrightarrow>
     rs \<noteq> [] \<Longrightarrow> ae_hash (row_entry (last rs)) = ae_hash (row_entry (last rs')) \<Longrightarrow>
     \<forall>(r, r') \<in> set (zip rs rs'). \<forall>b b'. row_preimage E r = Ok b \<longrightarrow> row_preimage E r' = Ok b' \<longrightarrow>
       sha256 E b = sha256 E b' \<longrightarrow> b = b' \<Longrightarrow>
     list_all2 (\<lambda>r r'. row_preimage E r = row_preimage E r') rs rs' \<and>
     ae_hash (row_entry (hd rs)) = ae_hash (row_entry (hd rs'))"
proof (induction rs arbitrary: rs' q q')
  case step: (Cons r rs)
  then obtain r' tl' where rs': "rs' = r' # tl'" by (cases rs') auto
  obtain b where b: "row_preimage E r = Ok b" "sha256 E b = ae_hash (row_entry r)"
    "verify_rows E rs (Some (ae_hash (row_entry r))) = Ok True" using step.prems(1) by (rule verify_rows_cons)
  obtain b' where b': "row_preimage E r' = Ok b'" "sha256 E b' = ae_hash (row_entry r')"
    "verify_rows E tl' (Some (ae_hash (row_entry r'))) = Ok True"
    using step.prems(2) unfolding rs' by (rule verify_rows_cons)
  have heads: "ae_hash (row_entry r) = ae_hash (row_entry r') \<and>
      list_all2 (\<lambda>r r'. row_preimage E r = row_preimage E r') rs tl'"
  proof (cases rs)
    case Nil
    with step.prems rs' show ?thesis by simp
  next
    case (Cons s ss)
    with step.prems(3) rs' obtain s' ss' where tl': "tl' = s' # ss'" by (cases tl') auto
    have "length rs = length tl'" "rs \<noteq> []" "ae_hash (row_entry (last rs)) = ae_hash (row_entry (last tl'))"
      using step.prems(3,5) rs' Cons tl' by simp_all
    moreover have "\<forall>(r, r') \<in> set (zip rs tl'). \<forall>b b'. row_preimage E r = Ok b \<longrightarrow> row_preimage E r' = Ok b' \<longrightarrow>
       sha256 E b = sha256 E b' \<longrightarrow> b = b'"
      using step.prems(6) rs' by simp
    ultimately have IH: "list_all2 (\<lambda>r r'. row_preimage E r = row_preimage E r') rs tl'"
      using step.IH [OF b(3) b'(3)] by blast
    obtain c where "row_preimage E s = Ok c" "ae_prev_hash (row_entry s) = Some (ae_hash (row_entry r))"
      using b(3) unfolding Cons by (elim verify_rows_cons) auto
    moreover obtain c' where "row_preimage E s' = Ok c'" "ae_prev_hash (row_entry s') = Some (ae_hash (row_entry r'))"
      using b'(3) unfolding tl' by (elim verify_rows_cons) auto
    moreover have "row_preimage E s = row_preimage E s'" using IH unfolding Cons tl' by simp
    moreover have "length (ae_hash (row_entry r)) = length (ae_hash (row_entry r'))"
      using assms b(2) b'(2) by metis
    ultimately have "ae_hash (row_entry r) = ae_hash (row_entry r')"
      by (intro preimage_prev_hash [of E s c s']) simp_all
    with IH show ?thesis by simp
  qed
  then have "b = b'" using step.prems(6) b b' rs' by auto
  with heads b b' rs' show ?case by simp
qed simp


text \<open>
  An entry cannot be moved to another community's chain or to another position: entries
  that hash the same bytes have the same community (16 bytes) and the same sequence number
  (an \<open>i64\<close>).
\<close>

theorem preimage_fixes_community_and_position:
  assumes "length (ae_community_id e) = 16" "length (ae_community_id e') = 16"
    and "preimage E e = Ok b" "preimage E e' = Ok b"
    and "ae_seq e \<in> {- (2 ^ 63)..<2 ^ 63}" "ae_seq e' \<in> {- (2 ^ 63)..<2 ^ 63}"
  shows "ae_community_id e = ae_community_id e' \<and> ae_seq e = ae_seq e'"
proof -
  obtain t t' where "b = ae_community_id e @ i64_be_bytes (ae_seq e) @ t"
    "b = ae_community_id e' @ i64_be_bytes (ae_seq e') @ t'"
    using assms(3,4) by (auto simp: preimage_def split: sum.splits)
  then have "ae_community_id e = ae_community_id e'"
    "i64_be_bytes (ae_seq e) = i64_be_bytes (ae_seq e')"
    using assms(1,2) by (auto simp: append_eq_append_conv length_i64_be_bytes)
  with assms(5,6) show ?thesis by (auto dest: i64_be_bytes_inj)
qed

text \<open>
  The hashed bytes have no boundary between the object id and the detail: moving the tail
  \<open>t\<close> of a row's object id in front of a numeric detail leaves its hash, and so the verdict on
  every range that holds it, unchanged, although the stored entry is a different one.
\<close>

theorem object_id_detail_boundary_not_hashed:
  assumes "\<forall>n. json_scalar E (JNumber n) = Ok n"
    and "ae_object_id (row_entry r) = Some (s @ t)" "ae_detail (row_entry r) = JNumber u" "t \<noteq> []"
    and "r' = r\<lparr>row_entry := (row_entry r)\<lparr>ae_object_id := Some s, ae_detail := JNumber (t @ u)\<rparr>\<rparr>"
  shows "r' \<noteq> r \<and> row_preimage E r' = row_preimage E r \<and>
         verify_rows E (before @ r' # after) q = verify_rows E (before @ r # after) q"
proof -
  have "r' \<noteq> r" using assms(2,4) by (auto simp: assms(5) dest: arg_cong [of _ _ "\<lambda>r. ae_object_id (row_entry r)"])
  have pre: "preimage E (e\<lparr>ae_object_id := Some s, ae_detail := JNumber (t @ u), ae_action := a\<rparr>) =
      preimage E (e\<lparr>ae_action := a\<rparr>)"
    if "ae_object_id e = Some (s @ t)" "ae_detail e = JNumber u" for e a
    using that assms(1) by (simp add: preimage_def optional_field_def text_bytes_def)
  have "verify_rows E (r' # after) q = verify_rows E (r # after) q" for q
    by (rule verify_rows_row_cong; use pre assms(2,3) in \<open>simp add: assms(5)\<close>)
  then show ?thesis using \<open>r' \<noteq> r\<close> assms(2,3) pre
    by (simp add: verify_rows_context row_preimage_def row_to_audit_entry_def assms(5) split: option.split)
qed

section \<open>Examples\<close>

text \<open>An environment with a length-only hash, and two communities.\<close>

definition sample_env :: audit_env where
  "sample_env = \<lparr>sha256 = (\<lambda>b. replicate 31 0 @ [of_nat (length b)]), rfc3339 = (\<lambda>t. [of_nat t]),
     json_scalar = (\<lambda>j. case j of JNumber n \<Rightarrow> Ok n | JNull \<Rightarrow> Ok ''null'' | _ \<Rightarrow> Err ''unused''), json_key = Ok\<rparr>"

definition sample_db :: db_answer where
  "sample_db = \<lparr>head_error = None, insert_error = None\<rparr>"

definition sample_new :: "u8 \<Rightarrow> new_audit_entry" where
  "sample_new c = \<lparr>ne_community_id = replicate 16 c, ne_action = MemberAdded, ne_actor_pubkey = None,
     ne_object_id = Some ''x1'', ne_detail = JNumber ''2''\<rparr>"

definition sample_entry :: "u8 \<Rightarrow> audit_entry" where
  "sample_entry c = \<lparr>ae_community_id = replicate 16 c, ae_seq = 1, ae_hash = replicate 31 0 @ [74],
     ae_prev_hash = None, ae_action = MemberAdded, ae_actor_pubkey = None, ae_object_id = Some ''x1'',
     ae_detail = JNumber ''2'', ae_created_at = 5000\<rparr>"

definition sample_row :: "u8 \<Rightarrow> audit_row" where
  "sample_row c = \<lparr>row_action = ''member_added'', row_entry = sample_entry c\<rparr>"

lemma sample_log: "audit_log sample_env sample_db 5001 (sample_new 7) [] = (Ok (sample_entry 7), [sample_row 7])"
  by code_simp

lemma sample_verify: "verify_chain sample_env (replicate 16 7) 1 9 [sample_row 7] = Ok True"
  by code_simp

lemma sample_range: "rows_between (replicate 16 7) 1 9 [sample_row 7] = [sample_row 7]"
  by code_simp

definition altered_row :: audit_row where
  "altered_row = (sample_row 7)\<lparr>row_entry := (sample_entry 7)\<lparr>ae_object_id := Some ''x'', ae_detail := JNumber ''12''\<rparr>\<rparr>"

lemma altered_verify:
  "verify_chain sample_env (replicate 16 7) 1 9 [altered_row] = Ok True"
  "rows_between (replicate 16 7) 1 9 [altered_row] = [altered_row]"
  by code_simp+

theorem append_extends_chain_witness:
  "ae_seq (sample_entry 7) = 1 \<and> get_entries (replicate 16 7) 1 1 [sample_row 7] = Ok [sample_entry 7]"
  using append_extends_chain [of sample_env sample_db 5001 "sample_new 7" "[]"] sample_log
  by (simp add: sample_entry_def sample_new_def)

theorem communities_do_not_interfere_witness:
  "verify_chain sample_env (replicate 16 7) 1 9 (snd (audit_log sample_env sample_db 6000 (sample_new 8) [sample_row 7])) = Ok True"
  using communities_do_not_interfere [of "sample_new 8" "replicate 16 7" "sample_new 7" _ sample_env sample_db 6000 "[sample_row 7]" 1 9]
    sample_verify by (simp add: sample_new_def)


theorem preimage_fixes_community_and_position_witness:
  "ae_community_id (sample_entry 7) = replicate 16 7 \<and> ae_seq (sample_entry 7) = 1"
proof -
  obtain b where "preimage sample_env (sample_entry 7) = Ok b"
    by (simp add: preimage_def sample_entry_def sample_env_def)
  from preimage_fixes_community_and_position [OF _ _ this this] show ?thesis
    by (simp add: sample_entry_def)
qed

theorem object_id_detail_boundary_not_hashed_witness:
  "verify_rows sample_env [(sample_row 7)\<lparr>row_entry := (sample_entry 7)\<lparr>ae_object_id := Some ''x'',
     ae_detail := JNumber ''12''\<rparr>\<rparr>] None = verify_rows sample_env [sample_row 7] None"
  using object_id_detail_boundary_not_hashed [of sample_env "sample_row 7" "''x''" "''1''" "''2''" _ "[]" "[]" None]
  by (simp add: sample_env_def sample_row_def sample_entry_def)

end
