(* ===== verification/Connections.thy ===== *)
theory Connections
  imports Prelude
begin

text \<open>
  The relay's live connections (\<open>buzz-relay/src/state.rs\<close>): the connection manager that
  routes frames and tracks back-pressure, and the community registry that closes the sockets
  of an archived community. A channel of the runtime is modelled by what it accepted; whether
  a \<open>try_send\<close> succeeds, finds the buffer full or the receiver gone is an argument, so every
  statement holds for every behaviour of the channel. The cancellation token and the
  back-pressure counter, shared in the code by the manager's entry and the connection's own
  state, are one field here. Counters are \<open>u8\<close> words and wrap as in a release build.
\<close>

section \<open>The connection manager\<close>

datatype ws_message = Text string | CloseFrame nat string

datatype try_send = Sent | Full | Closed

record conn_entry =
  ce_tx :: "ws_message list"
  ce_ctrl_tx :: "ws_message list"
  ce_restart_tx :: bool
  ce_cancelled :: bool
  ce_community_id :: uuid
  ce_backpressure_count :: u8
  ce_authenticated_pubkey :: "pubkey option"
  ce_grace_limit :: u8

record conn_manager =
  connections :: "(uuid, conn_entry) hashmap"
  draining :: bool

definition conn_manager_new :: conn_manager where
  "conn_manager_new = \<lparr>connections = [], draining = False\<rparr>"

definition restart_close_frame :: ws_message where
  "restart_close_frame = CloseFrame 1012 ''relay restarting''"

text \<open>A control frame is queued when the control channel takes it; its refusal is ignored.\<close>

definition queue_ctrl :: "try_send \<Rightarrow> ws_message \<Rightarrow> conn_entry \<Rightarrow> conn_entry" where
  "queue_ctrl out msg e = (if out = Sent then e\<lparr>ce_ctrl_tx := ce_ctrl_tx e @ [msg]\<rparr> else e)"

definition cancel_entry :: "conn_entry \<Rightarrow> conn_entry" where
  "cancel_entry e = e\<lparr>ce_cancelled := True\<rparr>"

definition cm_register ::
  "try_send \<Rightarrow> uuid \<Rightarrow> conn_entry \<Rightarrow> conn_manager \<Rightarrow> conn_manager" where
  "cm_register out conn_id entry cm =
     (let e = entry\<lparr>ce_authenticated_pubkey := None\<rparr>;
          e' = (if draining cm then cancel_entry (queue_ctrl out restart_close_frame e) else e)
      in cm\<lparr>connections := hm_insert conn_id e' (connections cm)\<rparr>)"

definition cm_deregister :: "uuid \<Rightarrow> conn_manager \<Rightarrow> conn_manager" where
  "cm_deregister conn_id cm = cm\<lparr>connections := hm_remove conn_id (connections cm)\<rparr>"

definition set_authenticated_pubkey :: "uuid \<Rightarrow> pubkey \<Rightarrow> conn_manager \<Rightarrow> conn_manager" where
  "set_authenticated_pubkey conn_id pk cm =
     (case map_of (connections cm) conn_id of
        Some e \<Rightarrow> cm\<lparr>connections := hm_insert conn_id (e\<lparr>ce_authenticated_pubkey := Some pk\<rparr>) (connections cm)\<rparr>
      | None \<Rightarrow> cm)"

definition connection_ids_for_pubkey_in_community :: "uuid \<Rightarrow> pubkey \<Rightarrow> conn_manager \<Rightarrow> uuid list" where
  "connection_ids_for_pubkey_in_community com pk cm =
     map fst (filter (\<lambda>(_, e). ce_community_id e = com \<and>
         (case ce_authenticated_pubkey e of Some stored \<Rightarrow> stored = pk | None \<Rightarrow> False)) (connections cm))"

definition pubkey_for_conn :: "uuid \<Rightarrow> conn_manager \<Rightarrow> pubkey option" where
  "pubkey_for_conn conn_id cm =
     (case map_of (connections cm) conn_id of Some e \<Rightarrow> ce_authenticated_pubkey e | None \<Rightarrow> None)"

definition pubkey_for :: "uuid \<Rightarrow> conn_manager \<Rightarrow> pubkey option" where
  "pubkey_for conn_id cm =
     (case map_of (connections cm) conn_id of Some e \<Rightarrow> ce_authenticated_pubkey e | None \<Rightarrow> None)"

definition community_for_conn :: "uuid \<Rightarrow> conn_manager \<Rightarrow> uuid option" where
  "community_for_conn conn_id cm = map_option ce_community_id (map_of (connections cm) conn_id)"

text \<open>The loop of \<open>disconnect_pubkey\<close> over the collected ids; \<open>outs\<close> answers each control send.\<close>

fun disconnect_loop ::
  "uuid \<Rightarrow> ws_message \<Rightarrow> (uuid \<Rightarrow> try_send) \<Rightarrow> uuid list \<Rightarrow> conn_manager \<Rightarrow> nat \<Rightarrow> nat \<times> conn_manager" where
  "disconnect_loop com frame outs [] cm closed = (closed, cm)"
| "disconnect_loop com frame outs (conn_id # ids) cm closed =
     (case map_of (connections cm) conn_id of
        None \<Rightarrow> disconnect_loop com frame outs ids cm closed
      | Some e \<Rightarrow>
          if ce_community_id e \<noteq> com then disconnect_loop com frame outs ids cm closed
          else disconnect_loop com frame outs ids
                 (cm\<lparr>connections := hm_insert conn_id (cancel_entry (queue_ctrl (outs conn_id) frame e)) (connections cm)\<rparr>)
                 (closed + 1))"

definition disconnect_pubkey ::
  "uuid \<Rightarrow> pubkey \<Rightarrow> string \<Rightarrow> (uuid \<Rightarrow> try_send) \<Rightarrow> conn_manager \<Rightarrow> nat \<times> conn_manager" where
  "disconnect_pubkey com pk frame outs cm =
     disconnect_loop com (Text frame) outs (connection_ids_for_pubkey_in_community com pk cm) cm 0"

definition drain_all :: "(uuid \<Rightarrow> try_send) \<Rightarrow> conn_manager \<Rightarrow> nat \<times> conn_manager" where
  "drain_all outs cm =
     (length (connections cm),
      cm\<lparr>draining := True,
         connections := map (\<lambda>(c, e). (c, cancel_entry (queue_ctrl (outs c) restart_close_frame e))) (connections cm)\<rparr>)"

text \<open>
  The jittered drain, after its last delayed close: what the restart channel answered and
  whether the writer acknowledged the flush in time.
\<close>

definition drain_all_jittered ::
  "(uuid \<Rightarrow> try_send) \<Rightarrow> (uuid \<Rightarrow> try_send) \<Rightarrow> (uuid \<Rightarrow> bool) \<Rightarrow> conn_manager \<Rightarrow> nat \<times> conn_manager" where
  "drain_all_jittered outs restart_outs flushed cm =
     (length (connections cm),
      cm\<lparr>draining := True,
         connections := map (\<lambda>(c, e).
           (c, if \<not> ce_restart_tx e then cancel_entry (queue_ctrl (outs c) restart_close_frame e)
               else if restart_outs c \<noteq> Sent then cancel_entry e
               else if \<not> flushed c then cancel_entry e
               else e)) (connections cm)\<rparr>)"

definition per_community_ws_connections :: "conn_manager \<Rightarrow> (uuid, nat) hashmap" where
  "per_community_ws_connections cm =
     fold (\<lambda>(_, e) counts.
         hm_insert (ce_community_id e)
           ((case map_of counts (ce_community_id e) of None \<Rightarrow> 0 | Some n \<Rightarrow> n) + 1) counts)
       (connections cm) []"

definition per_community_users_online :: "conn_manager \<Rightarrow> (uuid, nat) hashmap" where
  "per_community_users_online cm =
     map (map_prod id length)
       (fold (\<lambda>(_, e) seen.
           case ce_authenticated_pubkey e of
             None \<Rightarrow> seen
           | Some pk \<Rightarrow> hm_insert (ce_community_id e) (List.insert pk (hm_vec seen (ce_community_id e))) seen)
         (connections cm) [])"

text \<open>
  The match on a data send, the same in \<open>ConnectionManager::try_send_ws_message\<close> and
  \<open>ConnectionState::send\<close>.
\<close>

definition send_entry :: "try_send \<Rightarrow> ws_message \<Rightarrow> conn_entry \<Rightarrow> bool \<times> conn_entry" where
  "send_entry out msg e =
     (case out of
        Sent \<Rightarrow> (True, e\<lparr>ce_tx := ce_tx e @ [msg], ce_backpressure_count := 0\<rparr>)
      | Full \<Rightarrow>
          (let count = ce_backpressure_count e + 1;
               e' = e\<lparr>ce_backpressure_count := count\<rparr>
           in (False, if count \<ge> ce_grace_limit e then cancel_entry e' else e'))
      | Closed \<Rightarrow> (False, e))"

definition try_send_ws_message :: "try_send \<Rightarrow> uuid \<Rightarrow> ws_message \<Rightarrow> conn_manager \<Rightarrow> bool \<times> conn_manager" where
  "try_send_ws_message out conn_id msg cm =
     (case map_of (connections cm) conn_id of
        None \<Rightarrow> (False, cm)
      | Some e \<Rightarrow>
          (let (sent, e') = send_entry out msg e
           in (sent, cm\<lparr>connections := hm_insert conn_id e' (connections cm)\<rparr>)))"

definition send_to :: "try_send \<Rightarrow> uuid \<Rightarrow> string \<Rightarrow> conn_manager \<Rightarrow> bool \<times> conn_manager" where
  "send_to out conn_id msg cm = try_send_ws_message out conn_id (Text msg) cm"

section \<open>The community registry\<close>

datatype disconnect_reason = CommunityDeleted

definition close_message :: "disconnect_reason \<Rightarrow> ws_message" where
  "close_message reason = (case reason of CommunityDeleted \<Rightarrow> CloseFrame 1008 ''community deleted'')"

record community_control =
  cc_cancelled :: bool
  cc_reason :: "disconnect_reason option"

type_synonym community_registry = "(uuid, uuid \<times> community_control) hashmap"

definition community_control_new :: community_control where
  "community_control_new = \<lparr>cc_cancelled = False, cc_reason = None\<rparr>"

definition control_disconnect_community :: "community_control \<Rightarrow> community_control" where
  "control_disconnect_community c = c\<lparr>cc_reason := Some CommunityDeleted, cc_cancelled := True\<rparr>"

definition cr_register :: "uuid \<Rightarrow> uuid \<Rightarrow> community_control \<Rightarrow> community_registry \<Rightarrow> community_registry" where
  "cr_register connection_id com control reg = hm_insert connection_id (com, control) reg"

definition cr_disconnect_community :: "uuid \<Rightarrow> community_registry \<Rightarrow> nat \<times> community_registry" where
  "cr_disconnect_community com reg =
     (length (filter (\<lambda>(_, (c, _)). c = com) reg),
      map (\<lambda>(i, (c, control)). (i, (c, if c = com then control_disconnect_community control else control))) reg)"

definition bound_communities :: "community_registry \<Rightarrow> uuid list" where
  "bound_communities reg = remdups (map (\<lambda>(_, (c, _)). c) reg)"

text \<open>The guard's \<open>drop\<close>.\<close>

definition cr_drop :: "uuid \<Rightarrow> community_registry \<Rightarrow> community_registry" where
  "cr_drop connection_id reg = hm_remove connection_id reg"

fun revalidate_loop ::
  "(uuid \<Rightarrow> (bool, string) result) \<Rightarrow> uuid list \<Rightarrow> nat \<Rightarrow> (uuid \<times> string) list \<Rightarrow> community_registry
     \<Rightarrow> nat \<times> (uuid \<times> string) list \<times> community_registry" where
  "revalidate_loop check_active [] closed failures reg = (closed, failures, reg)"
| "revalidate_loop check_active (com # coms) closed failures reg =
     (case check_active com of
        Inr False \<Rightarrow>
          (let (n, reg') = cr_disconnect_community com reg
           in revalidate_loop check_active coms (closed + n) failures reg')
      | Inr True \<Rightarrow> revalidate_loop check_active coms closed failures reg
      | Inl e \<Rightarrow> revalidate_loop check_active coms closed (failures @ [(com, e)]) reg)"

definition revalidate_registered_communities ::
  "(uuid \<Rightarrow> (bool, string) result) \<Rightarrow> community_registry
     \<Rightarrow> nat \<times> (uuid \<times> string) list \<times> community_registry" where
  "revalidate_registered_communities check_active reg =
     revalidate_loop check_active (bound_communities reg) 0 [] reg"

end
