(* ===== verification/Delivery.thy ===== *)
theory Delivery
  imports SubRegistry Connections AuditLog
begin

text \<open>
  Live delivery (\<open>buzz-relay/src/handlers/event.rs\<close> with the caches of \<open>state.rs\<close>): the access
  filter every live send passes, and the three paths that fan an event out: relay-local events,
  events from other nodes, and stored events after their commit. The recipients come from the
  subscription registry, the frames go to the connection manager.

  The caches are maps; their expiry is not modelled, because the statements hold for whatever
  they contain. What the database, the event serializer, the channels of the runtime and the
  message bus answer during one call is the record \<open>delivery_env\<close>. A frame cache that lacks a
  recipient is a panic of the code and \<open>None\<close> here.
\<close>

section \<open>State\<close>

record threaded_visibility =
  tv_community_id :: uuid
  tv_channel_id :: uuid
  tv_visibility :: string

record relay_state =
  rl_conns :: conn_manager
  rl_registry :: registry
  rl_local_event_ids :: "(uuid \<times> event_id) list"
  rl_membership_cache :: "(uuid \<times> uuid \<times> pubkey, bool) hashmap"
  rl_accessible_cache :: "(uuid \<times> pubkey, uuid list) hashmap"
  rl_visibility_cache :: "(uuid \<times> uuid, string) hashmap"
  rl_audit_tx :: "new_audit_entry list option"

record delivery_env =
  db_is_member :: "uuid \<Rightarrow> uuid \<Rightarrow> pubkey \<Rightarrow> (bool, string) result"
  db_get_channel_visibility :: "uuid \<Rightarrow> uuid \<Rightarrow> (string, string) result"
  db_get_accessible_channel_ids :: "uuid \<Rightarrow> pubkey \<Rightarrow> (uuid list, string) result"
  event_json :: "event \<Rightarrow> (string, string) result"
  data_sends :: "nat \<Rightarrow> try_send"
  publish_ok :: bool
  audit_open :: bool
  relay_pubkey :: pubkey
  community_bytes :: "uuid \<Rightarrow> u8 list"
  hex_bytes :: "string \<Rightarrow> u8 list option"

section \<open>Caches\<close>

definition mark_local_event :: "uuid \<Rightarrow> event_id \<Rightarrow> relay_state \<Rightarrow> relay_state" where
  "mark_local_event com i st = st\<lparr>rl_local_event_ids := List.insert (com, i) (rl_local_event_ids st)\<rparr>"

definition invalidate_local_event :: "uuid \<Rightarrow> event_id \<Rightarrow> relay_state \<Rightarrow> relay_state" where
  "invalidate_local_event com i st = st\<lparr>rl_local_event_ids := removeAll (com, i) (rl_local_event_ids st)\<rparr>"

definition is_member_cached ::
  "delivery_env \<Rightarrow> uuid \<Rightarrow> uuid \<Rightarrow> pubkey \<Rightarrow> relay_state \<Rightarrow> (bool, string) result \<times> relay_state" where
  "is_member_cached env com ch pk st =
     (case map_of (rl_membership_cache st) (com, ch, pk) of
        Some cached \<Rightarrow> (Ok cached, st)
      | None \<Rightarrow>
          (case db_is_member env com ch pk of
             Inl e \<Rightarrow> (Err e, st)
           | Inr r \<Rightarrow> (Ok r, st\<lparr>rl_membership_cache := hm_insert (com, ch, pk) r (rl_membership_cache st)\<rparr>)))"

definition get_accessible_channel_ids_cached ::
  "delivery_env \<Rightarrow> uuid \<Rightarrow> pubkey \<Rightarrow> relay_state \<Rightarrow> (uuid list, string) result \<times> relay_state" where
  "get_accessible_channel_ids_cached env com pk st =
     (case map_of (rl_accessible_cache st) (com, pk) of
        Some cached \<Rightarrow> (Ok cached, st)
      | None \<Rightarrow>
          (case db_get_accessible_channel_ids env com pk of
             Inl e \<Rightarrow> (Err e, st)
           | Inr r \<Rightarrow> (Ok r, st\<lparr>rl_accessible_cache := hm_insert (com, pk) r (rl_accessible_cache st)\<rparr>)))"

definition channel_visibility_cached ::
  "delivery_env \<Rightarrow> uuid \<Rightarrow> uuid \<Rightarrow> string option \<Rightarrow> relay_state \<Rightarrow> (string, string) result \<times> relay_state" where
  "channel_visibility_cached env com ch prefetched st =
     (case map_of (rl_visibility_cache st) (com, ch) of
        Some cached \<Rightarrow> (Ok cached, st)
      | None \<Rightarrow>
          (case (case prefetched of Some v \<Rightarrow> Ok v | None \<Rightarrow> db_get_channel_visibility env com ch) of
             Inl e \<Rightarrow> (Err e, st)
           | Inr visibility \<Rightarrow>
               (Ok visibility,
                if visibility = ''private''
                then st\<lparr>rl_visibility_cache := hm_insert (com, ch) visibility (rl_visibility_cache st)\<rparr>
                else st)))"

datatype cache_invalidation = Membership uuid pubkey | AccessibleAll | VisibilityOf uuid | ChannelDeletedAll

definition invalidate_membership_local :: "uuid \<Rightarrow> uuid \<Rightarrow> pubkey \<Rightarrow> relay_state \<Rightarrow> relay_state" where
  "invalidate_membership_local com ch pk st =
     st\<lparr>rl_membership_cache := hm_remove (com, ch, pk) (rl_membership_cache st),
        rl_accessible_cache := hm_remove (com, pk) (rl_accessible_cache st)\<rparr>"

definition invalidate_all_accessible_channels_local :: "uuid \<Rightarrow> relay_state \<Rightarrow> relay_state" where
  "invalidate_all_accessible_channels_local com st =
     st\<lparr>rl_accessible_cache := filter (\<lambda>((c, _), _). c \<noteq> com) (rl_accessible_cache st)\<rparr>"

definition invalidate_channel_visibility_local :: "uuid \<Rightarrow> uuid \<Rightarrow> relay_state \<Rightarrow> relay_state" where
  "invalidate_channel_visibility_local com ch st =
     st\<lparr>rl_visibility_cache := hm_remove (com, ch) (rl_visibility_cache st)\<rparr>"

definition invalidate_channel_deleted_local :: "uuid \<Rightarrow> relay_state \<Rightarrow> relay_state" where
  "invalidate_channel_deleted_local com st =
     st\<lparr>rl_membership_cache := filter (\<lambda>((c, _, _), _). c \<noteq> com) (rl_membership_cache st),
        rl_accessible_cache := filter (\<lambda>((c, _), _). c \<noteq> com) (rl_accessible_cache st),
        rl_visibility_cache := filter (\<lambda>((c, _), _). c \<noteq> com) (rl_visibility_cache st)\<rparr>"

fun apply_cache_invalidation :: "uuid \<Rightarrow> cache_invalidation \<Rightarrow> relay_state \<Rightarrow> relay_state" where
  "apply_cache_invalidation com (Membership ch pk) st = invalidate_membership_local com ch pk st"
| "apply_cache_invalidation com AccessibleAll st = invalidate_all_accessible_channels_local com st"
| "apply_cache_invalidation com (VisibilityOf ch) st = invalidate_channel_visibility_local com ch st"
| "apply_cache_invalidation com ChannelDeletedAll st = invalidate_channel_deleted_local com st"

section \<open>Frames\<close>

definition event_frame_for_sub :: "string \<Rightarrow> string \<Rightarrow> string" where
  "event_frame_for_sub sub_id json =
     [CHR 0x5B, CHR 0x22] @ ''EVENT'' @ [CHR 0x22, CHR 0x2C, CHR 0x22] @ sub_id @ [CHR 0x22, CHR 0x2C] @ json @ [CHR 0x5D]"

definition fanout_frame_cache :: "string list \<Rightarrow> string \<Rightarrow> (string, string) hashmap" where
  "fanout_frame_cache sub_ids json =
     fold (\<lambda>sub_id frames. case map_of frames sub_id of
              Some _ \<Rightarrow> frames
            | None \<Rightarrow> hm_insert sub_id (event_frame_for_sub sub_id json) frames) sub_ids []"

fun send_fanout_frames ::
  "(nat \<Rightarrow> try_send) \<Rightarrow> nat \<Rightarrow> conn_sub list \<Rightarrow> (string, string) hashmap \<Rightarrow> nat \<Rightarrow> conn_manager
     \<Rightarrow> (nat \<times> conn_manager) option" where
  "send_fanout_frames sends i [] frames drop_count cm = Some (drop_count, cm)"
| "send_fanout_frames sends i ((conn_id, sub_id) # recipients) frames drop_count cm =
     (case map_of frames sub_id of
        None \<Rightarrow> None
      | Some frame \<Rightarrow>
          (let (sent, cm') = try_send_ws_message (sends i) conn_id (Text frame) cm
           in send_fanout_frames sends (i + 1) recipients frames (if sent then drop_count else drop_count + 1) cm'))"

section \<open>The access filter\<close>

fun allow_members ::
  "delivery_env \<Rightarrow> uuid \<Rightarrow> uuid \<Rightarrow> conn_sub list \<Rightarrow> conn_sub list \<Rightarrow> relay_state \<Rightarrow> conn_sub list \<times> relay_state" where
  "allow_members env com ch [] allowed st = (allowed, st)"
| "allow_members env com ch ((conn_id, sub_id) # matches) allowed st =
     (case pubkey_for_conn conn_id (rl_conns st) of
        None \<Rightarrow> allow_members env com ch matches allowed st
      | Some pubkey \<Rightarrow>
          (case is_member_cached env com ch pubkey st of
             (Inr True, st') \<Rightarrow> allow_members env com ch matches (allowed @ [(conn_id, sub_id)]) st'
           | (_, st') \<Rightarrow> allow_members env com ch matches allowed st'))"

definition filter_fanout_by_access ::
  "delivery_env \<Rightarrow> uuid \<Rightarrow> stored_event \<Rightarrow> conn_sub list \<Rightarrow> threaded_visibility option \<Rightarrow> relay_state
     \<Rightarrow> conn_sub list \<times> relay_state" where
  "filter_fanout_by_access env com stored matches threaded st =
     (let cm = rl_conns st;
          ev = se_event stored;
          author = ev_pubkey ev;
          matches = filter (\<lambda>(conn_id, _). community_for_conn conn_id cm = Some com) matches;
          matches = (if event_kind_u32 ev \<in> set AUTHOR_ONLY_KINDS
                     then filter (\<lambda>(conn_id, _).
                            case pubkey_for_conn conn_id cm of Some pk \<Rightarrow> pk = author | None \<Rightarrow> False) matches
                     else matches);
          matches = (if is_shared_gated_kind (event_kind_u32 ev)
                     then filter (\<lambda>(conn_id, _).
                            case pubkey_for_conn conn_id cm of
                              None \<Rightarrow> False
                            | Some pk \<Rightarrow> if pk = author then True else \<not> is_unshared_gated_event ev pk) matches
                     else matches)
      in case se_channel_id stored of
           None \<Rightarrow> (matches, st)
         | Some ch \<Rightarrow>
             (let (visibility, st) =
                    (case threaded of
                       Some t \<Rightarrow>
                         if tv_community_id t = com \<and> tv_channel_id t = ch then (Ok (tv_visibility t), st)
                         else channel_visibility_cached env com ch None st
                     | None \<Rightarrow> channel_visibility_cached env com ch None st)
              in case visibility of
                   Inl _ \<Rightarrow> ([], st)
                 | Inr v \<Rightarrow> if v \<noteq> ''private'' then (matches, st) else allow_members env com ch matches [] st))"

section \<open>The fan-out paths\<close>

text \<open>The common tail: serialize once, build the frames, send.\<close>

definition deliver_frames :: "delivery_env \<Rightarrow> event \<Rightarrow> conn_sub list \<Rightarrow> relay_state \<Rightarrow> relay_state option" where
  "deliver_frames env ev recipients st =
     (case event_json env ev of
        Inl _ \<Rightarrow> Some st
      | Inr json \<Rightarrow>
          map_option (\<lambda>(_, cm). st\<lparr>rl_conns := cm\<rparr>)
            (send_fanout_frames (data_sends env) 0 recipients (fanout_frame_cache (map snd recipients) json) 0 (rl_conns st)))"

definition fan_out_event_to_local_subscribers ::
  "delivery_env \<Rightarrow> uuid \<Rightarrow> stored_event \<Rightarrow> relay_state \<Rightarrow> relay_state option" where
  "fan_out_event_to_local_subscribers env com stored st =
     (let matches = fan_out_scoped com stored (rl_registry st);
          (matches, st) = filter_fanout_by_access env com stored matches None st
      in if matches = [] then Some st else deliver_frames env (se_event stored) matches st)"

datatype event_topic = TopicChannel uuid | TopicGlobal

definition topic_channel :: "event_topic \<Rightarrow> uuid option" where
  "topic_channel topic = (case topic of TopicChannel i \<Rightarrow> Some i | TopicGlobal \<Rightarrow> None)"

definition fan_out_pubsub_event ::
  "delivery_env \<Rightarrow> nat \<Rightarrow> uuid \<Rightarrow> event_topic \<Rightarrow> event \<Rightarrow> relay_state \<Rightarrow> relay_state option" where
  "fan_out_pubsub_event env now com topic ev st =
     (let stored = stored_event_new now ev (topic_channel topic)
      in if (com, ev_id ev) \<in> set (rl_local_event_ids st) then Some (invalidate_local_event com (ev_id ev) st)
         else
           (let matches = fan_out_scoped com stored (rl_registry st);
                (matches, st) = filter_fanout_by_access env com stored matches None st
            in if matches = [] then Some st else deliver_frames env ev matches st))"

definition enqueue_event_created_audit ::
  "delivery_env \<Rightarrow> uuid \<Rightarrow> stored_event \<Rightarrow> u32 \<Rightarrow> string \<Rightarrow> string \<Rightarrow> relay_state \<Rightarrow> relay_state" where
  "enqueue_event_created_audit env com stored kind actor_pubkey_hex event_id_hex st =
     (case rl_audit_tx st of
        None \<Rightarrow> st
      | Some queue \<Rightarrow>
          (let entry = \<lparr>ne_community_id = community_bytes env com, ne_action = EventCreated,
                        ne_actor_pubkey = hex_bytes env actor_pubkey_hex, ne_object_id = Some event_id_hex,
                        ne_detail = JObject [(''event_kind'', JNumber (show_nat (unat kind))),
                          (''channel_id'', case se_channel_id stored of None \<Rightarrow> JNull | Some c \<Rightarrow> JString c)]\<rparr>
           in if audit_open env then st\<lparr>rl_audit_tx := Some (queue @ [entry])\<rparr> else st))"

text \<open>The first \<open>p\<close> tag with a content.\<close>

definition private_event_owner :: "u32 \<Rightarrow> event \<Rightarrow> string option" where
  "private_event_owner kind ev =
     (if kind = KIND_DM_VISIBILITY \<or> kind = KIND_AGENT_TURN_METRIC
      then (case tag_values ev ''p'' of [] \<Rightarrow> None | owner # _ \<Rightarrow> Some owner)
      else None)"

definition owner_recipients :: "u32 \<Rightarrow> event \<Rightarrow> conn_manager \<Rightarrow> conn_sub list \<Rightarrow> conn_sub list" where
  "owner_recipients kind ev cm matches =
     (case private_event_owner kind ev of
        None \<Rightarrow> matches
      | Some owner \<Rightarrow>
          filter (\<lambda>(conn_id, _). case pubkey_for conn_id cm of Some pk \<Rightarrow> pk = owner | None \<Rightarrow> False) matches)"

definition triggers_workflow :: "delivery_env \<Rightarrow> u32 \<Rightarrow> event \<Rightarrow> bool" where
  "triggers_workflow env kind ev =
     (let is_relay_workflow_msg = ev_pubkey ev = relay_pubkey env \<and>
            list_ex (\<lambda>t. tag_slice t \<noteq> [] \<and> hd (tag_slice t) = ''buzz:workflow'') (ev_tags ev)
      in \<not> is_workflow_execution_kind kind \<and> \<not> is_command_kind kind \<and> \<not> is_relay_workflow_msg \<and>
         kind \<noteq> KIND_GIFT_WRAP)"

record dispatch_result =
  dr_matches :: nat
  dr_published :: "(event_topic \<times> event) option"
  dr_workflow :: bool

definition dispatch_persistent_event_inner ::
  "delivery_env \<Rightarrow> uuid \<Rightarrow> stored_event \<Rightarrow> u32 \<Rightarrow> string \<Rightarrow> bool \<Rightarrow> threaded_visibility option \<Rightarrow> relay_state
     \<Rightarrow> (dispatch_result \<times> relay_state) option" where
  "dispatch_persistent_event_inner env com stored kind actor enqueue_audit threaded st0 =
     (let ev = se_event stored;
          topic = (case se_channel_id stored of Some c \<Rightarrow> TopicChannel c | None \<Rightarrow> TopicGlobal);
          st1 = mark_local_event com (ev_id ev) st0;
          st2 = (if publish_ok env then st1 else invalidate_local_event com (ev_id ev) st1);
          published = (if publish_ok env then Some (topic, ev) else None);
          matches = fan_out_scoped com stored (rl_registry st2);
          (matches, st3) = filter_fanout_by_access env com stored matches threaded st2
      in case event_json env ev of
           Inl _ \<Rightarrow> Some (\<lparr>dr_matches = 0, dr_published = published, dr_workflow = False\<rparr>, st3)
         | Inr json \<Rightarrow>
             (let recipients = owner_recipients kind ev (rl_conns st3) matches
              in map_option (\<lambda>st4.
                   (let st5 = (if enqueue_audit
                               then enqueue_event_created_audit env com stored kind actor (ev_id ev) st4 else st4)
                    in (\<lparr>dr_matches = length matches, dr_published = published,
                         dr_workflow = triggers_workflow env kind ev\<rparr>, st5)))
                   (deliver_frames env ev recipients st3)))"

text \<open>The awaited part and the spawned task, run to its end.\<close>

definition dispatch_persistent_event ::
  "delivery_env \<Rightarrow> uuid \<Rightarrow> stored_event \<Rightarrow> u32 \<Rightarrow> string \<Rightarrow> threaded_visibility option \<Rightarrow> relay_state
     \<Rightarrow> (dispatch_result \<times> relay_state) option" where
  "dispatch_persistent_event env com stored kind actor threaded st =
     dispatch_persistent_event_inner env com stored kind actor False threaded
       (enqueue_event_created_audit env com stored kind actor (ev_id (se_event stored)) st)"

end
