(* ===== verification/ReadGates.thy ===== *)
theory ReadGates
  imports SubRegistry
begin

text \<open>
  Read authorization of the relay (\<open>buzz-relay/src/handlers/req.rs\<close>): the gates a request's
  filters pass before any query runs, the gate each result passes, and the channels a
  request names. \<open>uuid::parse_str\<close> belongs to the \<open>uuid\<close> crate and is an argument.
\<close>

text \<open>\<open>kind.as_u16() as u32\<close>.\<close>

abbreviation kind_u32 :: "u16 \<Rightarrow> u32" where
  "kind_u32 k \<equiv> ucast k"

section \<open>Filter gates\<close>

text \<open>\<open>generic_tags.get(#p)\<close> is there, not empty, and names the reader only.\<close>

definition p_tag_only_self :: "nostr_filter \<Rightarrow> pubkey \<Rightarrow> bool" where
  "p_tag_only_self f authed =
     is_some_and (\<lambda>values. values \<noteq> [] \<and> list_all (\<lambda>v. v = authed) values) (map_of (f_generic_tags f) ''p'')"

text \<open>\<open>authors\<close> is there, not empty, and names the reader only.\<close>

definition authors_only_self :: "nostr_filter \<Rightarrow> pubkey \<Rightarrow> bool" where
  "authors_only_self f authed =
     is_some_and (\<lambda>authors. authors \<noteq> [] \<and> list_all (\<lambda>a. eq_ignore_ascii_case a authed) authors) (f_authors f)"

definition has_ids :: "nostr_filter \<Rightarrow> bool" where
  "has_ids f = is_some_and (\<lambda>ids. ids \<noteq> []) (f_ids f)"

definition p_gated_filters_authorized :: "nostr_filter list \<Rightarrow> pubkey \<Rightarrow> bool" where
  "p_gated_filters_authorized filters authed =
     list_all (\<lambda>f.
       let can_match_p_gated = is_none_or (list_ex (\<lambda>k. kind_u32 k \<in> set P_GATED_KINDS)) (f_kinds f);
           no_ids_exemption = is_some_and (list_ex (\<lambda>k. kind_u32 k = KIND_DM_VISIBILITY \<or>
               kind_u32 k = KIND_AGENT_TURN_METRIC)) (f_kinds f)
       in if \<not> can_match_p_gated then True
          else if \<not> no_ids_exemption \<and> has_ids f then True
          else p_tag_only_self f authed) filters"

definition engram_filters_authorized :: "nostr_filter list \<Rightarrow> pubkey \<Rightarrow> bool" where
  "engram_filters_authorized filters authed =
     list_all (\<lambda>f.
       if has_ids f then True
       else if \<not> is_none_or (list_ex (\<lambda>k. kind_u32 k = KIND_AGENT_ENGRAM)) (f_kinds f) then True
       else if authors_only_self f authed then True
       else p_tag_only_self f authed) filters"

definition author_only_filters_authorized :: "nostr_filter list \<Rightarrow> pubkey \<Rightarrow> bool" where
  "author_only_filters_authorized filters authed =
     list_all (\<lambda>f.
       let targets_only_author_only = is_some_and (\<lambda>ks. ks \<noteq> [] \<and>
             list_all (\<lambda>k. kind_u32 k \<in> set AUTHOR_ONLY_KINDS) ks) (f_kinds f)
       in if \<not> targets_only_author_only then True else authors_only_self f authed) filters"

definition filter_can_match_author_only_kinds :: "nostr_filter \<Rightarrow> bool" where
  "filter_can_match_author_only_kinds f =
     is_none_or (list_ex (\<lambda>k. kind_u32 k \<in> set AUTHOR_ONLY_KINDS)) (f_kinds f)"

definition filter_can_match_shared_gated_kinds :: "nostr_filter \<Rightarrow> bool" where
  "filter_can_match_shared_gated_kinds f =
     is_none_or (list_ex (\<lambda>k. kind_u32 k \<in> set SHARED_GATED_KINDS)) (f_kinds f)"

definition filter_can_match_result_gated_kinds :: "nostr_filter \<Rightarrow> bool" where
  "filter_can_match_result_gated_kinds f =
     is_none_or (list_ex (\<lambda>k. kind_u32 k \<in> set RESULT_GATED_KINDS)) (f_kinds f)"

definition result_gated_count_safe_for_pushdown :: "nostr_filter \<Rightarrow> pubkey \<Rightarrow> bool" where
  "result_gated_count_safe_for_pushdown f authed =
     is_some_and (\<lambda>values. values \<noteq> [] \<and> list_all (\<lambda>v. v = authed) values) (map_of (f_generic_tags f) ''p'')"

section \<open>Result gates\<close>

definition is_author_only_event :: "event \<Rightarrow> pubkey \<Rightarrow> bool" where
  "is_author_only_event ev requester =
     (kind_u32 (ev_kind ev) \<in> set AUTHOR_ONLY_KINDS \<and> ev_pubkey ev \<noteq> requester)"

definition event_visible_to_reader :: "event \<Rightarrow> pubkey \<Rightarrow> bool" where
  "event_visible_to_reader ev requester =
     (if is_author_only_event ev requester then False
      else if is_unshared_gated_event ev requester then False
      else if \<not> reader_authorized_for_event ev requester then False
      else True)"

section \<open>Channels named by a request\<close>

definition MAX_EXPLICIT_CHANNEL_VALUES :: nat where
  "MAX_EXPLICIT_CHANNEL_VALUES = 128"

definition h_values :: "nostr_filter \<Rightarrow> string list option" where
  "h_values f = map_of (f_generic_tags f) ''h''"

fun extract_channel_ids_loop ::
  "(string \<Rightarrow> uuid option) \<Rightarrow> nostr_filter list \<Rightarrow> uuid list \<Rightarrow> uuid list option" where
  "extract_channel_ids_loop parse [] collected = Some collected"
| "extract_channel_ids_loop parse (f # fs) collected =
     (case h_values f of
        None \<Rightarrow> None
      | Some values \<Rightarrow>
          extract_channel_ids_loop parse fs (fold push_unseen (List.map_filter parse values) collected))"

definition extract_channel_ids_from_filters ::
  "(string \<Rightarrow> uuid option) \<Rightarrow> nostr_filter list \<Rightarrow> uuid list option" where
  "extract_channel_ids_from_filters parse filters = extract_channel_ids_loop parse filters []"

text \<open>The counter is a \<open>usize\<close>; \<open>checked_add\<close> cannot overflow on lists that fit the memory.\<close>

definition extract_channel_ids_from_filters_limited ::
  "(string \<Rightarrow> uuid option) \<Rightarrow> nostr_filter list \<Rightarrow> (uuid list option, unit) result" where
  "extract_channel_ids_from_filters_limited parse filters =
     (let value_count = sum_list (map (\<lambda>f. case h_values f of None \<Rightarrow> 0 | Some vs \<Rightarrow> length vs) filters)
      in if value_count > MAX_EXPLICIT_CHANNEL_VALUES then Err ()
         else Ok (extract_channel_ids_from_filters parse filters))"

definition extract_channel_id_from_filter :: "(string \<Rightarrow> uuid option) \<Rightarrow> nostr_filter \<Rightarrow> uuid option" where
  "extract_channel_id_from_filter parse f =
     (case h_values f of
        None \<Rightarrow> None
      | Some values \<Rightarrow> if length values \<noteq> 1 then None else parse (hd values))"

text \<open>
  The loop over the values of one filter: \<open>None\<close> is the early return on a second channel,
  otherwise the channel found so far and whether this filter named one.
\<close>

fun channel_values_loop ::
  "(string \<Rightarrow> uuid option) \<Rightarrow> string list \<Rightarrow> uuid option \<Rightarrow> bool \<Rightarrow> (uuid option \<times> bool) option" where
  "channel_values_loop parse [] found has = Some (found, has)"
| "channel_values_loop parse (v # vs) found has =
     (case parse v of
        None \<Rightarrow> channel_values_loop parse vs found has
      | Some i \<Rightarrow>
          (case found of
             Some existing \<Rightarrow> if existing \<noteq> i then None else channel_values_loop parse vs (Some i) True
           | None \<Rightarrow> channel_values_loop parse vs (Some i) True))"

fun extract_channel_id_loop ::
  "(string \<Rightarrow> uuid option) \<Rightarrow> nostr_filter list \<Rightarrow> uuid option \<Rightarrow> uuid option" where
  "extract_channel_id_loop parse [] found = found"
| "extract_channel_id_loop parse (f # fs) found =
     (case channel_values_loop parse
             (concat (map snd (filter (\<lambda>(k, _). k = ''h'') (f_generic_tags f)))) found False of
        None \<Rightarrow> None
      | Some (found', has) \<Rightarrow> if \<not> has then None else extract_channel_id_loop parse fs found')"

definition extract_channel_id_from_filters :: "(string \<Rightarrow> uuid option) \<Rightarrow> nostr_filter list \<Rightarrow> uuid option" where
  "extract_channel_id_from_filters parse filters = extract_channel_id_loop parse filters None"

definition filters_are_nip43_membership_only :: "nostr_filter list \<Rightarrow> bool" where
  "filters_are_nip43_membership_only filters =
     (filters \<noteq> [] \<and>
      list_all (\<lambda>f. is_some_and (\<lambda>kinds. kinds \<noteq> [] \<and>
        list_all (\<lambda>k. kind_u32 k = KIND_NIP43_MEMBERSHIP_LIST) kinds) (f_kinds f)) filters)"

text \<open>The vector after the call; the boolean result is what it contains afterwards.\<close>

definition resolve_request_local_access ::
  "uuid list \<Rightarrow> uuid \<Rightarrow> bool \<Rightarrow> bool option \<Rightarrow> bool \<times> uuid list" where
  "resolve_request_local_access accessible ch token_allows db_is_member =
     (if \<not> token_allows then (False, accessible)
      else if ch \<in> set accessible then (True, accessible)
      else (case db_is_member of Some True \<Rightarrow> (True, accessible @ [ch]) | _ \<Rightarrow> (False, accessible)))"

datatype channel_scope = ChannelsOrChannelLess "uuid list" | ScopeChannels "uuid list" | ChannelLessOnly

definition build_search_channel_scope_filter :: "uuid list \<Rightarrow> bool \<Rightarrow> channel_scope option" where
  "build_search_channel_scope_filter accessible include_global =
     (if accessible = [] then (if include_global then Some ChannelLessOnly else None)
      else Some (if include_global then ChannelsOrChannelLess accessible else ScopeChannels accessible))"

definition filter_fully_pushable :: "nostr_filter \<Rightarrow> bool" where
  "filter_fully_pushable f =
     (let is_nip33_only = is_some_and (\<lambda>ks. ks \<noteq> [] \<and>
            list_all (\<lambda>k. is_parameterized_replaceable (kind_u32 k)) ks) (f_kinds f);
          tag_ok = (\<lambda>(key, values).
            if key = ''h'' then True
            else if key = ''p'' then length values \<le> 1
            else if key = ''d'' then values = [] \<or> is_nip33_only
            else if key = ''e'' then True
            else values = [])
      in list_all tag_ok (f_generic_tags f) \<and> f_search f = None)"

section \<open>What the gates guarantee\<close>

lemma reader_named_by_p:
  assumes "p_tag_only_self f authed" "filter_match_one f ev"
  shows "authed \<in> set (tag_values (se_event ev) ''p'')"
proof -
  from assms(1) obtain vals where vals: "map_of (f_generic_tags f) ''p'' = Some vals" "\<forall>v\<in>set vals. v = authed"
    by (auto simp: p_tag_only_self_def is_some_and_iff list_all_iff)
  with filter_match_p_tag [OF assms(2) vals(1)] show ?thesis by (auto simp: tag_values_iff)
qed

lemma author_named:
  "authors_only_self f authed \<Longrightarrow> filter_match_one f ev \<Longrightarrow> eq_ignore_ascii_case (ev_pubkey (se_event ev)) authed"
  by (auto simp: authors_only_self_def is_some_and_iff list_all_iff filter_match_one_iff filter_match_spec_def)

lemma kind_may_match:
  "filter_match_one f ev \<Longrightarrow> P (event_kind_u32 (se_event ev)) \<Longrightarrow>
   is_none_or (list_ex (\<lambda>k. P (kind_u32 k))) (f_kinds f)"
  using filter_match_kind [of f ev] by (auto simp: is_none_or_iff list_ex_iff event_kind_u32_def)

lemma event_visible_iff:
  "event_visible_to_reader ev reader \<longleftrightarrow>
     (event_kind_u32 ev \<in> set AUTHOR_ONLY_KINDS \<longrightarrow> ev_pubkey ev = reader) \<and>
     \<not> is_unshared_gated_event ev reader \<and> reader_authorized_for_event ev reader"
  by (auto simp: event_visible_to_reader_def is_author_only_event_def event_kind_u32_def)

section \<open>Properties\<close>


definition gated_filter :: nostr_filter where
  "gated_filter = \<lparr>f_ids = None, f_authors = None, f_kinds = Some [1059], f_since = None, f_until = None,
     f_generic_tags = [(''p'', [''me''])], f_search = None, f_limit = None\<rparr>"

definition gift_wrap :: stored_event where
  "gift_wrap = stored_event_new 0 \<lparr>ev_id = ''e1'', ev_pubkey = ''pk'', ev_created_at = 5, ev_kind = 1059,
     ev_tags = [\<lparr>tag_kind = ''p'', tag_content = Some ''me'', tag_slice = [''p'', ''me'']\<rparr>], ev_content = ''c''\<rparr> None"


end
