(* ===== verification/ConnectionsCorrect.thy ===== *)
theory ConnectionsCorrect
  imports Connections
begin

text \<open>
  Correctness of the connection tables: when a slow client is cut off, which sockets a ban, a
  drain and an archival close, and that registering before revalidating leaves no window in
  which a socket outlives its community.
\<close>

section \<open>Back-pressure\<close>

fun send_all :: "try_send list \<Rightarrow> ws_message \<Rightarrow> conn_entry \<Rightarrow> conn_entry" where
  "send_all [] msg e = e"
| "send_all (out # outs) msg e = send_all outs msg (snd (send_entry out msg e))"

text \<open>How many sends found the buffer full since one last succeeded.\<close>

fun fulls_since_sent :: "try_send list \<Rightarrow> nat \<Rightarrow> nat" where
  "fulls_since_sent [] n = n"
| "fulls_since_sent (Sent # outs) n = fulls_since_sent outs 0"
| "fulls_since_sent (Full # outs) n = fulls_since_sent outs (n + 1)"
| "fulls_since_sent (Closed # outs) n = fulls_since_sent outs n"

lemma send_all_append [simp]: "send_all (xs @ ys) msg e = send_all ys msg (send_all xs msg e)"
  by (induction xs arbitrary: e) simp_all

lemma fulls_since_sent_append [simp]:
  "fulls_since_sent (xs @ ys) n = fulls_since_sent ys (fulls_since_sent xs n)"
  by (induction xs n rule: fulls_since_sent.induct) simp_all

lemma send_entry_fields [simp]:
  "ce_grace_limit (snd (send_entry out msg e)) = ce_grace_limit e"
  "ce_community_id (snd (send_entry out msg e)) = ce_community_id e"
  "ce_authenticated_pubkey (snd (send_entry out msg e)) = ce_authenticated_pubkey e"
  by (simp_all add: send_entry_def cancel_entry_def Let_def split: try_send.split)

lemma send_all_grace [simp]: "ce_grace_limit (send_all outs msg e) = ce_grace_limit e"
  by (induction outs arbitrary: e) simp_all

lemma send_all_count:
  "ce_backpressure_count e = of_nat n \<Longrightarrow>
     ce_backpressure_count (send_all outs msg e) = of_nat (fulls_since_sent outs n)"
proof (induction outs arbitrary: e n)
  case (Cons out outs)
  then show ?case
    by (cases out) (simp_all add: send_entry_def cancel_entry_def Let_def add.commute)
qed simp

text \<open>The run of full buffers has reached the grace limit at some full send.\<close>

definition overran :: "u8 \<Rightarrow> try_send list \<Rightarrow> bool" where
  "overran grace outs \<longleftrightarrow>
     (\<exists>xs ys. outs = xs @ Full # ys \<and> unat grace \<le> fulls_since_sent (xs @ [Full]) 0)"

lemma overran_snoc:
  "overran g (outs @ [out]) \<longleftrightarrow>
     overran g outs \<or> (out = Full \<and> unat g \<le> fulls_since_sent (outs @ [Full]) 0)"
  by (auto simp: overran_def append_eq_append_conv2 append_eq_Cons_conv Cons_eq_append_conv) blast+

lemma short_run:
  "\<not> overran g outs \<Longrightarrow> fulls_since_sent outs 0 = 0 \<or> fulls_since_sent outs 0 < unat g"
proof (induction outs rule: rev_induct)
  case (snoc out outs)
  then show ?case by (cases out) (auto simp: overran_snoc)
qed simp

lemma send_all_cancelled:
  assumes "ce_backpressure_count e = 0"
  shows "ce_cancelled (send_all outs msg e) \<longleftrightarrow> ce_cancelled e \<or> overran (ce_grace_limit e) outs"
proof (induction outs rule: rev_induct)
  case Nil
  then show ?case by (simp add: overran_def)
next
  case (snoc out outs)
  let ?n = "fulls_since_sent outs 0"
  have count: "ce_backpressure_count (send_all outs msg e) = of_nat ?n"
    using send_all_count [of e 0 outs msg] assms by simp
  show ?case
  proof (cases "out = Full \<and> \<not> overran (ce_grace_limit e) outs")
    case True
    then have "Suc ?n < 2 ^ 8"
      using short_run [of "ce_grace_limit e" outs] unsigned_less [where ?'a = nat, of "ce_grace_limit e"] by auto
    then have "unat (of_nat (Suc ?n) :: u8) = Suc ?n"
      by (simp only: unsigned_of_nat of_nat_id take_bit_nat_eq_self) (simp add: take_bit_nat_eq_self)
    then have "unat (of_nat ?n + 1 :: u8) = Suc ?n" by (simp add: add.commute)
    then show ?thesis
      using True snoc.IH count
      by (auto simp: overran_snoc send_entry_def cancel_entry_def Let_def word_le_nat_alt)
  next
    case False
    then show ?thesis
      using snoc.IH
      by (cases out) (auto simp: overran_snoc send_entry_def cancel_entry_def Let_def)
  qed
qed

section \<open>Bans\<close>

definition authenticated_as :: "uuid \<Rightarrow> pubkey \<Rightarrow> conn_entry \<Rightarrow> bool" where
  "authenticated_as com pk e \<longleftrightarrow> ce_community_id e = com \<and> ce_authenticated_pubkey e = Some pk"

lemma connection_ids_iff:
  "hm_wf (connections cm) \<Longrightarrow> c \<in> set (connection_ids_for_pubkey_in_community com pk cm) \<longleftrightarrow>
     (\<exists>e. map_of (connections cm) c = Some e \<and> authenticated_as com pk e)"
  by (force simp: connection_ids_for_pubkey_in_community_def authenticated_as_def hm_wf_lookup
      split: option.splits)

lemma distinct_connection_ids:
  "hm_wf (connections cm) \<Longrightarrow> distinct (connection_ids_for_pubkey_in_community com pk cm)"
  by (auto simp: connection_ids_for_pubkey_in_community_def hm_wf_def intro: distinct_map_filter)

lemma disconnect_loop_spec:
  assumes "distinct ids" "\<forall>c\<in>set ids. \<exists>e. map_of (connections cm) c = Some e \<and> ce_community_id e = com"
  shows "fst (disconnect_loop com frame outs ids cm n) = n + length ids \<and>
         draining (snd (disconnect_loop com frame outs ids cm n)) = draining cm \<and>
         map_of (connections (snd (disconnect_loop com frame outs ids cm n))) =
           (\<lambda>c. if c \<in> set ids then map_option (\<lambda>e. cancel_entry (queue_ctrl (outs c) frame e)) (map_of (connections cm) c)
                else map_of (connections cm) c)"
  using assms
proof (induction ids arbitrary: cm n)
  case (Cons c ids)
  then obtain e where e: "map_of (connections cm) c = Some e" "ce_community_id e = com" by auto
  let ?cm = "cm\<lparr>connections := hm_insert c (cancel_entry (queue_ctrl (outs c) frame e)) (connections cm)\<rparr>"
  have "\<forall>d\<in>set ids. \<exists>e. map_of (connections ?cm) d = Some e \<and> ce_community_id e = com"
    using Cons.prems by auto
  with Cons.IH [of ?cm "n + 1"] Cons.prems(1) e show ?case by (auto simp: fun_eq_iff)
qed simp

section \<open>Draining\<close>

text \<open>The steps of the manager with the all-at-once drain.\<close>

inductive manager_step :: "conn_manager \<Rightarrow> conn_manager \<Rightarrow> bool" where
  "manager_step cm (cm_register out c e cm)"
| "manager_step cm (cm_deregister c cm)"
| "manager_step cm (set_authenticated_pubkey c pk cm)"
| "manager_step cm (snd (try_send_ws_message out c msg cm))"
| "manager_step cm (snd (disconnect_pubkey com pk frame outs cm))"
| "manager_step cm (snd (drain_all outs cm))"

definition manager_inv :: "conn_manager \<Rightarrow> bool" where
  "manager_inv cm \<longleftrightarrow> hm_wf (connections cm) \<and>
     (draining cm \<longrightarrow> (\<forall>c e. map_of (connections cm) c = Some e \<longrightarrow> ce_cancelled e))"

lemma cancelled_simps [simp]:
  "ce_cancelled (cancel_entry e)"
  "ce_cancelled (queue_ctrl out msg e) = ce_cancelled e"
  "ce_cancelled e \<Longrightarrow> ce_cancelled (snd (send_entry out msg e))"
  by (simp_all add: cancel_entry_def queue_ctrl_def send_entry_def Let_def split: try_send.split)

lemma hm_wf_map_values: "hm_wf (map (\<lambda>(k, v). (k, f k v)) m) = hm_wf m"
  by (simp add: hm_wf_def comp_def case_prod_unfold)

lemma map_of_map_values: "map_of (map (\<lambda>(k, v). (k, f k v)) m) k = map_option (f k) (map_of m k)"
  by (induction m) auto

lemma hm_wf_disconnect_loop:
  "hm_wf (connections cm) \<Longrightarrow> hm_wf (connections (snd (disconnect_loop com frame outs ids cm n)))"
  by (induction com frame outs ids cm n rule: disconnect_loop.induct) (simp_all split: option.split)

lemma disconnect_pubkey_spec:
  assumes "hm_wf (connections cm)"
  shows "fst (disconnect_pubkey com pk frame outs cm) =
           length (connection_ids_for_pubkey_in_community com pk cm) \<and>
         draining (snd (disconnect_pubkey com pk frame outs cm)) = draining cm \<and>
         map_of (connections (snd (disconnect_pubkey com pk frame outs cm))) c =
           map_option (\<lambda>e. if authenticated_as com pk e then cancel_entry (queue_ctrl (outs c) (Text frame) e) else e)
             (map_of (connections cm) c)"
proof -
  let ?ids = "connection_ids_for_pubkey_in_community com pk cm"
  have ids: "\<And>d. d \<in> set ?ids \<longleftrightarrow> (\<exists>e. map_of (connections cm) d = Some e \<and> authenticated_as com pk e)"
    using connection_ids_iff [OF assms] by blast
  then have "\<forall>d\<in>set ?ids. \<exists>e. map_of (connections cm) d = Some e \<and> ce_community_id e = com"
    by (auto simp: authenticated_as_def)
  from disconnect_loop_spec [OF distinct_connection_ids [OF assms] this, of "Text frame" outs 0] ids [of c]
  show ?thesis by (cases "map_of (connections cm) c") (simp_all add: disconnect_pubkey_def)
qed

lemma manager_step_inv: "manager_step cm cm' \<Longrightarrow> manager_inv cm \<Longrightarrow> manager_inv cm'"
proof (induction rule: manager_step.induct)
  case (1 cm out c e)
  then show ?case by (auto simp: manager_inv_def cm_register_def Let_def)
next
  case (2 cm c)
  then show ?case by (auto simp: manager_inv_def cm_deregister_def)
next
  case (3 cm c pk)
  then show ?case by (auto simp: manager_inv_def set_authenticated_pubkey_def split: option.splits)
next
  case (4 cm out c msg)
  then show ?case
    by (auto simp: manager_inv_def try_send_ws_message_def Let_def split_beta split: option.splits)
next
  case (5 cm com pk frame outs)
  then have "hm_wf (connections cm)" by (simp add: manager_inv_def)
  with 5 disconnect_pubkey_spec [OF this, of com pk frame outs] hm_wf_disconnect_loop [OF this] show ?case
    by (auto simp: manager_inv_def disconnect_pubkey_def split: if_splits)
next
  case (6 cm outs)
  then show ?case by (auto simp: manager_inv_def drain_all_def hm_wf_map_values map_of_map_values)
qed

interpretation manager: step_system "\<lambda>cm. cm = conn_manager_new" manager_step manager_inv
proof
  show "manager_inv s" if "s = conn_manager_new" for s
    using that by (simp add: manager_inv_def conn_manager_new_def)
  show "manager_inv t" if "manager_inv s" "manager_step s t" for s t
    using manager_step_inv that by blast
qed

section \<open>Archived communities\<close>

text \<open>
  \<open>run_registered_community_connection\<close> as the steps other tasks can interleave with: a socket
  registers, then reads the durable state, then looks at its own token and runs; the archival
  writes the durable state and then disconnects. The fields \<open>lf_phase\<close> and \<open>lf_archived\<close>
  record where each task is.
\<close>

datatype phase = Registered | Revalidated | Running | Finished

record lifecycle =
  lf_registry :: community_registry
  lf_active :: "uuid \<Rightarrow> bool"
  lf_phase :: "uuid \<Rightarrow> phase option"
  lf_archived :: "uuid set"

definition cancel_socket :: "uuid \<Rightarrow> community_registry \<Rightarrow> community_registry" where
  "cancel_socket i reg =
     map (\<lambda>(j, (c, control)). (j, (c, if j = i then control\<lparr>cc_cancelled := True\<rparr> else control))) reg"

inductive lifecycle_step :: "lifecycle \<Rightarrow> lifecycle \<Rightarrow> bool" where
  register: "lf_phase s i = None \<Longrightarrow>
     lifecycle_step s (s\<lparr>lf_registry := cr_register i com community_control_new (lf_registry s),
                         lf_phase := (lf_phase s)(i \<mapsto> Registered)\<rparr>)"
| check_active: "lf_phase s i = Some Registered \<Longrightarrow> map_of (lf_registry s) i = Some (com, control) \<Longrightarrow>
     lf_active s com \<Longrightarrow> lifecycle_step s (s\<lparr>lf_phase := (lf_phase s)(i \<mapsto> Revalidated)\<rparr>)"
| check_failed: "lf_phase s i = Some Registered \<Longrightarrow>
     lifecycle_step s (s\<lparr>lf_registry := cr_drop i (cancel_socket i (lf_registry s)),
                         lf_phase := (lf_phase s)(i \<mapsto> Finished)\<rparr>)"
| run: "lf_phase s i = Some Revalidated \<Longrightarrow> map_of (lf_registry s) i = Some (com, control) \<Longrightarrow>
     \<not> cc_cancelled control \<Longrightarrow> lifecycle_step s (s\<lparr>lf_phase := (lf_phase s)(i \<mapsto> Running)\<rparr>)"
| stop: "lf_phase s i = Some Revalidated \<or> lf_phase s i = Some Running \<Longrightarrow>
     lifecycle_step s (s\<lparr>lf_registry := cr_drop i (cancel_socket i (lf_registry s)),
                         lf_phase := (lf_phase s)(i \<mapsto> Finished)\<rparr>)"
| archive: "lifecycle_step s (s\<lparr>lf_active := (lf_active s)(com := False)\<rparr>)"
| disconnect: "\<not> lf_active s com \<Longrightarrow>
     lifecycle_step s (s\<lparr>lf_registry := snd (cr_disconnect_community com (lf_registry s)),
                         lf_archived := insert com (lf_archived s)\<rparr>)"
| revalidate: "(\<And>c. check c = Ok False \<Longrightarrow> \<not> lf_active s c) \<Longrightarrow>
     lifecycle_step s (s\<lparr>lf_registry := snd (snd (revalidate_registered_communities check (lf_registry s)))\<rparr>)"

text \<open>
  A socket in the registry that got past its check has a token that an archival finished
  before now has cancelled.
\<close>

definition lifecycle_inv :: "lifecycle \<Rightarrow> bool" where
  "lifecycle_inv s \<longleftrightarrow>
     (\<forall>com\<in>lf_archived s. \<not> lf_active s com) \<and>
     (\<forall>i. (lf_phase s i = None \<or> lf_phase s i = Some Finished) = (map_of (lf_registry s) i = None)) \<and>
     (\<forall>i com control. map_of (lf_registry s) i = Some (com, control) \<longrightarrow> com \<in> lf_archived s \<longrightarrow>
        lf_phase s i \<noteq> Some Registered \<longrightarrow> cc_cancelled control)"

lemma map_of_cancel_socket:
  "map_of (cancel_socket i reg) j =
     map_option (\<lambda>(c, control). (c, if j = i then control\<lparr>cc_cancelled := True\<rparr> else control)) (map_of reg j)"
  unfolding cancel_socket_def by (induction reg) auto

lemma map_of_disconnect_community:
  "map_of (snd (cr_disconnect_community com reg)) j =
     map_option (\<lambda>(c, control). (c, if c = com then control_disconnect_community control else control)) (map_of reg j)"
  unfolding cr_disconnect_community_def by (induction reg) auto

lemma map_of_revalidate_loop:
  "map_of (snd (snd (revalidate_loop check coms n fs reg))) j =
     map_option (\<lambda>(c, control). (c, if c \<in> set coms \<and> check c = Ok False
        then control_disconnect_community control else control)) (map_of reg j)"
proof (induction check coms n fs reg rule: revalidate_loop.induct)
  case (1 check n fs reg)
  then show ?case by (simp add: map_option.id [unfolded id_def] case_prod_unfold)
next
  case (2 check com coms n fs reg)
  then show ?case
    by (cases "map_of reg j"; cases "check com")
      (auto simp: map_of_disconnect_community control_disconnect_community_def split_beta split: bool.splits)
qed

lemmas lifecycle_maps = map_of_cancel_socket map_of_disconnect_community map_of_revalidate_loop
  cr_register_def cr_drop_def

lemma cancelled_by_disconnect [simp]: "cc_cancelled (control_disconnect_community control)"
  by (simp add: control_disconnect_community_def)

lemma lifecycle_step_inv: "lifecycle_step s t \<Longrightarrow> lifecycle_inv s \<Longrightarrow> lifecycle_inv t"
proof (induction rule: lifecycle_step.induct)
  case (register s i com)
  then show ?case by (auto simp: lifecycle_inv_def lifecycle_maps split: if_splits)
next
  case (check_active s i com control)
  then show ?case by (auto simp: lifecycle_inv_def split: if_splits)
next
  case (check_failed s i)
  then show ?case by (auto simp: lifecycle_inv_def lifecycle_maps split: if_splits)
next
  case (run s i com control)
  then show ?case by (auto simp: lifecycle_inv_def split: if_splits)
next
  case (stop s i)
  then show ?case by (auto simp: lifecycle_inv_def lifecycle_maps split: if_splits)
next
  case (archive s com)
  then show ?case by (auto simp: lifecycle_inv_def)
next
  case (disconnect s com)
  then show ?case
    by (auto simp: lifecycle_inv_def lifecycle_maps split: if_splits) (metis cancelled_by_disconnect)
next
  case (revalidate check s)
  then show ?case
    by (auto simp: lifecycle_inv_def revalidate_registered_communities_def lifecycle_maps split: if_splits)
qed

interpretation lifecycle: step_system
  "\<lambda>s. lf_registry s = [] \<and> lf_phase s = Map.empty \<and> lf_archived s = {}" lifecycle_step lifecycle_inv
proof
  show "lifecycle_inv s" if "lf_registry s = [] \<and> lf_phase s = Map.empty \<and> lf_archived s = {}" for s
    using that by (simp add: lifecycle_inv_def)
  show "lifecycle_inv t" if "lifecycle_inv s" "lifecycle_step s t" for s t
    using lifecycle_step_inv that by blast
qed

section \<open>Properties\<close>

text \<open>
  A slow client is cut off exactly when it has earned it: after any sequence of sends to a
  connection that starts with a clear counter, its token is cancelled exactly when some send
  found the buffer full and the full buffers since the last success had reached the grace
  limit. A success clears the count, a closed channel leaves it alone, and the wrap-around of
  the 8-bit counter never hides an overrun.
\<close>

theorem slow_client_cut_off_exactly:
  assumes "ce_backpressure_count e = 0" "\<not> ce_cancelled e"
  shows "ce_cancelled (send_all outs msg e) \<longleftrightarrow> overran (ce_grace_limit e) outs"
  using send_all_cancelled [OF assms(1)] assms(2) by blast

text \<open>
  A ban closes the member's sockets of that community and no other: each of them is
  cancelled, with the reason queued first where the control channel has room, every other
  entry is unchanged, and the count returned is the number of sockets closed.
\<close>

theorem ban_closes_exactly_the_members_sockets:
  assumes "manager_step\<^sup>*\<^sup>* conn_manager_new cm" "disconnect_pubkey com pk frame outs cm = (n, cm')"
  shows "map_of (connections cm') c =
           map_option (\<lambda>e. if authenticated_as com pk e then cancel_entry (queue_ctrl (outs c) (Text frame) e) else e)
             (map_of (connections cm) c) \<and>
         n = card {c. \<exists>e. map_of (connections cm) c = Some e \<and> authenticated_as com pk e} \<and>
         draining cm' = draining cm"
proof -
  have wf: "hm_wf (connections cm)"
    using manager.reachable_inv [OF refl assms(1)] by (simp add: manager_inv_def)
  let ?members = "{c. \<exists>e. map_of (connections cm) c = Some e \<and> authenticated_as com pk e}"
  have "set (connection_ids_for_pubkey_in_community com pk cm) = ?members"
    using connection_ids_iff [OF wf] by blast
  then have "length (connection_ids_for_pubkey_in_community com pk cm) = card ?members"
    using distinct_card [OF distinct_connection_ids [OF wf, of com pk]] by simp
  with disconnect_pubkey_spec [OF wf, of com pk frame outs c] assms(2) show ?thesis by simp
qed

text \<open>
  No connection outlives a graceful shutdown: once the drain has started, every connection
  of the manager is cancelled, those that register after the drain looked included.
\<close>

theorem drained_manager_has_no_live_connection:
  assumes "manager_step\<^sup>*\<^sup>* conn_manager_new cm" "draining cm" "map_of (connections cm) c = Some e"
  shows "ce_cancelled e"
  using manager.reachable_inv [OF refl assms(1)] assms(2,3) by (auto simp: manager_inv_def)


section \<open>Examples\<close>

definition sample_conn :: "uuid \<Rightarrow> conn_entry" where
  "sample_conn com = \<lparr>ce_tx = [], ce_ctrl_tx = [], ce_restart_tx = True, ce_cancelled = False, ce_community_id = com,
     ce_backpressure_count = 0, ce_authenticated_pubkey = None, ce_grace_limit = 2\<rparr>"

definition sample_manager :: conn_manager where
  "sample_manager = set_authenticated_pubkey ''c1'' ''alice'' (cm_register Sent ''c2'' (sample_conn ''B'')
     (cm_register Sent ''c1'' (sample_conn ''A'') conn_manager_new))"

lemma sample_manager_reachable: "manager_step\<^sup>*\<^sup>* conn_manager_new sample_manager"
  unfolding sample_manager_def by (meson manager_step.intros r_into_rtranclp rtranclp_trans)

theorem slow_client_cut_off_exactly_witness:
  "ce_cancelled (send_all [Full, Sent, Full, Closed, Full] (Text ''x'') (sample_conn ''A'')) \<and>
   overran 2 [Full, Sent, Full, Closed, Full]"
proof -
  have "ce_cancelled (send_all [Full, Sent, Full, Closed, Full] (Text ''x'') (sample_conn ''A''))"
    by code_simp
  with slow_client_cut_off_exactly [of "sample_conn ''A''" "[Full, Sent, Full, Closed, Full]" "Text ''x''"]
  show ?thesis by (simp add: sample_conn_def)
qed

theorem ban_closes_exactly_the_members_sockets_witness:
  "map_of (connections (snd (disconnect_pubkey ''A'' ''alice'' ''banned'' (\<lambda>_. Sent) sample_manager))) ''c2'' =
     Some (sample_conn ''B'')"
proof -
  have "map_of (connections sample_manager) ''c2'' = Some (sample_conn ''B'')" by code_simp
  with ban_closes_exactly_the_members_sockets [OF sample_manager_reachable prod.collapse [symmetric], of "''A''" "''alice''" "''banned''" "\<lambda>_. Sent" "''c2''"]
  show ?thesis by (simp add: authenticated_as_def sample_conn_def)
qed

theorem drained_manager_has_no_live_connection_witness:
  "ce_cancelled (the (map_of (connections (cm_register Full ''c3'' (sample_conn ''B'')
     (snd (drain_all (\<lambda>_. Sent) sample_manager)))) ''c3''))"
proof -
  have "manager_step\<^sup>*\<^sup>* conn_manager_new (cm_register Full ''c3'' (sample_conn ''B'') (snd (drain_all (\<lambda>_. Sent) sample_manager)))"
    using sample_manager_reachable by (meson manager_step.intros rtranclp.rtrancl_into_rtrancl)
  from drained_manager_has_no_live_connection [OF this, of "''c3''"] show ?thesis
    by (simp add: cm_register_def drain_all_def Let_def)
qed

definition sample_lifecycle :: lifecycle where
  "sample_lifecycle = \<lparr>lf_registry = cr_register ''i'' ''A'' community_control_new [], lf_active = (\<lambda>_. True)(''A'' := False),
     lf_phase = [''i'' \<mapsto> Registered], lf_archived = {''A''}\<rparr>"


end
