(* ===== verification/DeliveryCorrect.thy ===== *)
theory DeliveryCorrect
  imports Delivery ReadGates RegistryCorrect ConnectionsCorrect
begin

text \<open>
  Correctness of live delivery: the access filter is exactly a declarative condition per
  recipient, each fan-out path puts exactly one frame per admitted subscription on the wire,
  no path panics, and how the paths differ.
\<close>

section \<open>Lookups through the caches\<close>

text \<open>What a lookup answers, cached or not.\<close>

definition member_value :: "delivery_env \<Rightarrow> relay_state \<Rightarrow> uuid \<Rightarrow> uuid \<Rightarrow> pubkey \<Rightarrow> (bool, string) result" where
  "member_value env st com ch pk =
     (case map_of (rl_membership_cache st) (com, ch, pk) of Some b \<Rightarrow> Ok b | None \<Rightarrow> db_is_member env com ch pk)"

definition visibility_value ::
  "delivery_env \<Rightarrow> relay_state \<Rightarrow> uuid \<Rightarrow> uuid \<Rightarrow> threaded_visibility option \<Rightarrow> (string, string) result" where
  "visibility_value env st com ch threaded =
     (case threaded of
        Some t \<Rightarrow>
          if tv_community_id t = com \<and> tv_channel_id t = ch then Ok (tv_visibility t)
          else (case map_of (rl_visibility_cache st) (com, ch) of
                  Some v \<Rightarrow> Ok v | None \<Rightarrow> db_get_channel_visibility env com ch)
      | None \<Rightarrow> (case map_of (rl_visibility_cache st) (com, ch) of
                  Some v \<Rightarrow> Ok v | None \<Rightarrow> db_get_channel_visibility env com ch))"

text \<open>Two states that differ in what the caches remember only.\<close>

definition same_but_caches :: "relay_state \<Rightarrow> relay_state \<Rightarrow> bool" where
  "same_but_caches st st' \<longleftrightarrow> rl_conns st' = rl_conns st \<and> rl_registry st' = rl_registry st \<and>
     rl_local_event_ids st' = rl_local_event_ids st \<and> rl_audit_tx st' = rl_audit_tx st"

lemma same_but_caches_refl [simp]: "same_but_caches st st"
  by (simp add: same_but_caches_def)

lemma same_but_caches_trans: "same_but_caches st st' \<Longrightarrow> same_but_caches st' st'' \<Longrightarrow> same_but_caches st st''"
  by (simp add: same_but_caches_def)

lemma is_member_cached_spec:
  "fst (is_member_cached env com ch pk st) = member_value env st com ch pk"
  "member_value env (snd (is_member_cached env com ch pk st)) = member_value env st"
  "same_but_caches st (snd (is_member_cached env com ch pk st))"
  by (auto simp: is_member_cached_def member_value_def same_but_caches_def fun_eq_iff
      split: option.splits sum.splits)

lemma channel_visibility_cached_spec:
  "fst (channel_visibility_cached env com ch None st) = visibility_value env st com ch None"
  "member_value env (snd (channel_visibility_cached env com ch None st)) = member_value env st"
  "same_but_caches st (snd (channel_visibility_cached env com ch None st))"
  by (auto simp: channel_visibility_cached_def visibility_value_def member_value_def same_but_caches_def fun_eq_iff
      split: option.splits sum.splits)

text \<open>The cache of visibilities never remembers an open channel.\<close>

lemma visibility_cache_private:
  "(\<forall>k v. map_of (rl_visibility_cache st) k = Some v \<longrightarrow> v = ''private'') \<Longrightarrow>
   (\<forall>k v. map_of (rl_visibility_cache (snd (channel_visibility_cached env com ch pre st))) k = Some v \<longrightarrow>
      v = ''private'')"
  by (auto simp: channel_visibility_cached_def split: option.splits sum.splits if_splits)

section \<open>The access filter\<close>

definition is_member_conn :: "delivery_env \<Rightarrow> relay_state \<Rightarrow> uuid \<Rightarrow> uuid \<Rightarrow> uuid \<Rightarrow> bool" where
  "is_member_conn env st com ch conn_id \<longleftrightarrow>
     (\<exists>pk. pubkey_for_conn conn_id (rl_conns st) = Some pk \<and> member_value env st com ch pk = Ok True)"

text \<open>
  Who may receive an event live: a connection bound to the event's community; for an
  author-only kind the author; for a gated kind the author, or anyone authenticated once it is
  shared; and in a channel that is not known to be open, a member.
\<close>

definition may_receive ::
  "delivery_env \<Rightarrow> relay_state \<Rightarrow> uuid \<Rightarrow> stored_event \<Rightarrow> threaded_visibility option \<Rightarrow> uuid \<Rightarrow> bool" where
  "may_receive env st com stored threaded conn_id \<longleftrightarrow>
     (let ev = se_event stored; pk = pubkey_for_conn conn_id (rl_conns st)
      in community_for_conn conn_id (rl_conns st) = Some com \<and>
         (event_kind_u32 ev \<in> set AUTHOR_ONLY_KINDS \<longrightarrow> pk = Some (ev_pubkey ev)) \<and>
         (is_shared_gated_kind (event_kind_u32 ev) \<longrightarrow>
            (\<exists>reader. pk = Some reader \<and> \<not> is_unshared_gated_event ev reader)) \<and>
         (\<forall>ch. se_channel_id stored = Some ch \<longrightarrow>
            (\<exists>v. visibility_value env st com ch threaded = Ok v \<and>
                 (v \<noteq> ''private'' \<or> is_member_conn env st com ch conn_id))))"

lemma allow_members_spec:
  "fst (allow_members env com ch ms allowed st) = allowed @ filter (is_member_conn env st com ch \<circ> fst) ms \<and>
   same_but_caches st (snd (allow_members env com ch ms allowed st))"
proof (induction ms arbitrary: allowed st)
  case (Cons m ms)
  obtain c s where m: "m = (c, s)" by fastforce
  show ?case
  proof (cases "pubkey_for_conn c (rl_conns st)")
    case None
    with Cons.IH show ?thesis by (simp add: m is_member_conn_def)
  next
    case (Some pk)
    obtain r st' where cached: "is_member_cached env com ch pk st = (r, st')" by fastforce
    then have r: "r = member_value env st com ch pk" and mv: "member_value env st' = member_value env st"
      and same: "same_but_caches st st'"
      using is_member_cached_spec [where env = env and com = com and ch = ch and pk = pk and st = st] by auto
    then have conn: "is_member_conn env st' com ch = is_member_conn env st com ch"
      by (simp add: fun_eq_iff is_member_conn_def same_but_caches_def)
    have member: "is_member_conn env st com ch c \<longleftrightarrow> r = Ok True" using Some r by (simp add: is_member_conn_def)
    have "allow_members env com ch (m # ms) allowed st =
        allow_members env com ch ms (if r = Ok True then allowed @ [m] else allowed) st'"
      using Some cached by (cases r) (auto simp: m split: bool.splits)
    with Cons.IH [of "if r = Ok True then allowed @ [m] else allowed" st'] conn member same same_but_caches_trans
    show ?thesis by (auto simp: m)
  qed
qed simp

lemma pubkey_for_eq [simp]: "pubkey_for = pubkey_for_conn"
  by (simp add: fun_eq_iff pubkey_for_def pubkey_for_conn_def)

text \<open>The conditions that do not depend on the channel, and the one that does.\<close>

definition passes_gates :: "conn_manager \<Rightarrow> uuid \<Rightarrow> event \<Rightarrow> uuid \<Rightarrow> bool" where
  "passes_gates cm com ev conn_id \<longleftrightarrow>
     community_for_conn conn_id cm = Some com \<and>
     (event_kind_u32 ev \<in> set AUTHOR_ONLY_KINDS \<longrightarrow> pubkey_for_conn conn_id cm = Some (ev_pubkey ev)) \<and>
     (is_shared_gated_kind (event_kind_u32 ev) \<longrightarrow>
        (\<exists>reader. pubkey_for_conn conn_id cm = Some reader \<and> \<not> is_unshared_gated_event ev reader))"

definition passes_channel ::
  "delivery_env \<Rightarrow> relay_state \<Rightarrow> uuid \<Rightarrow> uuid option \<Rightarrow> threaded_visibility option \<Rightarrow> uuid \<Rightarrow> bool" where
  "passes_channel env st com channel threaded conn_id \<longleftrightarrow>
     (case channel of
        None \<Rightarrow> True
      | Some ch \<Rightarrow>
          (case visibility_value env st com ch threaded of
             Inl _ \<Rightarrow> False
           | Inr v \<Rightarrow> v \<noteq> ''private'' \<or> is_member_conn env st com ch conn_id))"

lemma may_receive_iff:
  "may_receive env st com stored threaded c \<longleftrightarrow>
     passes_gates (rl_conns st) com (se_event stored) c \<and>
     passes_channel env st com (se_channel_id stored) threaded c"
  by (auto simp: may_receive_def passes_gates_def passes_channel_def Let_def split: option.splits sum.splits)

lemma filter_gates:
  "(let matches = filter (\<lambda>(conn_id, _). community_for_conn conn_id cm = Some com) ms;
        matches = (if event_kind_u32 ev \<in> set AUTHOR_ONLY_KINDS
                   then filter (\<lambda>(conn_id, _).
                          case pubkey_for_conn conn_id cm of Some pk \<Rightarrow> pk = ev_pubkey ev | None \<Rightarrow> False) matches
                   else matches)
    in if is_shared_gated_kind (event_kind_u32 ev)
       then filter (\<lambda>(conn_id, _).
              case pubkey_for_conn conn_id cm of
                None \<Rightarrow> False
              | Some pk \<Rightarrow> if pk = ev_pubkey ev then True else \<not> is_unshared_gated_event ev pk) matches
       else matches) = filter (passes_gates cm com ev \<circ> fst) ms"
proof -
  have author: "\<not> is_unshared_gated_event ev (ev_pubkey ev)" by (simp add: is_unshared_gated_event_def)
  show ?thesis
    unfolding Let_def passes_gates_def
    by (auto simp: filter_filter author intro!: filter_cong split: option.splits)
qed

lemma filter_fanout_unfold:
  "filter_fanout_by_access env com stored ms threaded st =
     (let matches = filter (passes_gates (rl_conns st) com (se_event stored) \<circ> fst) ms
      in case se_channel_id stored of
           None \<Rightarrow> (matches, st)
         | Some ch \<Rightarrow>
             (let (visibility, st) =
                    (case threaded of
                       Some t \<Rightarrow>
                         if tv_community_id t = com \<and> tv_channel_id t = ch then (Ok (tv_visibility t), st)
                         else channel_visibility_cached env com ch None st
                     | None \<Rightarrow> channel_visibility_cached env com ch None st)
              in case visibility of
                   Inl _ \<Rightarrow> ([], st)
                 | Inr v \<Rightarrow> if v \<noteq> ''private'' then (matches, st) else allow_members env com ch matches [] st))"
  unfolding filter_fanout_by_access_def filter_gates [symmetric] Let_def ..

lemma threaded_lookup_spec:
  assumes "(case threaded of
              Some t \<Rightarrow>
                if tv_community_id t = com \<and> tv_channel_id t = ch then (Ok (tv_visibility t), st)
                else channel_visibility_cached env com ch None st
            | None \<Rightarrow> channel_visibility_cached env com ch None st) = (visibility, st')"
  shows "visibility = visibility_value env st com ch threaded" "member_value env st' = member_value env st"
    "same_but_caches st st'"
  using assms channel_visibility_cached_spec [where env = env and com = com and ch = ch and st = st]
  by (auto simp: visibility_value_def split: option.splits if_splits)

lemma filter_fanout_spec:
  "fst (filter_fanout_by_access env com stored ms threaded st) =
     filter (may_receive env st com stored threaded \<circ> fst) ms \<and>
   same_but_caches st (snd (filter_fanout_by_access env com stored ms threaded st))"
proof (cases "se_channel_id stored")
  case None
  then show ?thesis
    by (simp add: filter_fanout_unfold may_receive_iff passes_channel_def comp_def Let_def)
next
  case (Some ch)
  let ?look = "case threaded of
      Some t \<Rightarrow>
        if tv_community_id t = com \<and> tv_channel_id t = ch then (Ok (tv_visibility t), st)
        else channel_visibility_cached env com ch None st
    | None \<Rightarrow> channel_visibility_cached env com ch None st"
  obtain visibility st' where look: "?look = (visibility, st')" by fastforce
  note looked = threaded_lookup_spec [OF look]
  have conn: "is_member_conn env st' com ch = is_member_conn env st com ch"
    using looked(2,3) by (simp add: fun_eq_iff is_member_conn_def same_but_caches_def)
  have filter: "filter_fanout_by_access env com stored ms threaded st =
      (case visibility of
         Inl _ \<Rightarrow> ([], st')
       | Inr v \<Rightarrow> if v \<noteq> ''private'' then (filter (passes_gates (rl_conns st) com (se_event stored) \<circ> fst) ms, st')
                 else allow_members env com ch (filter (passes_gates (rl_conns st) com (se_event stored) \<circ> fst) ms) [] st')"
    using Some look by (simp add: filter_fanout_unfold Let_def)
  show ?thesis
    unfolding filter
    using looked conn Some allow_members_spec [of env com ch _ "[]" st']
    by (auto simp: may_receive_iff passes_channel_def comp_def conj_commute
        intro: same_but_caches_trans split: sum.splits)
qed

section \<open>Sending\<close>

lemma map_of_frame_cache_fold:
  "map_of (fold (\<lambda>sub_id frames. case map_of frames sub_id of
       Some _ \<Rightarrow> frames | None \<Rightarrow> hm_insert sub_id (event_frame_for_sub sub_id json) frames) ids m) s =
     (case map_of m s of Some f \<Rightarrow> Some f | None \<Rightarrow> if s \<in> set ids then Some (event_frame_for_sub s json) else None)"
  by (induction ids arbitrary: m) (auto split: option.splits)

lemma map_of_frame_cache:
  "map_of (fanout_frame_cache ids json) s = (if s \<in> set ids then Some (event_frame_for_sub s json) else None)"
  by (simp add: fanout_frame_cache_def map_of_frame_cache_fold)

text \<open>The subscriptions of one connection among the recipients.\<close>

definition subs_of :: "uuid \<Rightarrow> conn_sub list \<Rightarrow> string list" where
  "subs_of c recipients = map snd (filter (\<lambda>r. fst r = c) recipients)"

lemma subs_of_simps [simp]:
  "subs_of c [] = []" "subs_of c ((d, s) # rs) = (if d = c then s # subs_of c rs else subs_of c rs)"
  by (simp_all add: subs_of_def)

text \<open>
  How sending changes an entry: its data channel takes a frame for some of the subscriptions,
  in order; for all of them when no buffer is full or closed.
\<close>

definition took_frames :: "bool \<Rightarrow> string list \<Rightarrow> string \<Rightarrow> conn_entry \<Rightarrow> conn_entry \<Rightarrow> bool" where
  "took_frames all_sent ids json e e' \<longleftrightarrow>
     (\<exists>ss. subseq ss ids \<and> (all_sent \<longrightarrow> ss = ids) \<and>
        ce_tx e' = ce_tx e @ map (\<lambda>s. Text (event_frame_for_sub s json)) ss) \<and>
     ce_community_id e' = ce_community_id e \<and> ce_authenticated_pubkey e' = ce_authenticated_pubkey e"

lemma took_frames_refl: "took_frames a [] json e e"
  by (simp add: took_frames_def)

lemma took_frames_cons:
  assumes "took_frames (\<forall>j. sends j = Sent) ids json (snd (send_entry (sends i) (Text (event_frame_for_sub s json)) e)) e'"
  shows "took_frames (\<forall>j. sends j = Sent) (s # ids) json e e'"
proof -
  let ?e1 = "snd (send_entry (sends i) (Text (event_frame_for_sub s json)) e)"
  obtain ss where ss: "subseq ss ids" "(\<forall>j. sends j = Sent) \<longrightarrow> ss = ids"
    "ce_tx e' = ce_tx ?e1 @ map (\<lambda>s. Text (event_frame_for_sub s json)) ss"
    "ce_community_id e' = ce_community_id e" "ce_authenticated_pubkey e' = ce_authenticated_pubkey e"
    using assms unfolding took_frames_def send_entry_fields by blast
  show ?thesis
  proof (cases "sends i = Sent")
    case True
    with ss show ?thesis
      unfolding took_frames_def by (intro conjI exI [of _ "s # ss"]) (auto simp: send_entry_def)
  next
    case False
    then have "ce_tx ?e1 = ce_tx e"
      by (auto simp: send_entry_def cancel_entry_def Let_def split: try_send.split)
    with ss False show ?thesis
      unfolding took_frames_def by (intro conjI exI [of _ ss]) auto
  qed
qed

lemma try_send_map_of:
  "map_of (connections (snd (try_send_ws_message out c msg cm))) d =
     (if d = c then map_option (\<lambda>e. snd (send_entry out msg e)) (map_of (connections cm) c)
      else map_of (connections cm) d)"
  by (auto simp: try_send_ws_message_def split_beta Let_def split: option.splits)

lemma send_fanout_spec:
  assumes "\<forall>(c, s)\<in>set rs. map_of frames s = Some (event_frame_for_sub s json)"
  shows "\<exists>n' cm'. send_fanout_frames sends i rs frames n cm = Some (n', cm') \<and>
    (\<forall>c. rel_option (took_frames (\<forall>j. sends j = Sent) (subs_of c rs) json)
            (map_of (connections cm) c) (map_of (connections cm') c))"
  using assms
proof (induction rs arbitrary: i n cm)
  case Nil
  then show ?case by (auto intro: option.rel_refl took_frames_refl)
next
  case (Cons r rs)
  obtain c s where r: "r = (c, s)" by fastforce
  let ?attempt = "try_send_ws_message (sends i) c (Text (event_frame_for_sub s json)) cm"
  obtain sent cm1 where try_: "?attempt = (sent, cm1)" by fastforce
  obtain n' cm' where IH: "send_fanout_frames sends (i + 1) rs frames (if sent then n else n + 1) cm1 = Some (n', cm')"
    "\<And>d. rel_option (took_frames (\<forall>j. sends j = Sent) (subs_of d rs) json)
        (map_of (connections cm1) d) (map_of (connections cm') d)"
    using Cons.IH [of "i + 1" "if sent then n else n + 1" cm1] Cons.prems by auto
  have cm1: "map_of (connections cm1) d = (if d = c then
      map_option (\<lambda>e. snd (send_entry (sends i) (Text (event_frame_for_sub s json)) e)) (map_of (connections cm) c)
      else map_of (connections cm) d)" for d
    using try_send_map_of [of "sends i" c _ cm d] try_ by (metis snd_conv)
  have "rel_option (took_frames (\<forall>j. sends j = Sent) (subs_of d (r # rs)) json)
      (map_of (connections cm) d) (map_of (connections cm') d)" for d
  proof (cases "d = c")
    case True
    with IH(2) [of c] show ?thesis
      by (cases "map_of (connections cm) c")
        (auto simp: r cm1 option_rel_Some1 intro: took_frames_cons)
  next
    case False
    with IH(2) [of d] show ?thesis by (simp add: r cm1)
  qed
  with IH(1) Cons.prems try_ show ?case by (auto simp: r)
qed

lemma deliver_frames_spec:
  "\<exists>st'. deliver_frames env ev recipients st = Some st' \<and> same_but_caches (st\<lparr>rl_conns := rl_conns st'\<rparr>) st' \<and>
     (case event_json env ev of
        Inl _ \<Rightarrow> rl_conns st' = rl_conns st
      | Inr json \<Rightarrow> (\<forall>c. rel_option (took_frames (\<forall>j. data_sends env j = Sent) (subs_of c recipients) json)
            (map_of (connections (rl_conns st)) c) (map_of (connections (rl_conns st')) c)))"
proof (cases "event_json env ev")
  case (Inl e)
  then show ?thesis by (simp add: deliver_frames_def)
next
  case (Inr json)
  have "\<forall>(c, s)\<in>set recipients.
      map_of (fanout_frame_cache (map snd recipients) json) s = Some (event_frame_for_sub s json)"
    by (auto simp: map_of_frame_cache image_iff) force
  from send_fanout_spec [OF this, of "data_sends env" 0 0 "rl_conns st"] Inr show ?thesis
    by (auto simp: deliver_frames_def same_but_caches_def)
qed

section \<open>The paths\<close>

text \<open>
  What a path does for a set of recipients: every connection stays, and its data channel takes
  at most one frame per admitted subscription, exactly one when no buffer is full or closed.
\<close>

definition delivers_to :: "delivery_env \<Rightarrow> event \<Rightarrow> conn_sub set \<Rightarrow> relay_state \<Rightarrow> relay_state \<Rightarrow> bool" where
  "delivers_to env ev A st st' \<longleftrightarrow>
     dom (map_of (connections (rl_conns st'))) = dom (map_of (connections (rl_conns st))) \<and>
     (\<forall>c e. map_of (connections (rl_conns st)) c = Some e \<longrightarrow>
        (\<exists>e' ss. map_of (connections (rl_conns st')) c = Some e' \<and> distinct ss \<and> set ss \<subseteq> {s. (c, s) \<in> A} \<and>
           (case event_json env ev of
              Inl _ \<Rightarrow> e' = e
            | Inr json \<Rightarrow> ce_tx e' = ce_tx e @ map (\<lambda>s. Text (event_frame_for_sub s json)) ss \<and>
                ((\<forall>j. data_sends env j = Sent) \<longrightarrow> set ss = {s. (c, s) \<in> A}))))"

lemma set_subs_of [simp]: "set (subs_of c rs) = {s. (c, s) \<in> set rs}"
  by (auto simp: subs_of_def) force

lemma distinct_subs_of: "distinct rs \<Longrightarrow> distinct (subs_of c rs)"
  by (auto simp: subs_of_def distinct_map inj_on_def)

lemma delivers_to_none: "rl_conns st' = rl_conns st \<Longrightarrow> delivers_to env ev {} st st'"
  by (auto simp: delivers_to_def intro!: exI [of _ "[]"] split: sum.split)

lemma deliver_frames_delivers:
  assumes "distinct recipients"
  shows "\<exists>st'. deliver_frames env ev recipients st = Some st' \<and>
    same_but_caches (st\<lparr>rl_conns := rl_conns st'\<rparr>) st' \<and> delivers_to env ev (set recipients) st st'"
proof -
  obtain st' where st': "deliver_frames env ev recipients st = Some st'"
    "same_but_caches (st\<lparr>rl_conns := rl_conns st'\<rparr>) st'"
    and spec: "case event_json env ev of
        Inl _ \<Rightarrow> rl_conns st' = rl_conns st
      | Inr json \<Rightarrow> (\<forall>c. rel_option (took_frames (\<forall>j. data_sends env j = Sent) (subs_of c recipients) json)
            (map_of (connections (rl_conns st)) c) (map_of (connections (rl_conns st')) c))"
    using deliver_frames_spec by meson
  have "delivers_to env ev (set recipients) st st'"
  proof (cases "event_json env ev")
    case (Inl e)
    with spec show ?thesis by (auto simp: delivers_to_def intro!: exI [of _ "[]"])
  next
    case (Inr json)
    let ?sent = "\<forall>j. data_sends env j = Sent"
    from spec Inr have rel: "rel_option (took_frames ?sent (subs_of c recipients) json)
        (map_of (connections (rl_conns st)) c) (map_of (connections (rl_conns st')) c)" for c
      by simp
    have "dom (map_of (connections (rl_conns st'))) = dom (map_of (connections (rl_conns st)))"
      using rel by (auto simp: dom_def) (metis option.rel_distinct option.exhaust)+
    moreover have "\<exists>e' ss. map_of (connections (rl_conns st')) c = Some e' \<and> distinct ss \<and>
        set ss \<subseteq> {s. (c, s) \<in> set recipients} \<and>
        ce_tx e' = ce_tx e @ map (\<lambda>s. Text (event_frame_for_sub s json)) ss \<and>
        (?sent \<longrightarrow> set ss = {s. (c, s) \<in> set recipients})"
      if "map_of (connections (rl_conns st)) c = Some e" for c e
    proof -
      from rel [of c] that obtain e' where e': "map_of (connections (rl_conns st')) c = Some e'"
        and took: "took_frames ?sent (subs_of c recipients) json e e'"
        by (auto simp: option_rel_Some1)
      then obtain ss where ss: "subseq ss (subs_of c recipients)" "?sent \<longrightarrow> ss = subs_of c recipients"
        "ce_tx e' = ce_tx e @ map (\<lambda>s. Text (event_frame_for_sub s json)) ss"
        unfolding took_frames_def by blast
      have "distinct ss" using ss(1) distinct_subs_of [OF assms] by (auto simp: subseq_conv_nths)
      moreover have "set ss \<subseteq> {s. (c, s) \<in> set recipients}"
        using ss(1) by (auto simp: subseq_conv_nths dest: in_set_nthsD)
      ultimately show ?thesis using e' ss by auto
    qed
    ultimately show ?thesis using Inr by (simp add: delivers_to_def)
  qed
  with st' show ?thesis by blast
qed
text \<open>The subscriptions a path may serve: those that match, held by connections with access.\<close>

definition live_recipients ::
  "delivery_env \<Rightarrow> relay_state \<Rightarrow> uuid \<Rightarrow> stored_event \<Rightarrow> threaded_visibility option \<Rightarrow> conn_sub set" where
  "live_recipients env st com stored threaded =
     {p. deliverable (rl_registry st) com stored p \<and> may_receive env st com stored threaded (fst p)}"

lemma delivers_to_cong:
  "rl_conns st1 = rl_conns st \<Longrightarrow> rl_conns st1' = rl_conns st' \<Longrightarrow>
   delivers_to env ev A st1 st1' \<longleftrightarrow> delivers_to env ev A st st'"
  by (simp add: delivers_to_def)

lemma access_filtered:
  assumes "registry_reachable (rl_registry st)"
    and "filter_fanout_by_access env com stored (fan_out_scoped com stored (rl_registry st)) threaded st = (ms, st')"
  shows "set ms = live_recipients env st com stored threaded" "distinct ms" "same_but_caches st st'"
proof -
  from filter_fanout_spec [of env com stored "fan_out_scoped com stored (rl_registry st)" threaded st] assms(2)
  have ms: "ms = filter (may_receive env st com stored threaded \<circ> fst) (fan_out_scoped com stored (rl_registry st))"
    and "same_but_caches st st'" by simp_all
  then show "same_but_caches st st'" by simp
  show "distinct ms" unfolding ms by (simp add: fan_out_scoped_distinct)
  show "set ms = live_recipients env st com stored threaded"
    unfolding ms live_recipients_def
    using fan_out_scan [OF registry_reachable_inv [OF assms(1)], of com stored] by auto
qed

lemma same_but_conns_registry:
  "same_but_caches (st\<lparr>rl_conns := cm\<rparr>) st' \<Longrightarrow> rl_registry st' = rl_registry st \<and> rl_local_event_ids st' = rl_local_event_ids st"
  by (simp add: same_but_caches_def)

text \<open>Fan-out, the filter and the send loop together, as the first two paths run them.\<close>

lemma fan_out_filtered_delivers:
  assumes "registry_reachable (rl_registry st)"
  shows "\<exists>st'. (let matches = fan_out_scoped com stored (rl_registry st);
                   (matches, st1) = filter_fanout_by_access env com stored matches threaded st
                in if matches = [] then Some st1 else deliver_frames env (se_event stored) matches st1) = Some st' \<and>
     rl_registry st' = rl_registry st \<and> rl_local_event_ids st' = rl_local_event_ids st \<and>
     delivers_to env (se_event stored) (live_recipients env st com stored threaded) st st'"
proof -
  obtain ms st1 where f: "filter_fanout_by_access env com stored (fan_out_scoped com stored (rl_registry st)) threaded st = (ms, st1)"
    by fastforce
  note acc = access_filtered [OF assms f]
  from acc(3) have st1: "rl_conns st1 = rl_conns st" "rl_registry st1 = rl_registry st"
    "rl_local_event_ids st1 = rl_local_event_ids st" by (simp_all add: same_but_caches_def)
  show ?thesis
  proof (cases "ms = []")
    case True
    with acc(1) st1 have "delivers_to env (se_event stored) (live_recipients env st com stored threaded) st st1"
      by (metis delivers_to_none empty_set)
    with True f st1 show ?thesis by (simp add: Let_def)
  next
    case False
    from deliver_frames_delivers [OF acc(2), of env "se_event stored" st1]
    obtain st' where st': "deliver_frames env (se_event stored) ms st1 = Some st'"
      "same_but_caches (st1\<lparr>rl_conns := rl_conns st'\<rparr>) st'" "delivers_to env (se_event stored) (set ms) st1 st'"
      by blast
    then have "delivers_to env (se_event stored) (live_recipients env st com stored threaded) st st'"
      using acc(1) st1(1) by (simp add: delivers_to_def)
    with False f st' st1 same_but_conns_registry [OF st'(2)] show ?thesis by (simp add: Let_def)
  qed
qed

text \<open>Marks and audit entries do not change who may receive.\<close>

definition delivery_equiv :: "relay_state \<Rightarrow> relay_state \<Rightarrow> bool" where
  "delivery_equiv st st' \<longleftrightarrow> rl_conns st' = rl_conns st \<and> rl_registry st' = rl_registry st \<and>
     rl_membership_cache st' = rl_membership_cache st \<and> rl_visibility_cache st' = rl_visibility_cache st"

lemma live_recipients_equiv:
  "delivery_equiv st st' \<Longrightarrow> live_recipients env st' com stored threaded = live_recipients env st com stored threaded"
proof -
  assume "delivery_equiv st st'"
  then have "member_value env st' = member_value env st" "visibility_value env st' = visibility_value env st"
    "rl_conns st' = rl_conns st" "rl_registry st' = rl_registry st"
    by (auto simp: delivery_equiv_def fun_eq_iff member_value_def visibility_value_def split: option.split)
  then show ?thesis by (simp add: live_recipients_def may_receive_def is_member_conn_def)
qed

lemma delivery_equiv_ops:
  "delivery_equiv st (enqueue_event_created_audit env com stored kind actor i st)"
  "delivery_equiv st (mark_local_event com i st)" "delivery_equiv st (invalidate_local_event com i st)"
  by (simp_all add: delivery_equiv_def enqueue_event_created_audit_def mark_local_event_def
      invalidate_local_event_def Let_def split: option.split)

lemma delivery_equiv_trans: "delivery_equiv st st' \<Longrightarrow> delivery_equiv st' st'' \<Longrightarrow> delivery_equiv st st''"
  by (simp add: delivery_equiv_def)

text \<open>The owner gate of the third path.\<close>

definition owner_ok :: "u32 \<Rightarrow> event \<Rightarrow> conn_manager \<Rightarrow> uuid \<Rightarrow> bool" where
  "owner_ok kind ev cm c \<longleftrightarrow> (\<forall>owner. private_event_owner kind ev = Some owner \<longrightarrow> pubkey_for_conn c cm = Some owner)"

lemma owner_recipients_eq: "owner_recipients kind ev cm ms = filter (owner_ok kind ev cm \<circ> fst) ms"
  by (auto simp: owner_recipients_def owner_ok_def split: option.splits intro!: filter_cong)

lemma audit_local_ids [simp]:
  "rl_local_event_ids (enqueue_event_created_audit env com stored kind actor i st) = rl_local_event_ids st"
  "rl_registry (enqueue_event_created_audit env com stored kind actor i st) = rl_registry st"
  "rl_conns (enqueue_event_created_audit env com stored kind actor i st) = rl_conns st"
  by (simp_all add: enqueue_event_created_audit_def Let_def split: option.split)

lemma dispatch_inner_spec:
  fixes st :: relay_state
  assumes "registry_reachable (rl_registry st)"
  shows "\<exists>r st'. dispatch_persistent_event_inner env com stored kind actor audit threaded st = Some (r, st') \<and>
     dr_published r = (if publish_ok env
        then Some (case se_channel_id stored of Some c \<Rightarrow> TopicChannel c | None \<Rightarrow> TopicGlobal, se_event stored) else None) \<and>
     rl_registry st' = rl_registry st \<and>
     set (rl_local_event_ids st') = (if publish_ok env then insert (com, ev_id (se_event stored)) (set (rl_local_event_ids st))
        else set (rl_local_event_ids st) - {(com, ev_id (se_event stored))}) \<and>
     delivers_to env (se_event stored)
       {p \<in> live_recipients env st com stored threaded. owner_ok kind (se_event stored) (rl_conns st) (fst p)} st st'"
proof -
  let ?ev = "se_event stored"
  define st1 where "st1 = mark_local_event com (ev_id ?ev) st"
  define st2 where "st2 = (if publish_ok env then st1 else invalidate_local_event com (ev_id ?ev) st1)"
  have equiv: "delivery_equiv st st2"
    by (auto simp: st1_def st2_def intro: delivery_equiv_ops delivery_equiv_trans)
  then have st2: "rl_conns st2 = rl_conns st" "rl_registry st2 = rl_registry st" by (simp_all add: delivery_equiv_def)
  have marks: "set (rl_local_event_ids st2) = (if publish_ok env then insert (com, ev_id ?ev) (set (rl_local_event_ids st))
      else set (rl_local_event_ids st) - {(com, ev_id ?ev)})"
    by (auto simp: st1_def st2_def mark_local_event_def invalidate_local_event_def)
  obtain ms st3 where f: "filter_fanout_by_access env com stored (fan_out_scoped com stored (rl_registry st2)) threaded st2 = (ms, st3)"
    by fastforce
  note acc = access_filtered [OF assms [folded st2(2)] f]
  have st3: "rl_conns st3 = rl_conns st" "rl_registry st3 = rl_registry st" "rl_local_event_ids st3 = rl_local_event_ids st2"
    using acc(3) st2 by (simp_all add: same_but_caches_def)
  let ?rs = "owner_recipients kind ?ev (rl_conns st3) ms"
  have rs: "set ?rs = {p \<in> live_recipients env st com stored threaded. owner_ok kind ?ev (rl_conns st) (fst p)}"
    and dist: "distinct ?rs"
    using acc(1,2) live_recipients_equiv [OF equiv] st3(1) by (auto simp: owner_recipients_eq)
  from deliver_frames_delivers [OF dist, of env ?ev st3]
  obtain st4 where st4: "deliver_frames env ?ev ?rs st3 = Some st4" "same_but_caches (st3\<lparr>rl_conns := rl_conns st4\<rparr>) st4"
    "delivers_to env ?ev (set ?rs) st3 st4" by blast
  have reg: "rl_registry st4 = rl_registry st" "rl_local_event_ids st4 = rl_local_event_ids st2"
    using same_but_conns_registry [OF st4(2)] st3 by simp_all
  let ?pub = "if publish_ok env
      then Some (case se_channel_id stored of Some c \<Rightarrow> TopicChannel c | None \<Rightarrow> TopicGlobal, ?ev) else None"
  have unfolded: "dispatch_persistent_event_inner env com stored kind actor audit threaded st =
      (case event_json env ?ev of
         Inl _ \<Rightarrow> Some (\<lparr>dr_matches = 0, dr_published = ?pub, dr_workflow = False\<rparr>, st3)
       | Inr json \<Rightarrow> map_option (\<lambda>st4. (\<lparr>dr_matches = length ms, dr_published = ?pub,
             dr_workflow = triggers_workflow env kind ?ev\<rparr>,
             if audit then enqueue_event_created_audit env com stored kind actor (ev_id ?ev) st4 else st4))
           (deliver_frames env ?ev ?rs st3))"
    unfolding dispatch_persistent_event_inner_def Let_def
    unfolding st1_def [symmetric] st2_def [symmetric] f by (simp add: Let_def)
  show ?thesis
  proof (cases "event_json env ?ev")
    case (Inl e)
    have "delivers_to env ?ev (set ?rs) st st3"
      using Inl st3(1) by (auto simp: delivers_to_def intro!: exI [of _ "[]"])
    with Inl st3 marks rs show ?thesis unfolding unfolded by simp
  next
    case (Inr json)
    have "delivers_to env ?ev (set ?rs) st st4" using st4(3) st3(1) by (simp add: delivers_to_def)
    then have "delivers_to env ?ev (set ?rs) st (if audit then enqueue_event_created_audit env com stored kind actor (ev_id ?ev) st4 else st4)"
      by (simp add: delivers_to_def)
    with Inr st4(1) reg marks rs show ?thesis unfolding unfolded by simp
  qed
qed

lemma result_gated_kinds: "k \<in> set RESULT_GATED_KINDS \<longleftrightarrow> k = KIND_DM_VISIBILITY \<or> k = KIND_AGENT_TURN_METRIC"
  by (auto simp: RESULT_GATED_KINDS_def)

lemma owner_is_authorized:
  assumes "owner_ok (event_kind_u32 ev) ev cm c" "event_kind_u32 ev \<in> set RESULT_GATED_KINDS"
    "tag_values ev ''p'' \<noteq> []"
  shows "\<exists>reader. pubkey_for_conn c cm = Some reader \<and> reader_authorized_for_event ev reader"
proof -
  obtain owner rest where p: "tag_values ev ''p'' = owner # rest" using assms(3) by (cases "tag_values ev ''p''") auto
  with assms(1,2) have "pubkey_for_conn c cm = Some owner"
    by (auto simp: owner_ok_def private_event_owner_def result_gated_kinds)
  moreover have "owner \<in> set (tag_values ev ''p'')" by (simp add: p)
  then have "reader_authorized_for_event ev owner"
    by (auto simp: reader_authorized_for_event_def Let_def list_ex_iff tag_values_iff)
  ultimately show ?thesis by blast
qed

lemma may_receive_visible:
  assumes "may_receive env st com stored threaded c" "pubkey_for_conn c (rl_conns st) = Some reader"
    "reader_authorized_for_event (se_event stored) reader"
  shows "event_visible_to_reader (se_event stored) reader"
  using assms by (auto simp: may_receive_iff passes_gates_def event_visible_iff is_unshared_gated_event_def split: if_splits)

section \<open>Properties\<close>

text \<open>
  C16: Live delivery of a relay-local event is exact and total. Fan-out never panics on its
  frame cache; every connection stays registered; and each connection's data channel takes
  one frame for each of its subscriptions that matches the event, held by a connection of the
  event's community that passes the author, sharing and channel-membership gates. It takes
  fewer only where a buffer is full or closed, and never one frame twice.
\<close>

theorem live_delivery_exact:
  assumes "registry_reachable (rl_registry st)"
  shows "\<exists>st'. fan_out_event_to_local_subscribers env com stored st = Some st' \<and>
    rl_registry st' = rl_registry st \<and>
    delivers_to env (se_event stored)
      {(c, s). (\<exists>fs sc. lookup_sub (rl_registry st) (c, s) = Some (fs, com, sc) \<and>
                   matches_channel sc (se_channel_id stored) \<and> filters_match fs stored) \<and>
               may_receive env st com stored None c} st st'"
proof -
  have "{(c, s). (\<exists>fs sc. lookup_sub (rl_registry st) (c, s) = Some (fs, com, sc) \<and>
            matches_channel sc (se_channel_id stored) \<and> filters_match fs stored) \<and>
        may_receive env st com stored None c} = live_recipients env st com stored None"
    by (auto simp: live_recipients_def deliverable_def)
  with fan_out_filtered_delivers [OF assms, of com stored env None] show ?thesis
    by (auto simp: fan_out_event_to_local_subscribers_def)
qed

text \<open>
  C3: A stored event reaches only its readers. Dispatch of a stored event completes; whatever
  it sends goes to subscriptions that match, on connections of the event's community whose
  authenticated reader may see the event, under the same result gate as historical queries;
  for every gated kind the connection is authenticated. (An event of a viewer-private kind
  must carry the \<open>p\<close> tag of its owner.)
\<close>

theorem stored_event_reaches_only_its_readers:
  assumes "registry_reachable (rl_registry st)"
    and "event_kind_u32 (se_event stored) \<in> set RESULT_GATED_KINDS \<longrightarrow> tag_values (se_event stored) ''p'' \<noteq> []"
  shows "\<exists>r st' A. dispatch_persistent_event env com stored (event_kind_u32 (se_event stored)) actor threaded st = Some (r, st') \<and>
    delivers_to env (se_event stored) A st st' \<and>
    (\<forall>(c, s)\<in>A. deliverable (rl_registry st) com stored (c, s) \<and> may_receive env st com stored threaded c \<and>
       (\<forall>reader. pubkey_for_conn c (rl_conns st) = Some reader \<longrightarrow> event_visible_to_reader (se_event stored) reader) \<and>
       (event_kind_u32 (se_event stored) \<in> set (AUTHOR_ONLY_KINDS @ SHARED_GATED_KINDS @ RESULT_GATED_KINDS) \<longrightarrow>
          pubkey_for_conn c (rl_conns st) \<noteq> None))"
proof -
  let ?ev = "se_event stored"
  define st1 where "st1 = enqueue_event_created_audit env com stored (event_kind_u32 ?ev) actor (ev_id ?ev) st"
  have equiv: "delivery_equiv st st1" by (simp add: st1_def delivery_equiv_ops)
  have st1: "rl_registry st1 = rl_registry st" "rl_conns st1 = rl_conns st" by (simp_all add: st1_def)
  let ?A = "{p \<in> live_recipients env st com stored threaded. owner_ok (event_kind_u32 ?ev) ?ev (rl_conns st) (fst p)}"
  have unfolded: "dispatch_persistent_event env com stored (event_kind_u32 ?ev) actor threaded st =
      dispatch_persistent_event_inner env com stored (event_kind_u32 ?ev) actor False threaded st1"
    by (simp add: dispatch_persistent_event_def st1_def)
  from dispatch_inner_spec [OF assms(1) [folded st1(1)], of env com stored "event_kind_u32 ?ev" actor False threaded]
  obtain r st' where
    disp: "dispatch_persistent_event env com stored (event_kind_u32 ?ev) actor threaded st = Some (r, st')"
    and "delivers_to env ?ev ?A st1 st'"
    unfolding unfolded live_recipients_equiv [OF equiv] st1(2) by blast
  then have del: "delivers_to env ?ev ?A st st'" by (simp add: delivers_to_def st1)
  have entitled: "(\<forall>reader. pubkey_for_conn c (rl_conns st) = Some reader \<longrightarrow> event_visible_to_reader ?ev reader) \<and>
      (event_kind_u32 ?ev \<in> set (AUTHOR_ONLY_KINDS @ SHARED_GATED_KINDS @ RESULT_GATED_KINDS) \<longrightarrow>
          pubkey_for_conn c (rl_conns st) \<noteq> None)" if "(c, s) \<in> ?A" for c s
  proof -
    from that have may: "may_receive env st com stored threaded c"
      and own: "owner_ok (event_kind_u32 ?ev) ?ev (rl_conns st) c" by (auto simp: live_recipients_def)
    have gated: "\<exists>reader. pubkey_for_conn c (rl_conns st) = Some reader \<and> reader_authorized_for_event ?ev reader"
      if "event_kind_u32 ?ev \<in> set RESULT_GATED_KINDS"
      using owner_is_authorized [OF own that] assms(2) that by blast
    have "reader_authorized_for_event ?ev reader" if "event_kind_u32 ?ev \<notin> set RESULT_GATED_KINDS" for reader
      using that by (simp add: reader_authorized_for_event_def result_gated_kinds)
    with gated have "reader_authorized_for_event ?ev reader" if "pubkey_for_conn c (rl_conns st) = Some reader" for reader
      using that by (cases "event_kind_u32 ?ev \<in> set RESULT_GATED_KINDS") auto
    with gated may_receive_visible [OF may] may show ?thesis
      by (auto simp: may_receive_iff passes_gates_def is_shared_gated_kind_def)
  qed
  have "\<forall>(c, s)\<in>?A. deliverable (rl_registry st) com stored (c, s) \<and> may_receive env st com stored threaded c \<and>
       (\<forall>reader. pubkey_for_conn c (rl_conns st) = Some reader \<longrightarrow> event_visible_to_reader ?ev reader) \<and>
       (event_kind_u32 ?ev \<in> set (AUTHOR_ONLY_KINDS @ SHARED_GATED_KINDS @ RESULT_GATED_KINDS) \<longrightarrow>
          pubkey_for_conn c (rl_conns st) \<noteq> None)"
    using entitled by (auto simp: live_recipients_def)
  with disp del show ?thesis by blast
qed

text \<open>
  C34: Every stored event is delivered once per node. After a dispatch whose publication
  succeeded, the echo of the event from the message bus sends nothing to anyone and consumes
  its mark; an event with the same id of another community is not suppressed: unless it was
  dispatched here itself, it reaches every matching subscription with access.
\<close>

theorem echo_is_suppressed_per_community:
  assumes "registry_reachable (rl_registry st)" "publish_ok env"
    and "dispatch_persistent_event env com stored kind actor threaded st = Some (r, st')"
  shows "(\<exists>st''. fan_out_pubsub_event env now com topic (se_event stored) st' = Some st'' \<and> rl_conns st'' = rl_conns st' \<and>
      set (rl_local_event_ids st'') = set (rl_local_event_ids st') - {(com, ev_id (se_event stored))}) \<and>
    (other \<noteq> com \<and> (other, ev_id (se_event stored)) \<notin> set (rl_local_event_ids st) \<longrightarrow>
     (\<exists>st''. fan_out_pubsub_event env now other topic (se_event stored) st' = Some st'' \<and>
        delivers_to env (se_event stored)
          (live_recipients env st' other (stored_event_new now (se_event stored) (topic_channel topic)) None) st' st''))"
proof -
  let ?ev = "se_event stored"
  define st1 where "st1 = enqueue_event_created_audit env com stored kind actor (ev_id ?ev) st"
  have reach: "registry_reachable (rl_registry st1)" using assms(1) by (simp add: st1_def)
  from dispatch_inner_spec [OF reach, of env com stored kind actor False threaded] assms(2,3)
  have st': "rl_registry st' = rl_registry st" "set (rl_local_event_ids st') = insert (com, ev_id ?ev) (set (rl_local_event_ids st))"
    by (auto simp: dispatch_persistent_event_def st1_def)
  have "registry_reachable (rl_registry st')" using assms(1) st'(1) by simp
  note out = fan_out_filtered_delivers [OF this, of other "stored_event_new now ?ev (topic_channel topic)" env None]
  have se: "se_event (stored_event_new now ?ev (topic_channel topic)) = ?ev" by (simp add: stored_event_new_def)
  show ?thesis
    using st'(2) out [unfolded se] by (auto simp: fan_out_pubsub_event_def invalidate_local_event_def Let_def)
qed

subsection \<open>A relay with two members\<close>

definition two_conns :: conn_manager where
  "two_conns = set_authenticated_pubkey ''c2'' ''bob'' (cm_register Sent ''c2'' (sample_conn ''com'')
     (set_authenticated_pubkey ''c1'' ''alice'' (cm_register Sent ''c1'' (sample_conn ''com'') conn_manager_new)))"

definition ids_filter :: nostr_filter where
  "ids_filter = \<lparr>f_ids = Some [''e1''], f_authors = None, f_kinds = None, f_since = None, f_until = None,
     f_generic_tags = [], f_search = None, f_limit = None\<rparr>"

definition two_members :: relay_state where
  "two_members = \<lparr>rl_conns = two_conns,
     rl_registry = snd (register_scoped ''com'' ''c1'' ''s1'' [ids_filter] None
       (snd (register_scoped ''com'' ''c2'' ''s2'' [ids_filter] None registry_new))),
     rl_local_event_ids = [], rl_membership_cache = [], rl_accessible_cache = [], rl_visibility_cache = [],
     rl_audit_tx = None\<rparr>"

definition sample_env :: delivery_env where
  "sample_env = \<lparr>db_is_member = \<lambda>_ _ _. Ok False, db_get_channel_visibility = \<lambda>_ _. Ok ''open'',
     db_get_accessible_channel_ids = \<lambda>_ _. Ok [], event_json = \<lambda>_. Ok ''{}'', data_sends = \<lambda>_. Sent,
     publish_ok = True, audit_open = True, relay_pubkey = ''relay'', community_bytes = \<lambda>_. [], hex_bytes = \<lambda>_. None\<rparr>"

definition turn_metric :: event where
  "turn_metric = \<lparr>ev_id = ''e1'', ev_pubkey = ''agent'', ev_created_at = 5, ev_kind = 44200,
     ev_tags = [\<lparr>tag_kind = ''p'', tag_content = Some ''alice'', tag_slice = [''p'', ''alice'']\<rparr>], ev_content = ''c''\<rparr>"

definition sent_frames :: "uuid \<Rightarrow> relay_state \<Rightarrow> nat" where
  "sent_frames c st = (case map_of (connections (rl_conns st)) c of None \<Rightarrow> 0 | Some e \<Rightarrow> length (ce_tx e))"

lemma two_members_reachable: "registry_reachable (rl_registry two_members)"
  unfolding two_members_def by (simp add: reach_register reach_new)


theorem live_delivery_exact_witness:
  "\<exists>st'. fan_out_event_to_local_subscribers sample_env ''com'' (stored_event_new 0 turn_metric None) two_members = Some st'"
  using live_delivery_exact [OF two_members_reachable, of sample_env "''com''" "stored_event_new 0 turn_metric None"] by blast

theorem stored_event_reaches_only_its_readers_witness:
  "\<exists>r st' A. dispatch_persistent_event sample_env ''com'' (stored_event_new 0 turn_metric None)
      (event_kind_u32 turn_metric) ''agent'' None two_members = Some (r, st') \<and>
    (\<forall>(c, s)\<in>A. pubkey_for_conn c two_conns \<noteq> None) \<and> delivers_to sample_env turn_metric A two_members st'"
proof -
  let ?stored = "stored_event_new 0 turn_metric None"
  have ev: "se_event ?stored = turn_metric" by (simp add: stored_event_new_def)
  have kind: "event_kind_u32 turn_metric \<in> set (AUTHOR_ONLY_KINDS @ SHARED_GATED_KINDS @ RESULT_GATED_KINDS)" by code_simp
  have "tag_values turn_metric ''p'' \<noteq> []" by code_simp
  with stored_event_reaches_only_its_readers [OF two_members_reachable, of ?stored sample_env "''com''" "''agent''" None]
  obtain r st' A where "dispatch_persistent_event sample_env ''com'' ?stored (event_kind_u32 turn_metric) ''agent'' None two_members = Some (r, st')"
    "delivers_to sample_env turn_metric A two_members st'" "\<forall>(c, s)\<in>A. pubkey_for_conn c (rl_conns two_members) \<noteq> None"
    unfolding ev using kind by fast
  moreover have "rl_conns two_members = two_conns" by (simp add: two_members_def)
  ultimately show ?thesis by auto
qed

theorem echo_is_suppressed_per_community_witness:
  "\<exists>r st' st''. dispatch_persistent_event sample_env ''com'' (stored_event_new 0 turn_metric None)
      (event_kind_u32 turn_metric) ''agent'' None two_members = Some (r, st') \<and>
    fan_out_pubsub_event sample_env 0 ''com'' TopicGlobal turn_metric st' = Some st'' \<and> rl_conns st'' = rl_conns st'"
proof -
  let ?stored = "stored_event_new 0 turn_metric None"
  let ?d = "dispatch_persistent_event sample_env ''com'' ?stored (event_kind_u32 turn_metric) ''agent'' None two_members"
  have "?d \<noteq> None" by code_simp
  then obtain r st' where d: "?d = Some (r, st')" by auto
  have ok: "publish_ok sample_env" by (simp add: sample_env_def)
  have ev: "se_event ?stored = turn_metric" by (simp add: stored_event_new_def)
  from echo_is_suppressed_per_community [OF two_members_reachable ok d, of 0 TopicGlobal, unfolded ev]
  obtain st'' where "fan_out_pubsub_event sample_env 0 ''com'' TopicGlobal turn_metric st' = Some st''"
    "rl_conns st'' = rl_conns st'" by blast
  with d show ?thesis by blast
qed

end
