(* ===== verification/EventStore.thy ===== *)
theory EventStore
  imports ReadGates "HOL-Library.Char_ord" "HOL-Library.List_Lexorder" "HOL-Library.Product_Lexorder"
begin

text \<open>
  The event tables (\<open>buzz-db/src/event.rs\<close>, the event operations of \<open>buzz-db/src/lib.rs\<close>):
  insertion with its mention index and thread counters, queries and counts, soft deletion,
  replacement of replaceable and parameterized events, and reminder claims.

  A table is a list of rows. A statement is a function on the tables: \<open>WHERE\<close> a predicate that
  is false on \<open>NULL\<close>, a join the list of pairs, \<open>ON CONFLICT DO NOTHING\<close> a test of the primary
  key, a transaction one function. Key uniqueness is the only constraint of the schema the code
  relies on; triggers and partitions are not modelled. A \<open>bytea\<close> id is its hex text, with the
  same order. \<open>chrono\<close>'s range of timestamps is the argument \<open>in_range\<close>, \<open>NOW()\<close> the argument
  \<open>now\<close>. JSONB containment of \<open>[["e", x]]\<close> in the tags asks for a tag that has both elements
  at any position.
\<close>

section \<open>Tables\<close>

record event_row =
  er_community_id :: uuid
  er_event :: event
  er_created_at :: int
  er_received_at :: nat
  er_channel_id :: "uuid option"
  er_deleted_at :: "nat option"
  er_d_tag :: "string option"
  er_not_before :: "int option"
  er_delivered_at :: "int option"

record mention_row =
  mn_community_id :: uuid
  mn_pubkey_hex :: string
  mn_event_id :: event_id

record thread_row =
  th_community_id :: uuid
  th_event_created_at :: int
  th_event_id :: event_id
  th_channel_id :: uuid
  th_parent_event_id :: "event_id option"
  th_root_event_id :: "event_id option"
  th_depth :: int
  th_broadcast :: bool
  th_reply_count :: int
  th_descendant_count :: int

type_synonym coordinate = "uuid \<times> int \<times> pubkey \<times> string"

record event_db =
  db_events :: "event_row list"
  db_mentions :: "mention_row list"
  db_threads :: "thread_row list"
  db_watermarks :: "(coordinate, int \<times> event_id) hashmap"

datatype db_error =
    Sqlx string | Migrate string | AuthEventRejected | EphemeralEventRejected u16 | ChannelNotFound uuid
  | MemberNotFound uuid | NotFound string | AccessDenied string | Serde string | InvalidData string
  | ServingWritesNotDrained uuid int "string list" | DeletionSafety string | InvalidTimestamp int

abbreviation er_id :: "event_row \<Rightarrow> event_id" where
  "er_id row \<equiv> ev_id (er_event row)"

abbreviation er_pubkey :: "event_row \<Rightarrow> pubkey" where
  "er_pubkey row \<equiv> ev_pubkey (er_event row)"

text \<open>The \<open>INT\<close> column \<open>kind\<close>: \<open>event_kind_i32\<close>, the kind itself.\<close>

definition kind_column :: "u16 \<Rightarrow> int" where
  "kind_column k = uint k"

abbreviation er_kind :: "event_row \<Rightarrow> int" where
  "er_kind row \<equiv> kind_column (ev_kind (er_event row))"

text \<open>\<open>DateTime::from_timestamp(secs as i64, 0).ok_or(InvalidTimestamp)\<close>.\<close>

definition to_datetime :: "(int \<Rightarrow> bool) \<Rightarrow> u64 \<Rightarrow> (int, db_error) result" where
  "to_datetime in_range t = (let secs = sint t in if in_range secs then Ok secs else Err (InvalidTimestamp secs))"

text \<open>A row whose event cannot be rebuilt is skipped: a negative time is not a Nostr timestamp.\<close>

definition row_to_stored_event :: "event_row \<Rightarrow> stored_event option" where
  "row_to_stored_event row =
     (if er_created_at row < 0 then None
      else Some (with_received_at ((er_event row)\<lparr>ev_created_at := of_int (er_created_at row)\<rparr>)
                   (er_received_at row) (er_channel_id row) True))"

section \<open>Derived columns\<close>

fun first_tag_value :: "string \<Rightarrow> (string \<Rightarrow> 'a option) \<Rightarrow> tag list \<Rightarrow> 'a option" where
  "first_tag_value name f [] = None"
| "first_tag_value name f (t # ts) =
     (let parts = tag_slice t
      in case (if length parts \<ge> 2 \<and> parts ! 0 = name then f (parts ! 1) else None) of
           Some v \<Rightarrow> Some v
         | None \<Rightarrow> first_tag_value name f ts)"

definition extract_d_tag :: "event \<Rightarrow> string option" where
  "extract_d_tag ev =
     (if \<not> is_parameterized_replaceable (kind_u32 (ev_kind ev)) then None
      else Some (case first_tag_value ''d'' Some (ev_tags ev) of Some v \<Rightarrow> v | None \<Rightarrow> ''''))"

text \<open>\<open>str::parse::<i64>\<close>: an optional sign, at least one digit, no overflow.\<close>

definition all_digits :: "string \<Rightarrow> bool" where
  "all_digits s = (s \<noteq> [] \<and> list_all (\<lambda>c. 48 \<le> (of_char c :: nat) \<and> (of_char c :: nat) \<le> 57) s)"

definition parse_i64 :: "string \<Rightarrow> int option" where
  "parse_i64 s =
     (let (neg, digits) = (case s of c # rest \<Rightarrow>
            if c = CHR ''-'' then (True, rest) else if c = CHR ''+'' then (False, rest) else (False, s) | [] \<Rightarrow> (False, []));
          v = int (read_nat digits)
      in if \<not> all_digits digits then None
         else if neg then (if v \<le> 2 ^ 63 then Some (- v) else None)
         else if v < 2 ^ 63 then Some v else None)"

definition extract_not_before :: "event \<Rightarrow> int option" where
  "extract_not_before ev =
     (if kind_u32 (ev_kind ev) \<noteq> KIND_EVENT_REMINDER then None
      else first_tag_value ''not_before'' parse_i64 (ev_tags ev))"

section \<open>Insertion\<close>

definition event_key :: "event_row \<Rightarrow> uuid \<times> int \<times> event_id" where
  "event_key row = (er_community_id row, er_created_at row, er_id row)"

text \<open>\<open>INSERT INTO events \<dots> ON CONFLICT DO NOTHING\<close>: whether a row was written.\<close>

definition insert_row :: "event_row \<Rightarrow> event_db \<Rightarrow> bool \<times> event_db" where
  "insert_row row db =
     (if event_key row \<in> event_key ` set (db_events db) then (False, db)
      else (True, db\<lparr>db_events := db_events db @ [row]\<rparr>))"

definition new_row :: "nat \<Rightarrow> uuid \<Rightarrow> event \<Rightarrow> int \<Rightarrow> uuid option \<Rightarrow> string option \<Rightarrow> int option \<Rightarrow> event_row" where
  "new_row now com ev created_at ch d_tag not_before =
     \<lparr>er_community_id = com, er_event = ev, er_created_at = created_at, er_received_at = now, er_channel_id = ch,
      er_deleted_at = None, er_d_tag = d_tag, er_not_before = not_before, er_delivered_at = None\<rparr>"

definition insert_event ::
  "(int \<Rightarrow> bool) \<Rightarrow> nat \<Rightarrow> uuid \<Rightarrow> event \<Rightarrow> uuid option \<Rightarrow> event_db \<Rightarrow> ((stored_event \<times> bool) \<times> event_db, db_error) result" where
  "insert_event in_range now com ev ch db =
     (if kind_u32 (ev_kind ev) = KIND_AUTH then Err AuthEventRejected
      else if is_ephemeral (kind_u32 (ev_kind ev)) then Err (EphemeralEventRejected (ev_kind ev))
      else and_then (to_datetime in_range (ev_created_at ev)) (\<lambda>created_at.
        let (was_inserted, db') = insert_row (new_row now com ev created_at ch (extract_d_tag ev) (extract_not_before ev)) db
        in Ok ((with_received_at ev now ch True, was_inserted), db')))"

definition is_ascii_hexdigit :: "char \<Rightarrow> bool" where
  "is_ascii_hexdigit c =
     (let n = of_char c :: nat in (48 \<le> n \<and> n \<le> 57) \<or> (65 \<le> n \<and> n \<le> 70) \<or> (97 \<le> n \<and> n \<le> 102))"

definition mention_pubkeys :: "event \<Rightarrow> string list" where
  "mention_pubkeys ev =
     (let p_tags = map (\<lambda>t. tag_slice t ! 1)
            (filter (\<lambda>t. length (tag_slice t) \<ge> 2 \<and> tag_slice t ! 0 = ''p'') (ev_tags ev))
      in map ascii_lower (filter (\<lambda>pk. length pk = 64 \<and> list_all is_ascii_hexdigit pk) p_tags))"

definition insert_mention :: "mention_row \<Rightarrow> mention_row list \<Rightarrow> mention_row list" where
  "insert_mention m ms = (if m \<in> set ms then ms else ms @ [m])"

definition insert_mentions_in_transaction ::
  "(int \<Rightarrow> bool) \<Rightarrow> uuid \<Rightarrow> event \<Rightarrow> event_db \<Rightarrow> (event_db, db_error) result" where
  "insert_mentions_in_transaction in_range com ev db =
     (if filter (\<lambda>t. length (tag_slice t) \<ge> 2 \<and> tag_slice t ! 0 = ''p'') (ev_tags ev) = [] then Ok db
      else and_then (to_datetime in_range (ev_created_at ev)) (\<lambda>_.
        Ok (db\<lparr>db_mentions := fold (\<lambda>pk. insert_mention
              \<lparr>mn_community_id = com, mn_pubkey_hex = pk, mn_event_id = ev_id ev\<rparr>) (mention_pubkeys ev) (db_mentions db)\<rparr>)))"

text \<open>
  \<open>Db::insert_event\<close>: the event, then its mentions in a second transaction whose failure is
  only logged. \<open>mentions_ok\<close> is whether that transaction commits.
\<close>

definition db_insert_event ::
  "(int \<Rightarrow> bool) \<Rightarrow> bool \<Rightarrow> nat \<Rightarrow> uuid \<Rightarrow> event \<Rightarrow> uuid option \<Rightarrow> event_db
     \<Rightarrow> ((stored_event \<times> bool) \<times> event_db, db_error) result" where
  "db_insert_event in_range mentions_ok now com ev ch db =
     and_then (insert_event in_range now com ev ch db) (\<lambda>((stored, was_inserted), db').
       if was_inserted \<and> mentions_ok then
         (case insert_mentions_in_transaction in_range com ev db' of
            Inr db'' \<Rightarrow> Ok ((stored, was_inserted), db'')
          | Inl _ \<Rightarrow> Ok ((stored, was_inserted), db'))
       else Ok ((stored, was_inserted), db'))"

section \<open>Thread counters\<close>

record thread_metadata_params =
  tp_event_id :: event_id
  tp_event_created_at :: int
  tp_channel_id :: uuid
  tp_parent_event_id :: "event_id option"
  tp_parent_event_created_at :: "int option"
  tp_root_event_id :: "event_id option"
  tp_root_event_created_at :: "int option"
  tp_depth :: int
  tp_broadcast :: bool

definition thread_key :: "thread_row \<Rightarrow> uuid \<times> int \<times> event_id" where
  "thread_key row = (th_community_id row, th_event_created_at row, th_event_id row)"

definition insert_thread :: "thread_row \<Rightarrow> thread_row list \<Rightarrow> bool \<times> thread_row list" where
  "insert_thread row ts = (if thread_key row \<in> thread_key ` set ts then (False, ts) else (True, ts @ [row]))"

definition thread_stub :: "uuid \<Rightarrow> int \<Rightarrow> event_id \<Rightarrow> uuid \<Rightarrow> thread_row" where
  "thread_stub com ts i ch =
     \<lparr>th_community_id = com, th_event_created_at = ts, th_event_id = i, th_channel_id = ch, th_parent_event_id = None,
      th_root_event_id = None, th_depth = 0, th_broadcast = False, th_reply_count = 0, th_descendant_count = 0\<rparr>"

definition update_threads ::
  "uuid \<Rightarrow> event_id \<Rightarrow> (thread_row \<Rightarrow> thread_row) \<Rightarrow> thread_row list \<Rightarrow> thread_row list" where
  "update_threads com i f ts = map (\<lambda>row. if th_community_id row = com \<and> th_event_id row = i then f row else row) ts"

text \<open>The row of a message.\<close>

definition meta_row :: "uuid \<Rightarrow> thread_metadata_params \<Rightarrow> thread_row" where
  "meta_row com meta =
     \<lparr>th_community_id = com, th_event_created_at = tp_event_created_at meta, th_event_id = tp_event_id meta,
      th_channel_id = tp_channel_id meta, th_parent_event_id = tp_parent_event_id meta,
      th_root_event_id = tp_root_event_id meta, th_depth = tp_depth meta, th_broadcast = tp_broadcast meta,
      th_reply_count = 0, th_descendant_count = 0\<rparr>"

definition insert_thread_metadata_tx :: "uuid \<Rightarrow> thread_metadata_params \<Rightarrow> thread_row list \<Rightarrow> thread_row list" where
  "insert_thread_metadata_tx com meta ts0 =
     (let (inserted, ts1) = insert_thread (meta_row com meta) ts0
      in if \<not> inserted then ts1
         else (case tp_parent_event_id meta of
                 None \<Rightarrow> ts1
               | Some pid \<Rightarrow>
                   (let stub_ts = (\<lambda>t. case t of Some v \<Rightarrow> v | None \<Rightarrow> tp_event_created_at meta);
                        ts2 = snd (insert_thread (thread_stub com (stub_ts (tp_parent_event_created_at meta)) pid (tp_channel_id meta)) ts1);
                        ts3 = (case tp_root_event_id meta of
                                 Some root_id \<Rightarrow> if root_id \<noteq> pid
                                   then snd (insert_thread (thread_stub com (stub_ts (tp_root_event_created_at meta)) root_id
                                               (tp_channel_id meta)) ts2)
                                   else ts2
                               | None \<Rightarrow> ts2);
                        ts4 = update_threads com pid (\<lambda>row. row\<lparr>th_reply_count := th_reply_count row + 1\<rparr>) ts3
                    in case tp_root_event_id meta of
                         Some root_id \<Rightarrow>
                           update_threads com root_id (\<lambda>row. row\<lparr>th_descendant_count := th_descendant_count row + 1\<rparr>) ts4
                       | None \<Rightarrow> ts4)))"

definition insert_event_with_thread_metadata_tx ::
  "(int \<Rightarrow> bool) \<Rightarrow> nat \<Rightarrow> uuid \<Rightarrow> event \<Rightarrow> uuid option \<Rightarrow> thread_metadata_params option \<Rightarrow> event_db
     \<Rightarrow> ((stored_event \<times> bool) \<times> event_db, db_error) result" where
  "insert_event_with_thread_metadata_tx in_range now com ev ch meta db =
     and_then (insert_event in_range now com ev ch db) (\<lambda>((stored, was_inserted), db').
       Ok ((stored, was_inserted),
           if was_inserted
           then (case meta of
                   Some m \<Rightarrow> db'\<lparr>db_threads := insert_thread_metadata_tx com m (db_threads db')\<rparr>
                 | None \<Rightarrow> db')
           else db'))"

section \<open>Deletion\<close>

definition update_events :: "(event_row \<Rightarrow> bool) \<Rightarrow> (event_row \<Rightarrow> event_row) \<Rightarrow> event_db \<Rightarrow> nat \<times> event_db" where
  "update_events P f db =
     (length (filter P (db_events db)), db\<lparr>db_events := map (\<lambda>row. if P row then f row else row) (db_events db)\<rparr>)"

definition mark_deleted :: "nat \<Rightarrow> event_row \<Rightarrow> event_row" where
  "mark_deleted now row = row\<lparr>er_deleted_at := Some now\<rparr>"

definition soft_delete_event :: "nat \<Rightarrow> uuid \<Rightarrow> event_id \<Rightarrow> event_db \<Rightarrow> bool \<times> event_db" where
  "soft_delete_event now com i db =
     (let (n, db') = update_events (\<lambda>row. er_community_id row = com \<and> er_id row = i \<and> er_deleted_at row = None)
            (mark_deleted now) db
      in (0 < n, db'))"

definition soft_delete_by_coordinate ::
  "(int \<Rightarrow> bool) \<Rightarrow> nat \<Rightarrow> uuid \<Rightarrow> int \<Rightarrow> pubkey \<Rightarrow> string \<Rightarrow> int \<Rightarrow> event_db \<Rightarrow> (bool \<times> event_db, db_error) result" where
  "soft_delete_by_coordinate in_range now com kind pk d deletion_created_at db =
     (if \<not> in_range deletion_created_at then Err (InvalidTimestamp deletion_created_at)
      else (let (n, db') = update_events (\<lambda>row. er_community_id row = com \<and> er_kind row = kind \<and> er_pubkey row = pk \<and>
                  er_d_tag row = Some d \<and> er_deleted_at row = None \<and> er_created_at row \<le> deletion_created_at)
                (mark_deleted now) db
            in Ok (0 < n, db')))"

definition soft_delete_event_and_update_thread ::
  "nat \<Rightarrow> uuid \<Rightarrow> event_id \<Rightarrow> event_id option \<Rightarrow> event_id option \<Rightarrow> event_db \<Rightarrow> bool \<times> event_db" where
  "soft_delete_event_and_update_thread now com i parent root db =
     (let (deleted, db') = soft_delete_event now com i db;
          ts = (case parent of
                  Some pid \<Rightarrow>
                    if deleted then
                      (let ts = update_threads com pid (\<lambda>row. row\<lparr>th_reply_count := max (th_reply_count row - 1) 0\<rparr>) (db_threads db')
                       in case root of
                            Some root_id \<Rightarrow>
                              update_threads com root_id (\<lambda>row. row\<lparr>th_descendant_count := max (th_descendant_count row - 1) 0\<rparr>) ts
                          | None \<Rightarrow> ts)
                    else db_threads db'
                | None \<Rightarrow> db_threads db')
      in (deleted, db'\<lparr>db_threads := ts\<rparr>))"

definition soft_delete_discovery_events :: "nat \<Rightarrow> uuid \<Rightarrow> uuid \<Rightarrow> pubkey \<Rightarrow> event_db \<Rightarrow> nat \<times> event_db" where
  "soft_delete_discovery_events now com ch relay_pk db =
     update_events (\<lambda>row. er_community_id row = com \<and> er_channel_id row = Some ch \<and> er_pubkey row = relay_pk \<and>
         er_deleted_at row = None \<and> er_kind row \<in> {39000, 39001, 39002}) (mark_deleted now) db"

section \<open>Replacement\<close>

text \<open>\<open>ORDER BY created_at DESC, id ASC\<close>.\<close>

definition newest_first :: "event_row list \<Rightarrow> event_row list" where
  "newest_first rows = sort_key (\<lambda>row. (- er_created_at row, er_id row)) rows"

text \<open>The incoming event is not newer than an accepted one; at equal times the lower id wins.\<close>

definition dominated_by :: "int \<Rightarrow> event_id \<Rightarrow> int \<times> event_id \<Rightarrow> bool" where
  "dominated_by created_at i accepted =
     (created_at < fst accepted \<or> (created_at = fst accepted \<and> i \<ge> snd accepted))"

definition live_head :: "(event_row \<Rightarrow> bool) \<Rightarrow> event_db \<Rightarrow> (int \<times> event_id) option" where
  "live_head P db =
     (case newest_first (filter (\<lambda>row. P row \<and> er_deleted_at row = None) (db_events db)) of
        [] \<Rightarrow> None
      | row # _ \<Rightarrow> Some (er_created_at row, er_id row))"

definition addressable_key :: "uuid \<Rightarrow> int \<Rightarrow> pubkey \<Rightarrow> uuid option \<Rightarrow> event_row \<Rightarrow> bool" where
  "addressable_key com kind pk ch row =
     (er_community_id row = com \<and> er_kind row = kind \<and> er_pubkey row = pk \<and> er_channel_id row = ch)"

definition replace_addressable_event ::
  "(int \<Rightarrow> bool) \<Rightarrow> nat \<Rightarrow> uuid \<Rightarrow> event \<Rightarrow> uuid option \<Rightarrow> event_db \<Rightarrow> ((stored_event \<times> bool) \<times> event_db, db_error) result" where
  "replace_addressable_event in_range now com ev ch db =
     and_then (to_datetime in_range (ev_created_at ev)) (\<lambda>created_at.
       let P = addressable_key com (kind_column (ev_kind ev)) (ev_pubkey ev) ch;
           rejected = Ok ((with_received_at ev now ch False, False), db)
       in if is_some_and (dominated_by created_at (ev_id ev)) (live_head P db) then rejected
          else
            (let db1 = snd (update_events (\<lambda>row. P row \<and> er_deleted_at row = None) (mark_deleted now) db);
                 (was_inserted, db2) = insert_row (new_row now com ev created_at ch (extract_d_tag ev) None) db1
             in if \<not> was_inserted then rejected
                else and_then (insert_mentions_in_transaction in_range com ev db2) (\<lambda>db3.
                       Ok ((with_received_at ev now ch True, True), db3))))"

definition is_nip_rs_event :: "event \<Rightarrow> string \<Rightarrow> bool" where
  "is_nip_rs_event ev d =
     (let d_tag_count = length (filter (\<lambda>t. tag_slice t \<noteq> [] \<and> hd (tag_slice t) = ''d'') (ev_tags ev));
          has_exact_d_tag = list_ex (\<lambda>t. length (tag_slice t) \<ge> 2 \<and> tag_slice t ! 0 = ''d'' \<and> tag_slice t ! 1 = d) (ev_tags ev);
          read_state_t_tag_count = length (filter (\<lambda>t. tag_slice t = [''t'', ''read-state'']) (ev_tags ev));
          slot = drop 11 d
      in kind_column (ev_kind ev) = uint KIND_READ_STATE \<and> d_tag_count = 1 \<and> has_exact_d_tag \<and>
         prefix ''read-state:'' d \<and> length slot = 32 \<and>
         list_all (\<lambda>c. is_ascii_hexdigit c \<and> \<not> (65 \<le> (of_char c :: nat) \<and> (of_char c :: nat) \<le> 90)) slot \<and>
         read_state_t_tag_count = 1)"

definition is_mesh_status_event :: "event \<Rightarrow> string \<Rightarrow> bool" where
  "is_mesh_status_event ev d =
     (kind_column (ev_kind ev) = uint KIND_BOOKMARK_SET \<and> prefix ''buzz-mesh-member-status:'' d \<and>
      list_ex (\<lambda>t. tag_slice t = [''k'', ''buzz-mesh-status'']) (ev_tags ev))"

definition parameterized_key :: "coordinate \<Rightarrow> event_row \<Rightarrow> bool" where
  "parameterized_key coord row =
     (case coord of (com, kind, pk, d) \<Rightarrow>
        er_community_id row = com \<and> er_kind row = kind \<and> er_pubkey row = pk \<and> er_d_tag row = Some d)"

text \<open>The live rows of the coordinate leave: deleted with their head's mentions, or marked.\<close>

definition retire_superseded :: "nat \<Rightarrow> bool \<Rightarrow> coordinate \<Rightarrow> (int \<times> event_id) option \<Rightarrow> event_db \<Rightarrow> event_db" where
  "retire_superseded now hard coord existing db =
     (let live = (\<lambda>row. parameterized_key coord row \<and> er_deleted_at row = None)
      in case existing of
           None \<Rightarrow> db
         | Some (_, head_id) \<Rightarrow>
             if hard
             then db\<lparr>db_events := filter (\<lambda>row. \<not> live row) (db_events db),
                     db_mentions := filter (\<lambda>m. \<not> (mn_community_id m = fst coord \<and> mn_event_id m = head_id)) (db_mentions db)\<rparr>
             else snd (update_events live (mark_deleted now) db))"

definition replace_parameterized_event ::
  "(int \<Rightarrow> bool) \<Rightarrow> bool \<Rightarrow> nat \<Rightarrow> uuid \<Rightarrow> event \<Rightarrow> string \<Rightarrow> uuid option \<Rightarrow> event_db
     \<Rightarrow> ((stored_event \<times> bool) \<times> event_db, db_error) result" where
  "replace_parameterized_event in_range mentions_ok now com ev d ch db =
     and_then (to_datetime in_range (ev_created_at ev)) (\<lambda>created_at.
       let coord = (com, kind_column (ev_kind ev), ev_pubkey ev, d);
           is_nip_rs = is_nip_rs_event ev d;
           hard = is_nip_rs \<or> is_mesh_status_event ev d;
           existing = live_head (parameterized_key coord) db;
           watermark = (if is_nip_rs then map_of (db_watermarks db) coord else None);
           rejected = Ok ((with_received_at ev now ch False, False), db)
       in if is_some_and (dominated_by created_at (ev_id ev)) existing \<or>
             is_some_and (dominated_by created_at (ev_id ev)) watermark then rejected
          else
            (let db1 = retire_superseded now hard coord existing db;
                 (was_inserted, db2) = insert_row (new_row now com ev created_at ch (Some d) (extract_not_before ev)) db1
             in if \<not> was_inserted then rejected
                else
                  (let db3 = (if is_nip_rs
                              then db2\<lparr>db_watermarks := hm_insert coord (created_at, ev_id ev) (db_watermarks db2)\<rparr> else db2);
                       db4 = (if mentions_ok then (case insert_mentions_in_transaction in_range com ev db3 of Inr d \<Rightarrow> d | Inl _ \<Rightarrow> db3)
                              else db3)
                   in Ok ((with_received_at ev now ch True, True), db4))))"

section \<open>Reminders\<close>

definition claim_due_reminder_with_stamp :: "uuid \<Rightarrow> event_id \<Rightarrow> int \<Rightarrow> int \<Rightarrow> event_db \<Rightarrow> bool \<times> event_db" where
  "claim_due_reminder_with_stamp com i created_at stamp db =
     (let (n, db') = update_events (\<lambda>row. er_community_id row = com \<and> er_created_at row = created_at \<and> er_id row = i \<and>
              er_delivered_at row = None) (\<lambda>row. row\<lparr>er_delivered_at := Some stamp\<rparr>) db
      in (0 < n, db'))"

definition release_due_reminder :: "uuid \<Rightarrow> event_id \<Rightarrow> int \<Rightarrow> int \<Rightarrow> event_db \<Rightarrow> bool \<times> event_db" where
  "release_due_reminder com i created_at stamp db =
     (let (n, db') = update_events (\<lambda>row. er_community_id row = com \<and> er_created_at row = created_at \<and> er_id row = i \<and>
              er_delivered_at row = Some stamp) (\<lambda>row. row\<lparr>er_delivered_at := None\<rparr>) db
      in (n = 1, db'))"

section \<open>Queries\<close>

definition DEFAULT_MAX_PAGE_LIMIT :: int where
  "DEFAULT_MAX_PAGE_LIMIT = 1000"

record event_query =
  eq_community_id :: uuid
  eq_channel_id :: "uuid option"
  eq_kinds :: "int list option"
  eq_pubkey :: "pubkey option"
  eq_since :: "int option"
  eq_until :: "int option"
  eq_limit :: "int option"
  eq_offset :: "int option"
  eq_p_tag_hex :: "string option"
  eq_d_tag :: "string option"
  eq_d_tags :: "string list option"
  eq_before_id :: "event_id option"
  eq_global_only :: bool
  eq_authors :: "pubkey list option"
  eq_ids :: "event_id list option"
  eq_e_tags :: "string list option"
  eq_channel_ids :: "uuid list option"
  eq_channel_ids_include_global :: bool
  eq_max_limit :: "int option"
  eq_shared_gated_reader :: "pubkey option"

definition for_community :: "uuid \<Rightarrow> event_query" where
  "for_community com =
     \<lparr>eq_community_id = com, eq_channel_id = None, eq_kinds = None, eq_pubkey = None, eq_since = None, eq_until = None,
      eq_limit = None, eq_offset = None, eq_p_tag_hex = None, eq_d_tag = None, eq_d_tags = None, eq_before_id = None,
      eq_global_only = False, eq_authors = None, eq_ids = None, eq_e_tags = None, eq_channel_ids = None,
      eq_channel_ids_include_global = True, eq_max_limit = None, eq_shared_gated_reader = None\<rparr>"

text \<open>\<open>tags @> [[a, b]]\<close>.\<close>

definition tags_contain :: "event_row \<Rightarrow> string \<Rightarrow> string \<Rightarrow> bool" where
  "tags_contain row a b = list_ex (\<lambda>t. a \<in> set (tag_slice t) \<and> b \<in> set (tag_slice t)) (ev_tags (er_event row))"

definition where_channel :: "event_query \<Rightarrow> event_row \<Rightarrow> bool" where
  "where_channel q row =
     (case eq_channel_id q of
        Some ch \<Rightarrow> er_channel_id row = Some ch
      | None \<Rightarrow> if eq_global_only q then er_channel_id row = None else True)"

definition where_channel_ids :: "event_query \<Rightarrow> event_row \<Rightarrow> bool" where
  "where_channel_ids q row =
     (case eq_channel_ids q of
        None \<Rightarrow> True
      | Some ch_ids \<Rightarrow>
          if ch_ids = [] then (if eq_channel_ids_include_global q then er_channel_id row = None else False)
          else (eq_channel_ids_include_global q \<and> er_channel_id row = None) \<or>
               is_some_and (\<lambda>ch. ch \<in> set ch_ids) (er_channel_id row))"

definition where_kinds :: "event_query \<Rightarrow> event_row \<Rightarrow> bool" where
  "where_kinds q row = (case eq_kinds q of Some ks \<Rightarrow> ks \<noteq> [] \<longrightarrow> er_kind row \<in> set ks | None \<Rightarrow> True)"

definition where_authors :: "event_query \<Rightarrow> event_row \<Rightarrow> bool" where
  "where_authors q row =
     ((case eq_pubkey q of Some pk \<Rightarrow> er_pubkey row = pk | None \<Rightarrow> True) \<and>
      (case eq_authors q of Some authors \<Rightarrow> authors \<noteq> [] \<longrightarrow> er_pubkey row \<in> set authors | None \<Rightarrow> True))"

definition where_ids :: "event_query \<Rightarrow> event_row \<Rightarrow> bool" where
  "where_ids q row = (case eq_ids q of Some ids \<Rightarrow> ids \<noteq> [] \<longrightarrow> er_id row \<in> set ids | None \<Rightarrow> True)"

definition where_e_tags :: "event_query \<Rightarrow> event_row \<Rightarrow> bool" where
  "where_e_tags q row =
     (case eq_e_tags q of Some es \<Rightarrow> es \<noteq> [] \<longrightarrow> list_ex (tags_contain row ''e'') es | None \<Rightarrow> True)"

definition where_since :: "event_query \<Rightarrow> event_row \<Rightarrow> bool" where
  "where_since q row = (case eq_since q of Some s \<Rightarrow> er_created_at row \<ge> s | None \<Rightarrow> True)"

definition where_until_cursor :: "event_query \<Rightarrow> event_row \<Rightarrow> bool" where
  "where_until_cursor q row =
     (case eq_until q of
        None \<Rightarrow> True
      | Some u \<Rightarrow>
          (case eq_before_id q of
             Some bid \<Rightarrow> er_created_at row < u \<or> (er_created_at row = u \<and> er_id row > bid)
           | None \<Rightarrow> er_created_at row \<le> u))"

definition where_d_tag :: "event_query \<Rightarrow> event_row \<Rightarrow> bool" where
  "where_d_tag q row =
     (case eq_d_tag q of
        Some d \<Rightarrow> er_d_tag row = Some d
      | None \<Rightarrow>
          (case eq_d_tags q of
             Some ds \<Rightarrow> ds \<noteq> [] \<longrightarrow> is_some_and (\<lambda>d. d \<in> set ds) (er_d_tag row)
           | None \<Rightarrow> True))"

definition where_shared :: "event_query \<Rightarrow> event_row \<Rightarrow> bool" where
  "where_shared q row =
     (case eq_shared_gated_reader q of
        None \<Rightarrow> True
      | Some reader \<Rightarrow>
          er_kind row \<notin> set (map uint SHARED_GATED_KINDS) \<or> er_pubkey row = reader \<or>
          tags_contain row ''shared'' ''true'')"

text \<open>The \<open>FROM\<close> clause: the live rows of the community, once per matching mention when joined.\<close>

definition joined_rows :: "event_query \<Rightarrow> event_db \<Rightarrow> event_row list" where
  "joined_rows q db =
     (let live = filter (\<lambda>row. er_community_id row = eq_community_id q \<and> er_deleted_at row = None) (db_events db)
      in case eq_p_tag_hex q of
           None \<Rightarrow> live
         | Some p_hex \<Rightarrow>
             concat (map (\<lambda>row. map (\<lambda>_. row) (filter (\<lambda>m. mn_community_id m = er_community_id row \<and>
                 mn_event_id m = er_id row \<and> mn_community_id m = eq_community_id q \<and>
                 mn_pubkey_hex m = ascii_lower p_hex) (db_mentions db))) live))"

text \<open>A list that is there but empty matches nothing.\<close>

definition matches_nothing :: "event_query \<Rightarrow> bool" where
  "matches_nothing q = (eq_kinds q = Some [] \<or> eq_authors q = Some [] \<or> eq_ids q = Some [] \<or> eq_e_tags q = Some [])"

definition where_common :: "event_query \<Rightarrow> event_row \<Rightarrow> bool" where
  "where_common q row =
     (where_channel q row \<and> where_channel_ids q row \<and> where_kinds q row \<and> where_authors q row \<and>
      where_ids q row \<and> where_e_tags q row \<and> where_since q row \<and> where_d_tag q row)"

definition query_events_on :: "event_query \<Rightarrow> event_db \<Rightarrow> (stored_event list, db_error) result" where
  "query_events_on q db =
     (if eq_before_id q \<noteq> None \<and> eq_until q = None then Err (InvalidData ''before_id requires until to be set'')
      else if eq_global_only q \<and> eq_channel_id q \<noteq> None
      then Err (InvalidData ''global_only and channel_id are mutually exclusive'')
      else if matches_nothing q then Ok []
      else
        (let clamp = (case eq_max_limit q of Some m \<Rightarrow> m | None \<Rightarrow> DEFAULT_MAX_PAGE_LIMIT);
             limit_val = min (case eq_limit q of Some l \<Rightarrow> l | None \<Rightarrow> 100) clamp;
             offset_val = (case eq_offset q of Some n \<Rightarrow> n | None \<Rightarrow> 0);
             rows = filter (\<lambda>row. where_common q row \<and> where_until_cursor q row \<and> where_shared q row) (joined_rows q db)
         in if limit_val < 0 \<or> offset_val < 0 then Err (InvalidData ''negative LIMIT or OFFSET'')
            else Ok (List.map_filter row_to_stored_event
                       (take (nat limit_val) (drop (nat offset_val) (newest_first rows))))))"

definition count_events_on :: "event_query \<Rightarrow> event_db \<Rightarrow> nat" where
  "count_events_on q db =
     (if matches_nothing q then 0
      else length (filter (\<lambda>row. where_common q row \<and>
             (case eq_until q of Some u \<Rightarrow> er_created_at row \<le> u | None \<Rightarrow> True)) (joined_rows q db)))"

definition get_events_by_ids :: "uuid \<Rightarrow> event_id list \<Rightarrow> event_db \<Rightarrow> stored_event list" where
  "get_events_by_ids com ids db =
     (if ids = [] then []
      else List.map_filter row_to_stored_event
             (filter (\<lambda>row. er_community_id row = com \<and> er_deleted_at row = None \<and> er_id row \<in> set ids) (db_events db)))"

definition get_event_by_id :: "uuid \<Rightarrow> event_id \<Rightarrow> event_db \<Rightarrow> stored_event option" where
  "get_event_by_id com i db =
     (case sort_key (\<lambda>row. - er_created_at row)
             (filter (\<lambda>row. er_community_id row = com \<and> er_id row = i \<and> er_deleted_at row = None) (db_events db)) of
        [] \<Rightarrow> None
      | row # _ \<Rightarrow> row_to_stored_event row)"

definition get_event_by_id_including_deleted :: "uuid \<Rightarrow> event_id \<Rightarrow> event_db \<Rightarrow> stored_event option" where
  "get_event_by_id_including_deleted com i db =
     (case sort_key (\<lambda>row. - er_created_at row)
             (filter (\<lambda>row. er_community_id row = com \<and> er_id row = i) (db_events db)) of
        [] \<Rightarrow> None
      | row # _ \<Rightarrow> row_to_stored_event row)"

definition get_latest_global_replaceable :: "uuid \<Rightarrow> int \<Rightarrow> pubkey \<Rightarrow> event_db \<Rightarrow> stored_event option" where
  "get_latest_global_replaceable com kind pk db =
     (case newest_first (filter (\<lambda>row. er_community_id row = com \<and> er_kind row = kind \<and> er_pubkey row = pk \<and>
             er_channel_id row = None \<and> er_deleted_at row = None) (db_events db)) of
        [] \<Rightarrow> None
      | row # _ \<Rightarrow> row_to_stored_event row)"

definition get_last_message_at :: "uuid \<Rightarrow> uuid \<Rightarrow> event_db \<Rightarrow> int option" where
  "get_last_message_at com ch db =
     (case sort_key (\<lambda>row. - er_created_at row)
             (filter (\<lambda>row. er_community_id row = com \<and> er_channel_id row = Some ch \<and> er_deleted_at row = None)
                (db_events db)) of
        [] \<Rightarrow> None
      | row # _ \<Rightarrow> Some (er_created_at row))"

section \<open>From a filter to a query\<close>

text \<open>\<open>buzz-relay/src/handlers/req.rs\<close>: \<open>(l as i64)\<close> of a \<open>usize\<close> wraps at 64 bits.\<close>

definition usize_as_i64 :: "nat \<Rightarrow> int" where
  "usize_as_i64 n = sint (of_nat n :: 64 word)"

definition datetime_opt :: "(int \<Rightarrow> bool) \<Rightarrow> u64 option \<Rightarrow> int option" where
  "datetime_opt in_range t =
     (case t of None \<Rightarrow> None | Some s \<Rightarrow> if in_range (sint s) then Some (sint s) else None)"

definition non_empty :: "'a list option \<Rightarrow> 'a list option" where
  "non_empty v = (case v of Some [] \<Rightarrow> None | _ \<Rightarrow> v)"

definition filter_to_query_params ::
  "(int \<Rightarrow> bool) \<Rightarrow> nostr_filter \<Rightarrow> uuid option \<Rightarrow> uuid \<Rightarrow> event_query" where
  "filter_to_query_params in_range f channel_id community =
     (let kinds = map_option (map kind_column) (f_kinds f);
          limit = (case f_limit f of Some l \<Rightarrow> min (usize_as_i64 l) DEFAULT_MAX_PAGE_LIMIT | None \<Rightarrow> DEFAULT_MAX_PAGE_LIMIT);
          (pubkey, authors) = (case f_authors f of
             Some [a] \<Rightarrow> (Some a, None) | Some [] \<Rightarrow> (None, None) | Some as \<Rightarrow> (None, Some as) | None \<Rightarrow> (None, None));
          p_tag_hex = (case map_of (f_generic_tags f) ''p'' of Some [v] \<Rightarrow> Some v | _ \<Rightarrow> None);
          nip33_only = is_some_and (\<lambda>ks. ks \<noteq> [] \<and>
             list_all (\<lambda>k. is_parameterized_replaceable (of_int k)) ks) kinds;
          (d_tag, d_tags) = (if nip33_only
             then (case map_of (f_generic_tags f) ''d'' of
                     Some [v] \<Rightarrow> (Some v, None) | Some [] \<Rightarrow> (None, None) | Some vs \<Rightarrow> (None, Some vs) | None \<Rightarrow> (None, None))
             else (None, None))
      in (for_community community)\<lparr>eq_channel_id := channel_id, eq_kinds := kinds, eq_pubkey := pubkey,
           eq_since := datetime_opt in_range (f_since f), eq_until := datetime_opt in_range (f_until f),
           eq_limit := Some limit, eq_p_tag_hex := p_tag_hex, eq_d_tag := d_tag, eq_d_tags := d_tags,
           eq_authors := authors, eq_ids := non_empty (f_ids f),
           eq_e_tags := non_empty (map_of (f_generic_tags f) ''e'')\<rparr>)"

definition build_event_query_from_filter ::
  "(string \<Rightarrow> uuid option) \<Rightarrow> (int \<Rightarrow> bool) \<Rightarrow> nostr_filter \<Rightarrow> uuid \<Rightarrow> event_query" where
  "build_event_query_from_filter parse in_range f community =
     filter_to_query_params in_range f (extract_channel_id_from_filter parse f) community"

definition apply_channel_scope_to_query ::
  "(string \<Rightarrow> uuid option) \<Rightarrow> event_query \<Rightarrow> nostr_filter \<Rightarrow> uuid option \<Rightarrow> uuid list \<Rightarrow> event_query" where
  "apply_channel_scope_to_query parse q f channel_id accessible =
     (if channel_id \<noteq> None then q
      else (case h_values f of
              Some values \<Rightarrow> q\<lparr>eq_channel_ids := Some (filter (\<lambda>c. c \<in> set accessible) (List.map_filter parse values)),
                               eq_channel_ids_include_global := False\<rparr>
            | None \<Rightarrow> q\<lparr>eq_channel_ids := Some accessible\<rparr>))"

definition COUNT_FALLBACK_CANDIDATE_LIMIT :: int where
  "COUNT_FALLBACK_CANDIDATE_LIMIT = 5000"

definition apply_count_fallback_limit :: "event_query \<Rightarrow> event_query" where
  "apply_count_fallback_limit q =
     q\<lparr>eq_limit := Some (COUNT_FALLBACK_CANDIDATE_LIMIT + 1), eq_max_limit := Some (COUNT_FALLBACK_CANDIDATE_LIMIT + 1)\<rparr>"

definition count_fallback_exceeded :: "nat \<Rightarrow> bool" where
  "count_fallback_exceeded candidate_count = (candidate_count > nat COUNT_FALLBACK_CANDIDATE_LIMIT)"

end
