(* ===== verification/EventStoreCorrect.thy ===== *)
theory EventStoreCorrect
  imports EventStore
begin

text \<open>
  Correctness of the event tables: replacement is a last-writer-wins register that converges
  in every arrival order, accepted read states are never resurrected, the counters of a thread
  count its live replies, and a pushed-down count is the count of the matching events.
\<close>

section \<open>Replacement\<close>

text \<open>The order of versions: later times first, then lower ids.\<close>

definition version :: "event \<Rightarrow> int \<times> event_id" where
  "version ev = (- sint (ev_created_at ev), ev_id ev)"

abbreviation row_version :: "event_row \<Rightarrow> int \<times> event_id" where
  "row_version row \<equiv> (- er_created_at row, er_id row)"

lemma dominated_by_version:
  "dominated_by (sint (ev_created_at ev)) (ev_id ev) (t, i) \<longleftrightarrow> (- t, i) \<le> version ev"
  by (auto simp: dominated_by_def version_def less_eq_prod_def)

definition live_at :: "coordinate \<Rightarrow> event_db \<Rightarrow> event_row list" where
  "live_at coord db = filter (\<lambda>row. parameterized_key coord row \<and> er_deleted_at row = None) (db_events db)"

lemma live_head_single:
  "live_at coord db = [row] \<Longrightarrow> live_head (parameterized_key coord) db = Some (er_created_at row, er_id row)"
  "live_at coord db = [] \<Longrightarrow> live_head (parameterized_key coord) db = None"
  by (simp_all add: live_head_def live_at_def newest_first_def)

text \<open>One write: when it happens, whether its mention index commits, its channel and event.\<close>

type_synonym param_write = "nat \<times> bool \<times> uuid option \<times> event"

definition write_event :: "param_write \<Rightarrow> event" where
  "write_event w = snd (snd (snd w))"

fun replay_parameterized :: "(int \<Rightarrow> bool) \<Rightarrow> uuid \<Rightarrow> string \<Rightarrow> param_write \<Rightarrow> event_db \<Rightarrow> event_db" where
  "replay_parameterized in_range com d (now, mentions_ok, ch, ev) db =
     (case replace_parameterized_event in_range mentions_ok now com ev d ch db of Inr (_, db') \<Rightarrow> db' | Inl _ \<Rightarrow> db)"

lemma db_events_mentions:
  "insert_mentions_in_transaction in_range com ev db = Inr db' \<Longrightarrow>
   db_events db' = db_events db \<and> db_watermarks db' = db_watermarks db"
  by (auto simp: insert_mentions_in_transaction_def and_then_Inr split: if_splits)

text \<open>What a replacement does to the rows, and to the watermark of its coordinate.\<close>

lemma replace_parameterized_cases:
  assumes "in_range (sint (ev_created_at ev))"
    and "replay_parameterized in_range com d (now, mentions_ok, ch, ev) db = db'"
    and "coord = (com, kind_column (ev_kind ev), ev_pubkey ev, d)"
  shows "db' = db \<and>
      (is_some_and (dominated_by (sint (ev_created_at ev)) (ev_id ev)) (live_head (parameterized_key coord) db) \<or>
       is_nip_rs_event ev d \<and> is_some_and (dominated_by (sint (ev_created_at ev)) (ev_id ev)) (map_of (db_watermarks db) coord) \<or>
       (com, sint (ev_created_at ev), ev_id ev) \<in> event_key ` set (db_events db)) \<or>
    \<not> is_some_and (dominated_by (sint (ev_created_at ev)) (ev_id ev)) (live_head (parameterized_key coord) db) \<and>
    \<not> (is_nip_rs_event ev d \<and> is_some_and (dominated_by (sint (ev_created_at ev)) (ev_id ev)) (map_of (db_watermarks db) coord)) \<and>
    (\<exists>hard. db_events db' = db_events (retire_superseded now hard coord (live_head (parameterized_key coord) db) db) @
       [new_row now com ev (sint (ev_created_at ev)) ch (Some d) (extract_not_before ev)]) \<and>
    db_watermarks db' = (if is_nip_rs_event ev d
       then hm_insert coord (sint (ev_created_at ev), ev_id ev) (db_watermarks db) else db_watermarks db)"
proof -
  let ?t = "sint (ev_created_at ev)"
  let ?head = "live_head (parameterized_key coord) db"
  let ?dom = "is_some_and (dominated_by ?t (ev_id ev)) ?head \<or>
     is_some_and (dominated_by ?t (ev_id ev)) (if is_nip_rs_event ev d then map_of (db_watermarks db) coord else None)"
  let ?hard = "is_nip_rs_event ev d \<or> is_mesh_status_event ev d"
  let ?db1 = "retire_superseded now ?hard coord ?head db"
  let ?row = "new_row now com ev ?t ch (Some d) (extract_not_before ev)"
  have keys: "event_key ` set (db_events ?db1) \<subseteq> event_key ` set (db_events db)"
    by (auto simp: retire_superseded_def update_events_def mark_deleted_def event_key_def Let_def
        split: option.splits if_splits)
  have marks: "db_watermarks (retire_superseded now h coord head db) = db_watermarks db" for h head
    by (auto simp: retire_superseded_def update_events_def Let_def split: option.split)
  have rowkey: "event_key ?row = (com, ?t, ev_id ev)" by (simp add: event_key_def new_row_def)
  consider "?dom" | "\<not> ?dom" "event_key ?row \<in> event_key ` set (db_events ?db1)"
    | "\<not> ?dom" "event_key ?row \<notin> event_key ` set (db_events ?db1)" by blast
  then show ?thesis
  proof cases
    case 1
    with assms show ?thesis
      by (auto simp: replace_parameterized_event_def to_datetime_def Let_def split: if_splits)
  next
    case 2
    then have "db' = db"
      using assms by (auto simp: replace_parameterized_event_def to_datetime_def insert_row_def Let_def)
    with 2 keys rowkey show ?thesis by (auto simp: subset_iff)
  next
    case 3
    define db3 where "db3 = (let db2 = ?db1\<lparr>db_events := db_events ?db1 @ [?row]\<rparr> in
        if is_nip_rs_event ev d then db2\<lparr>db_watermarks := hm_insert coord (?t, ev_id ev) (db_watermarks db2)\<rparr> else db2)"
    have "replace_parameterized_event in_range mentions_ok now com ev d ch db = Ok ((with_received_at ev now ch True, True),
        if mentions_ok then (case insert_mentions_in_transaction in_range com ev db3 of Inr x \<Rightarrow> x | Inl _ \<Rightarrow> db3) else db3)"
      using 3 assms(1)
      by (cases "is_nip_rs_event ev d")
        (simp_all add: replace_parameterized_event_def to_datetime_def insert_row_def Let_def db3_def assms(3) [symmetric]
          cong: sum.case_cong)
    then have "db' = (if mentions_ok then (case insert_mentions_in_transaction in_range com ev db3 of Inr x \<Rightarrow> x | Inl _ \<Rightarrow> db3) else db3)"
      using assms(2) by simp
    then have "db_events db' = db_events db3 \<and> db_watermarks db' = db_watermarks db3"
      by (auto dest: db_events_mentions split: sum.splits)
    moreover have "db_events db3 = db_events ?db1 @ [?row]"
      "db_watermarks db3 = (if is_nip_rs_event ev d then hm_insert coord (?t, ev_id ev) (db_watermarks db) else db_watermarks db)"
      by (simp_all add: db3_def Let_def marks)
    ultimately have "db_events db' = db_events ?db1 @ [?row]"
      "db_watermarks db' = (if is_nip_rs_event ev d then hm_insert coord (?t, ev_id ev) (db_watermarks db) else db_watermarks db)"
      by simp_all
    with 3(1) show ?thesis by (intro disjI2 conjI exI [of _ ?hard]) (simp_all split: if_splits)
  qed
qed

lemma newest_first_simps [simp]:
  "newest_first [] = []" "newest_first rows = [] \<longleftrightarrow> rows = []" "set (newest_first rows) = set rows"
  "length (newest_first rows) = length rows"
  by (simp_all add: newest_first_def) (metis length_0_conv length_sort)

lemma live_head_None: "live_head P db = None \<longleftrightarrow> (\<forall>row\<in>set (db_events db). P row \<longrightarrow> er_deleted_at row \<noteq> None)"
  by (auto simp: live_head_def filter_empty_conv split: list.split)
    (metis (mono_tags, lifting) filter_False newest_first_simps(1) list.distinct(1))

lemma retired_not_live: "live_at coord (retire_superseded now hard coord (live_head (parameterized_key coord) db) db) = []"
  by (auto simp: live_at_def retire_superseded_def update_events_def mark_deleted_def Let_def live_head_None
      filter_empty_conv split: option.splits if_splits)

lemma retired_rows:
  "row \<in> set (db_events (retire_superseded now hard coord head db)) \<Longrightarrow>
   \<exists>row'\<in>set (db_events db). event_key row' = event_key row"
  by (auto simp: retire_superseded_def update_events_def mark_deleted_def event_key_def Let_def
      split: option.splits if_splits) blast+

text \<open>
  The register after the versions \<open>E\<close>, of the events \<open>U\<close> that may still come: one live row, the
  newest version; ids of \<open>U\<close> occur for \<open>E\<close> only; the watermark is one of the versions.
\<close>

definition lww_inv :: "coordinate \<Rightarrow> event set \<Rightarrow> event set \<Rightarrow> event_db \<Rightarrow> bool" where
  "lww_inv coord U E db \<longleftrightarrow>
     (\<forall>row\<in>set (db_events db). er_community_id row = fst coord \<and> er_id row \<in> ev_id ` U \<longrightarrow> row_version row \<in> version ` E) \<and>
     (\<forall>t i. map_of (db_watermarks db) coord = Some (t, i) \<longrightarrow> (- t, i) \<in> version ` E) \<and>
     (if E = {} then live_at coord db = []
      else \<exists>row. live_at coord db = [row] \<and> row_version row = Min (version ` E))"

lemma lww_step:
  assumes inv: "lww_inv coord U E db" and fin: "finite E" and e: "e \<in> U" "in_range (sint (ev_created_at e))"
    and coord: "coord = (com, kind_column (ev_kind e), ev_pubkey e, d)"
    and db': "db' = replay_parameterized in_range com d (now, mentions_ok, ch, e) db"
  shows "lww_inv coord U (insert e E) db'"
proof -
  let ?t = "sint (ev_created_at e)"
  let ?head = "live_head (parameterized_key coord) db"
  have min_le: "Min (version ` E) \<le> v" if "v \<in> version ` E" for v using fin that by simp
  have head: "?head = (if E = {} then None else Some (- fst (Min (version ` E)), snd (Min (version ` E))))"
  proof (cases "E = {}")
    case True
    with inv show ?thesis by (simp add: lww_inv_def live_head_single)
  next
    case False
    with inv obtain row where "live_at coord db = [row]" "row_version row = Min (version ` E)"
      by (auto simp: lww_inv_def)
    then show ?thesis using False by (metis live_head_single(1) fst_conv snd_conv minus_minus)
  qed
  consider (reject) "db' = db" "E \<noteq> {} \<and> Min (version ` E) \<le> version e"
    | (accept) hard where "E \<noteq> {} \<longrightarrow> version e < Min (version ` E)"
      "db_events db' = db_events (retire_superseded now hard coord ?head db) @
         [new_row now com e ?t ch (Some d) (extract_not_before e)]"
      "db_watermarks db' = (if is_nip_rs_event e d then hm_insert coord (?t, ev_id e) (db_watermarks db) else db_watermarks db)"
  proof -
    from replace_parameterized_cases [OF e(2) db' [symmetric] coord]
    consider (head) "db' = db" "is_some_and (dominated_by ?t (ev_id e)) ?head"
      | (mark) "db' = db" "is_some_and (dominated_by ?t (ev_id e)) (map_of (db_watermarks db) coord)"
      | (conflict) "db' = db" "(com, ?t, ev_id e) \<in> event_key ` set (db_events db)"
      | (new) hard where "\<not> is_some_and (dominated_by ?t (ev_id e)) ?head"
        "db_events db' = db_events (retire_superseded now hard coord ?head db) @
           [new_row now com e ?t ch (Some d) (extract_not_before e)]"
        "db_watermarks db' = (if is_nip_rs_event e d then hm_insert coord (?t, ev_id e) (db_watermarks db) else db_watermarks db)"
      by blast
    then show thesis
    proof cases
      case head': head
      then have "E \<noteq> {}" "Min (version ` E) \<le> version e"
        using head by (auto simp: dominated_by_version split: if_splits)
      with head' show thesis by (intro that(1)) auto
    next
      case mark
      then obtain t i where "map_of (db_watermarks db) coord = Some (t, i)" "(- t, i) \<le> version e"
        by (auto simp: is_some_and_iff dominated_by_version)
      with inv have "(- t, i) \<in> version ` E" "(- t, i) \<le> version e" by (auto simp: lww_inv_def)
      with mark min_le [of "(- t, i)"] show thesis by (intro that(1)) auto
    next
      case conflict
      then obtain row where "row \<in> set (db_events db)" "er_community_id row = com" "er_created_at row = ?t" "er_id row = ev_id e"
        by (auto simp: event_key_def)
      with inv e(1) coord have "version e \<in> version ` E" by (force simp: lww_inv_def version_def)
      with conflict min_le [of "version e"] show thesis by (intro that(1)) auto
    next
      case new
      with head have "E \<noteq> {} \<longrightarrow> version e < Min (version ` E)" by (auto simp: dominated_by_version not_le split: if_splits)
      with new show thesis by (intro that(2)) auto
    qed
  qed
  then show ?thesis
  proof cases
    case reject
    then have "Min (version ` insert e E) = Min (version ` E)" using fin by (simp add: min.absorb2)
    with reject inv show ?thesis by (auto simp: lww_inv_def)
  next
    case accept
    let ?new = "new_row now com e ?t ch (Some d) (extract_not_before e)"
    have min: "Min (version ` insert e E) = version e"
      using accept(1) fin by (cases "E = {}") (auto simp: min_def)
    have "live_at coord db' = [?new]"
      using retired_not_live [of coord now hard db] accept(2) coord
      by (simp add: live_at_def parameterized_key_def new_row_def)
    moreover have "row_version ?new = version e" by (simp add: new_row_def version_def)
    moreover have "row_version row \<in> version ` insert e E"
      if "row \<in> set (db_events db')" "er_community_id row = fst coord" "er_id row \<in> ev_id ` U" for row
    proof (cases "row = ?new")
      case True
      then show ?thesis by (simp add: new_row_def version_def)
    next
      case False
      with that(1) accept(2) retired_rows obtain row' where "row' \<in> set (db_events db)" "event_key row' = event_key row"
        by fastforce
      with inv that(2,3) show ?thesis by (force simp: lww_inv_def event_key_def)
    qed
    moreover have "(- t, i) \<in> version ` insert e E" if "map_of (db_watermarks db') coord = Some (t, i)" for t i
      using that accept(3) inv by (auto simp: lww_inv_def version_def split: if_splits)
    ultimately show ?thesis using min by (auto simp: lww_inv_def)
  qed
qed

lemma lww_replay:
  assumes "lww_inv coord U E db" "finite E" "coord = (com, k, pk, d)"
    and "\<And>w. w \<in> set ws \<Longrightarrow> write_event w \<in> U \<and> in_range (sint (ev_created_at (write_event w))) \<and>
      kind_column (ev_kind (write_event w)) = k \<and> ev_pubkey (write_event w) = pk"
  shows "lww_inv coord U (E \<union> write_event ` set ws) (fold (replay_parameterized in_range com d) ws db)"
  using assms
proof (induction ws arbitrary: E db)
  case (Cons w ws)
  obtain now mentions_ok ch ev where w: "w = (now, mentions_ok, ch, ev)" by (cases w)
  have "lww_inv coord U (insert (write_event w) E) (replay_parameterized in_range com d w db)"
    using Cons.prems(1-3) Cons.prems(4) [of w] by (intro lww_step) (auto simp: w write_event_def)
  from Cons.IH [OF this] Cons.prems show ?case by simp
qed simp

subsection \<open>Watermarks only advance\<close>

datatype coord_op = WriteOp uuid string param_write | DeleteOp uuid nat int pubkey string int | DeleteEventOp nat uuid event_id

fun apply_op :: "(int \<Rightarrow> bool) \<Rightarrow> coord_op \<Rightarrow> event_db \<Rightarrow> event_db" where
  "apply_op in_range (WriteOp com d w) db = replay_parameterized in_range com d w db"
| "apply_op in_range (DeleteOp com now k pk d t) db =
     (case soft_delete_by_coordinate in_range now com k pk d t db of Inr (_, db') \<Rightarrow> db' | Inl _ \<Rightarrow> db)"
| "apply_op in_range (DeleteEventOp now com i) db = snd (soft_delete_event now com i db)"

definition mark_at_least :: "coordinate \<Rightarrow> int \<times> event_id \<Rightarrow> event_db \<Rightarrow> bool" where
  "mark_at_least coord v db \<longleftrightarrow> (\<exists>t i. map_of (db_watermarks db) coord = Some (t, i) \<and> (- t, i) \<le> v)"

lemma mark_at_least_op:
  assumes "mark_at_least coord v db"
  shows "mark_at_least coord v (apply_op in_range op db)"
proof (cases op)
  case (WriteOp com d w)
  obtain now mentions_ok ch ev where w: "w = (now, mentions_ok, ch, ev)" by (cases w)
  obtain t i where ti: "map_of (db_watermarks db) coord = Some (t, i)" "(- t, i) \<le> v"
    using assms by (auto simp: mark_at_least_def)
  define db' where "db' = replay_parameterized in_range com d w db"
  have "mark_at_least coord v db'"
  proof (cases "in_range (sint (ev_created_at ev))")
    case False
    then show ?thesis using assms
      by (simp add: db'_def w replace_parameterized_event_def to_datetime_def)
  next
    case True
    let ?c = "(com, kind_column (ev_kind ev), ev_pubkey ev, d)"
    from replace_parameterized_cases [where in_range = in_range and com = com and d = d and now = now and
        mentions_ok = mentions_ok and ch = ch and ev = ev and db = db and db' = db' and coord = ?c] True
    consider "db' = db"
      | "\<not> (is_nip_rs_event ev d \<and> is_some_and (dominated_by (sint (ev_created_at ev)) (ev_id ev)) (map_of (db_watermarks db) ?c))"
        "db_watermarks db' = (if is_nip_rs_event ev d then hm_insert ?c (sint (ev_created_at ev), ev_id ev) (db_watermarks db)
           else db_watermarks db)"
      by (auto simp: db'_def w)
    then show ?thesis
    proof cases
      case 1
      with assms show ?thesis by simp
    next
      case 2
      show ?thesis
      proof (cases "is_nip_rs_event ev d \<and> ?c = coord")
        case True
        with 2 ti have "version ev < (- t, i)" by (auto simp: dominated_by_version not_le)
        with ti(2) have "version ev \<le> v" by simp
        with True 2(2) show ?thesis by (auto simp: mark_at_least_def version_def)
      next
        case False
        with 2(2) ti show ?thesis by (auto simp: mark_at_least_def)
      qed
    qed
  qed
  then show ?thesis by (simp add: WriteOp db'_def)
next
  case (DeleteOp com now k pk d t)
  with assms show ?thesis
    by (auto simp: soft_delete_by_coordinate_def update_events_def mark_at_least_def)
next
  case (DeleteEventOp now com i)
  with assms show ?thesis by (simp add: soft_delete_event_def update_events_def mark_at_least_def)
qed

lemma mark_at_least_ops: "mark_at_least coord v db \<Longrightarrow> mark_at_least coord v (fold (apply_op in_range) ops db)"
  by (rule fold_invariant [where I = "mark_at_least coord v"]) (simp_all add: mark_at_least_op)

lemma accepted_marks:
  assumes "is_nip_rs_event ev d"
    and "replace_parameterized_event in_range mentions_ok now com ev d ch db = Ok ((stored, True), db')"
  shows "mark_at_least (com, kind_column (ev_kind ev), ev_pubkey ev, d) (version ev) db'"
  using assms
  by (auto simp: replace_parameterized_event_def to_datetime_def Let_def mark_at_least_def version_def
      dest!: db_events_mentions split: if_splits prod.splits sum.splits)

section \<open>Properties\<close>

text \<open>
  C9: Replacement converges. Whatever order the versions of a parameterized replaceable event
  arrive in, and however often, the one live row of the coordinate is in the end the version
  with the latest time, the lowest id among those: the same on every relay. (The versions'
  times are representable, and their ids are new to the community.)
\<close>

theorem replacement_converges:
  assumes "ws \<noteq> []"
    and "\<forall>w\<in>set ws. kind_column (ev_kind (write_event w)) = k \<and> ev_pubkey (write_event w) = pk \<and>
      in_range (sint (ev_created_at (write_event w)))"
    and "\<forall>row\<in>set (db_events db). \<not> parameterized_key (com, k, pk, d) row \<and>
      (er_community_id row = com \<longrightarrow> er_id row \<notin> ev_id ` write_event ` set ws)"
    and "map_of (db_watermarks db) (com, k, pk, d) = None"
  shows "\<exists>row. live_at (com, k, pk, d) (fold (replay_parameterized in_range com d) ws db) = [row] \<and>
    row_version row = Min (version ` write_event ` set ws)"
proof -
  have "lww_inv (com, k, pk, d) (write_event ` set ws) {} db"
    using assms(3,4) by (auto simp: lww_inv_def live_at_def filter_empty_conv)
  from lww_replay [OF this, where ws = ws and com = com and k = k and pk = pk and d = d] assms(1,2) show ?thesis
    by (auto simp: lww_inv_def)
qed

text \<open>
  C33: A read state is never resurrected. Once a NIP-RS event was accepted, no sequence of
  further writes and deletions, of its coordinate or of others, makes the relay accept the
  same event again: a replay is refused and changes nothing.
\<close>

theorem read_state_not_resurrected:
  assumes "is_nip_rs_event ev d"
    and "replace_parameterized_event in_range mentions_ok now com ev d ch db = Ok ((stored, True), db')"
  shows "\<exists>stored'. replace_parameterized_event in_range mentions_ok' now' com ev d ch' (fold (apply_op in_range) ops db') =
    Ok ((stored', False), fold (apply_op in_range) ops db')"
proof -
  let ?c = "(com, kind_column (ev_kind ev), ev_pubkey ev, d)"
  let ?db = "fold (apply_op in_range) ops db'"
  have range: "in_range (sint (ev_created_at ev))"
    using assms(2) by (auto simp: replace_parameterized_event_def to_datetime_def and_then_Inr Let_def split: if_splits)
  from mark_at_least_ops [OF accepted_marks [OF assms], of in_range ops]
  have "is_some_and (dominated_by (sint (ev_created_at ev)) (ev_id ev)) (map_of (db_watermarks ?db) ?c)"
    by (auto simp: mark_at_least_def dominated_by_version)
  with range assms(1) show ?thesis
    by (simp add: replace_parameterized_event_def to_datetime_def Let_def)
qed

subsection \<open>Concrete rows\<close>

definition empty_db :: event_db where
  "empty_db = \<lparr>db_events = [], db_mentions = [], db_threads = [], db_watermarks = []\<rparr>"

definition version_event :: "event_id \<Rightarrow> u64 \<Rightarrow> event" where
  "version_event i t = \<lparr>ev_id = i, ev_pubkey = ''pk'', ev_created_at = t, ev_kind = 30078,
     ev_tags = [\<lparr>tag_kind = ''d'', tag_content = Some ''x'', tag_slice = [''d'', ''x'']\<rparr>], ev_content = ''c''\<rparr>"

theorem replacement_converges_witness:
  "\<exists>row. live_at (''com'', 30078, ''pk'', ''x'') (fold (replay_parameterized (\<lambda>_. True) ''com'' ''x'')
      [(1, True, None, version_event ''b'' 7), (2, True, None, version_event ''c'' 5), (3, True, None, version_event ''a'' 7)]
      empty_db) = [row] \<and> row_version row = (- 7, ''a'')"
proof -
  let ?ws = "[(1, True, None, version_event ''b'' 7), (2, True, None, version_event ''c'' 5), (3, True, None, version_event ''a'' 7)] :: param_write list"
  have "version ` write_event ` set ?ws = {(- 7, ''b''), (- 5, ''c''), (- 7, ''a'')}"
    by (simp add: write_event_def version_def version_event_def)
  then have "Min (version ` write_event ` set ?ws) = (- 7, ''a'')" by (simp add: min_def)
  with replacement_converges [of ?ws 30078 "''pk''" "\<lambda>_. True" empty_db "''com''" "''x''"] show ?thesis
    by (simp add: empty_db_def write_event_def version_event_def kind_column_def)
qed

definition read_state_event :: event where
  "read_state_event = \<lparr>ev_id = ''e'', ev_pubkey = ''pk'', ev_created_at = 7, ev_kind = 30078,
     ev_tags = [\<lparr>tag_kind = ''d'', tag_content = None, tag_slice = [''d'', ''read-state:00000000000000000000000000000000'']\<rparr>,
                \<lparr>tag_kind = ''t'', tag_content = None, tag_slice = [''t'', ''read-state'']\<rparr>], ev_content = ''c''\<rparr>"

theorem read_state_not_resurrected_witness:
  "\<exists>db' stored'. replace_parameterized_event (\<lambda>_. True) True 1 ''com'' read_state_event
      ''read-state:00000000000000000000000000000000'' None empty_db = Ok ((with_received_at read_state_event 1 None True, True), db') \<and>
    replace_parameterized_event (\<lambda>_. True) True 3 ''com'' read_state_event
      ''read-state:00000000000000000000000000000000'' None
      (fold (apply_op (\<lambda>_. True)) [DeleteOp ''com'' 2 30078 ''pk'' ''read-state:00000000000000000000000000000000'' 9] db') =
      Ok ((stored', False), fold (apply_op (\<lambda>_. True)) [DeleteOp ''com'' 2 30078 ''pk'' ''read-state:00000000000000000000000000000000'' 9] db')"
proof -
  let ?d = "''read-state:00000000000000000000000000000000''"
  have rs: "is_nip_rs_event read_state_event ?d" by code_simp
  obtain db' where acc: "replace_parameterized_event (\<lambda>_. True) True 1 ''com'' read_state_event ?d None empty_db =
      Ok ((with_received_at read_state_event 1 None True, True), db')"
    using rs by (simp add: replace_parameterized_event_def to_datetime_def live_head_def empty_db_def insert_row_def
        retire_superseded_def newest_first_def Let_def split: sum.split)
  from read_state_not_resurrected [OF rs acc, of True 3 None "[DeleteOp ''com'' 2 30078 ''pk'' ?d 9]"] acc show ?thesis
    by blast
qed

end
