(* ===== verification/ThreadCounters.thy ===== *)
theory ThreadCounters
  imports EventStoreCorrect
begin

text \<open>
  The counters of a thread (\<open>insert_event_with_thread_metadata_tx\<close> and
  \<open>soft_delete_event_and_update_thread\<close> of \<open>buzz-db/src/event.rs\<close>): whatever the order of
  insertions and deletions, the reply count of a message is the number of its live direct
  replies, and the descendant count the number of live messages below it.
\<close>

section \<open>Histories\<close>

text \<open>An event id fixes the time of its event, so metadata about an event agrees on its time.\<close>

definition meta_consistent :: "(event_id \<Rightarrow> int) \<Rightarrow> event \<Rightarrow> thread_metadata_params \<Rightarrow> bool" where
  "meta_consistent time_of ev m \<longleftrightarrow>
     tp_event_id m = ev_id ev \<and> tp_event_created_at m = time_of (ev_id ev) \<and>
     (\<forall>p. tp_parent_event_id m = Some p \<longrightarrow> p \<noteq> ev_id ev \<and> tp_parent_event_created_at m = Some (time_of p)) \<and>
     (\<forall>r. tp_root_event_id m = Some r \<longrightarrow> r \<noteq> ev_id ev \<and> tp_root_event_created_at m = Some (time_of r)) \<and>
     (tp_parent_event_id m = None \<longrightarrow> tp_root_event_id m = None)"

text \<open>What the deleting handlers read first: the recorded parent and root of a message.\<close>

definition recorded :: "uuid \<Rightarrow> event_id \<Rightarrow> event_db \<Rightarrow> event_id option \<times> event_id option" where
  "recorded com i db =
     (case filter (\<lambda>row. th_community_id row = com \<and> th_event_id row = i) (db_threads db) of
        [] \<Rightarrow> (None, None)
      | row # _ \<Rightarrow> (th_parent_event_id row, th_root_event_id row))"

inductive thread_step :: "(int \<Rightarrow> bool) \<Rightarrow> (event_id \<Rightarrow> int) \<Rightarrow> event_db \<Rightarrow> event_db \<Rightarrow> bool"
  for in_range time_of where
  insert: "insert_event_with_thread_metadata_tx in_range now com ev ch meta db = Ok (r, db') \<Longrightarrow>
    sint (ev_created_at ev) = time_of (ev_id ev) \<Longrightarrow> pred_option (meta_consistent time_of ev) meta \<Longrightarrow>
    thread_step in_range time_of db db'"
| delete: "recorded com i db = (parent, root) \<Longrightarrow>
    thread_step in_range time_of db (snd (soft_delete_event_and_update_thread now com i parent root db))"

section \<open>The invariant\<close>

definition live_event :: "event_db \<Rightarrow> uuid \<Rightarrow> event_id \<Rightarrow> bool" where
  "live_event db com i \<longleftrightarrow> (\<exists>e\<in>set (db_events db). er_community_id e = com \<and> er_id e = i \<and> er_deleted_at e = None)"

text \<open>Which rows count for a message: as direct replies, as descendants.\<close>

definition replies :: "(uuid \<Rightarrow> event_id \<Rightarrow> bool) \<Rightarrow> uuid \<Rightarrow> event_id \<Rightarrow> thread_row list \<Rightarrow> thread_row list" where
  "replies live com i ts =
     filter (\<lambda>r. th_community_id r = com \<and> th_parent_event_id r = Some i \<and> live com (th_event_id r)) ts"

definition descendants :: "(uuid \<Rightarrow> event_id \<Rightarrow> bool) \<Rightarrow> uuid \<Rightarrow> event_id \<Rightarrow> thread_row list \<Rightarrow> thread_row list" where
  "descendants live com i ts =
     filter (\<lambda>r. th_community_id r = com \<and> th_root_event_id r = Some i \<and> live com (th_event_id r)) ts"

abbreviation thread_id :: "thread_row \<Rightarrow> uuid \<times> event_id" where
  "thread_id row \<equiv> (th_community_id row, th_event_id row)"

text \<open>Rows are keyed by their id; a row with a parent belongs to a stored event, and the rows of its parent and root exist.\<close>

definition wf_tables :: "(event_id \<Rightarrow> int) \<Rightarrow> event_row list \<Rightarrow> thread_row list \<Rightarrow> bool" where
  "wf_tables time_of evs ts \<longleftrightarrow>
     distinct (map thread_id ts) \<and>
     (\<forall>row\<in>set ts. th_event_created_at row = time_of (th_event_id row) \<and>
        (th_parent_event_id row = None \<longrightarrow> th_root_event_id row = None) \<and>
        (\<forall>p. th_parent_event_id row = Some p \<longrightarrow> p \<noteq> th_event_id row \<and>
           (th_community_id row, p) \<in> thread_id ` set ts \<and>
           (\<exists>e\<in>set evs. er_community_id e = th_community_id row \<and> er_id e = th_event_id row)) \<and>
        (\<forall>r. th_root_event_id row = Some r \<longrightarrow> r \<noteq> th_event_id row \<and>
           (th_community_id row, r) \<in> thread_id ` set ts)) \<and>
     (\<forall>e\<in>set evs. er_created_at e = time_of (er_id e))"

definition threads_wf :: "(event_id \<Rightarrow> int) \<Rightarrow> event_db \<Rightarrow> bool" where
  "threads_wf time_of db \<longleftrightarrow> wf_tables time_of (db_events db) (db_threads db)"

definition counters_exact :: "event_db \<Rightarrow> bool" where
  "counters_exact db \<longleftrightarrow>
     (\<forall>row\<in>set (db_threads db).
        th_reply_count row = int (length (replies (live_event db) (th_community_id row) (th_event_id row) (db_threads db))) \<and>
        th_descendant_count row = int (length (descendants (live_event db) (th_community_id row) (th_event_id row) (db_threads db))))"

definition thread_inv :: "(event_id \<Rightarrow> int) \<Rightarrow> event_db \<Rightarrow> bool" where
  "thread_inv time_of db \<longleftrightarrow> threads_wf time_of db \<and> counters_exact db"

section \<open>Insertion\<close>

lemma replies_simps [simp]:
  "replies live com i (xs @ ys) = replies live com i xs @ replies live com i ys"
  "replies live com i [] = []"
  "descendants live com i (xs @ ys) = descendants live com i xs @ descendants live com i ys"
  "descendants live com i [] = []"
  by (simp_all add: replies_def descendants_def)

text \<open>Changing counters changes neither who replies nor who descends.\<close>

lemma length_replies_map:
  assumes "\<And>r. th_community_id (f r) = th_community_id r \<and> th_parent_event_id (f r) = th_parent_event_id r \<and>
      th_root_event_id (f r) = th_root_event_id r \<and> th_event_id (f r) = th_event_id r"
  shows "length (replies live com i (map f ts)) = length (replies live com i ts)"
    "length (descendants live com i (map f ts)) = length (descendants live com i ts)"
  using assms by (simp_all add: replies_def descendants_def filter_map comp_def)

text \<open>The result of a first insertion with a parent: the new row, the missing stubs, the bumped counters.\<close>

definition bump :: "uuid \<Rightarrow> event_id \<Rightarrow> event_id option \<Rightarrow> thread_row \<Rightarrow> thread_row" where
  "bump com pid root row =
     row\<lparr>th_reply_count := th_reply_count row + (if th_community_id row = com \<and> th_event_id row = pid then 1 else 0),
         th_descendant_count := th_descendant_count row + (if th_community_id row = com \<and> root = Some (th_event_id row) then 1 else 0)\<rparr>"

lemma bump_simps [simp]:
  "th_community_id (bump com pid root row) = th_community_id row" "th_event_id (bump com pid root row) = th_event_id row"
  "th_parent_event_id (bump com pid root row) = th_parent_event_id row"
  "th_root_event_id (bump com pid root row) = th_root_event_id row"
  "th_event_created_at (bump com pid root row) = th_event_created_at row"
  by (simp_all add: bump_def)

lemma thread_key_id:
  assumes "\<forall>row\<in>set ts. th_event_created_at row = time_of (th_event_id row)"
    "th_event_created_at row = time_of (th_event_id row)"
  shows "thread_key row \<in> thread_key ` set ts \<longleftrightarrow> thread_id row \<in> thread_id ` set ts"
  using assms by (auto simp: thread_key_def image_iff)

text \<open>Adding a stub where the row is missing.\<close>

definition stub_if_missing :: "uuid \<Rightarrow> int \<Rightarrow> event_id \<Rightarrow> uuid \<Rightarrow> thread_row list \<Rightarrow> thread_row list" where
  "stub_if_missing com t i ch ts = (if (com, i) \<in> thread_id ` set ts then [] else [thread_stub com t i ch])"

definition keyed :: "(event_id \<Rightarrow> int) \<Rightarrow> thread_row list \<Rightarrow> bool" where
  "keyed time_of ts \<longleftrightarrow> distinct (map thread_id ts) \<and> (\<forall>row\<in>set ts. th_event_created_at row = time_of (th_event_id row))"

lemma insert_stub:
  assumes "keyed time_of ts"
  shows "snd (insert_thread (thread_stub com (time_of i) i ch) ts) = ts @ stub_if_missing com (time_of i) i ch ts"
    "keyed time_of (ts @ stub_if_missing com (time_of i) i ch ts)"
    "(com, i) \<in> thread_id ` set (ts @ stub_if_missing com (time_of i) i ch ts)"
  using assms thread_key_id [of ts time_of "thread_stub com (time_of i) i ch"]
  by (auto simp: insert_thread_def stub_if_missing_def thread_stub_def keyed_def image_iff)

text \<open>Rows that reply to nothing and count nothing.\<close>

definition blank :: "thread_row \<Rightarrow> bool" where
  "blank row \<longleftrightarrow> th_parent_event_id row = None \<and> th_root_event_id row = None \<and> th_reply_count row = 0 \<and> th_descendant_count row = 0"

lemma blank_stub: "s \<in> set (stub_if_missing com t i ch ts) \<Longrightarrow> blank s"
  by (auto simp: stub_if_missing_def thread_stub_def blank_def split: if_splits)

lemma update_threads_bump:
  "update_threads com pid (\<lambda>row. row\<lparr>th_reply_count := th_reply_count row + 1\<rparr>) ts = map (bump com pid None) ts"
  "update_threads com r (\<lambda>row. row\<lparr>th_descendant_count := th_descendant_count row + 1\<rparr>) (map (bump com pid None) ts) =
     map (bump com pid (Some r)) ts"
  by (auto simp: update_threads_def bump_def)

lemma metadata_bumps:
  assumes "insert_thread (meta_row com m) ts = (True, ts1)" "tp_parent_event_id m = Some pid"
    "tp_parent_event_created_at m = Some pt" "snd (insert_thread (thread_stub com pt pid (tp_channel_id m)) ts1) = ts2"
    "(case tp_root_event_id m of
        Some r \<Rightarrow> if r \<noteq> pid then snd (insert_thread (thread_stub com (case tp_root_event_created_at m of Some v \<Rightarrow> v
                    | None \<Rightarrow> tp_event_created_at m) r (tp_channel_id m)) ts2) else ts2
      | None \<Rightarrow> ts2) = ts3"
  shows "insert_thread_metadata_tx com m ts = map (bump com pid (tp_root_event_id m)) ts3"
  using assms
  by (cases "tp_root_event_id m") (auto simp: insert_thread_metadata_tx_def update_threads_bump Let_def split: if_splits)

lemma insert_metadata_result:
  assumes key: "keyed time_of ts" and m: "meta_consistent time_of ev m"
    and new: "(com, ev_id ev) \<notin> thread_id ` set ts" and pid: "tp_parent_event_id m = Some pid"
  shows "\<exists>stubs. insert_thread_metadata_tx com m ts = map (bump com pid (tp_root_event_id m)) (ts @ meta_row com m # stubs) \<and>
    keyed time_of (ts @ meta_row com m # stubs) \<and> (\<forall>s\<in>set stubs. blank s) \<and>
    (com, pid) \<in> thread_id ` set (ts @ meta_row com m # stubs) \<and>
    (\<forall>r. tp_root_event_id m = Some r \<longrightarrow> (com, r) \<in> thread_id ` set (ts @ meta_row com m # stubs))"
proof -
  let ?ts1 = "ts @ [meta_row com m]"
  have row: "th_event_created_at (meta_row com m) = time_of (th_event_id (meta_row com m))"
    "thread_id (meta_row com m) = (com, ev_id ev)"
    using m by (simp_all add: meta_row_def meta_consistent_def)
  have key1: "keyed time_of ?ts1" using key new row by (auto simp: keyed_def)
  have ins: "insert_thread (meta_row com m) ts = (True, ?ts1)"
    using key new row thread_key_id [of ts time_of "meta_row com m"] by (simp add: insert_thread_def keyed_def)
  define ps where "ps = stub_if_missing com (time_of pid) pid (tp_channel_id m) ?ts1"
  note p_stub = insert_stub [OF key1, of com pid "tp_channel_id m", folded ps_def]
  have pt: "tp_parent_event_created_at m = Some (time_of pid)" using m pid by (simp add: meta_consistent_def)
  show ?thesis
  proof (cases "\<exists>r. tp_root_event_id m = Some r \<and> r \<noteq> pid")
    case False
    then have "insert_thread_metadata_tx com m ts = map (bump com pid (tp_root_event_id m)) (?ts1 @ ps)"
      by (intro metadata_bumps [OF ins pid pt p_stub(1)]) (auto split: option.split)
    with False p_stub show ?thesis
      by (intro exI [of _ ps]) (auto simp: ps_def dest: blank_stub)
  next
    case True
    then obtain r where r: "tp_root_event_id m = Some r" "r \<noteq> pid" by blast
    have rt: "tp_root_event_created_at m = Some (time_of r)" using m r by (simp add: meta_consistent_def)
    define rs where "rs = stub_if_missing com (time_of r) r (tp_channel_id m) (?ts1 @ ps)"
    note r_stub = insert_stub [OF p_stub(2), of com r "tp_channel_id m", folded rs_def]
    have "insert_thread_metadata_tx com m ts = map (bump com pid (tp_root_event_id m)) ((?ts1 @ ps) @ rs)"
      using r r_stub(1) by (intro metadata_bumps [OF ins pid pt p_stub(1)]) (simp add: rt)
    moreover have "\<forall>s\<in>set (ps @ rs). blank s" by (auto simp: ps_def rs_def dest: blank_stub)
    ultimately show ?thesis using r p_stub(3) r_stub by (intro exI [of _ "ps @ rs"]) auto
  qed
qed

lemma new_row_no_replies:
  assumes "threads_wf time_of db" "(c, i) \<notin> thread_id ` set (db_threads db)"
  shows "replies live c i (db_threads db) = []" "descendants live c i (db_threads db) = []"
  using assms by (fastforce simp: threads_wf_def wf_tables_def replies_def descendants_def filter_empty_conv)+

text \<open>A row that counts belongs to a stored event, so a newly stored event changes no count.\<close>

lemma replies_of_new_event:
  assumes "threads_wf time_of db" "\<forall>e\<in>set (db_events db). \<not> (er_community_id e = com \<and> er_id e = i0)"
    and "\<And>c i. live' c i \<longleftrightarrow> live c i \<or> (c = com \<and> i = i0)"
  shows "replies live' c i (db_threads db) = replies live c i (db_threads db)"
    "descendants live' c i (db_threads db) = descendants live c i (db_threads db)"
proof -
  have parent: "\<not> (th_community_id row = com \<and> th_event_id row = i0)"
    if "row \<in> set (db_threads db)" "th_parent_event_id row \<noteq> None" for row
    using assms(1,2) that unfolding threads_wf_def wf_tables_def by fastforce
  have "th_parent_event_id row \<noteq> None" if "row \<in> set (db_threads db)" "th_root_event_id row \<noteq> None" for row
    using assms(1) that unfolding threads_wf_def wf_tables_def by auto
  with parent have root: "\<not> (th_community_id row = com \<and> th_event_id row = i0)"
    if "row \<in> set (db_threads db)" "th_root_event_id row \<noteq> None" for row using that by blast
  show "replies live' c i (db_threads db) = replies live c i (db_threads db)"
    unfolding replies_def using parent by (intro filter_cong) (auto simp: assms(3))
  show "descendants live' c i (db_threads db) = descendants live c i (db_threads db)"
    unfolding descendants_def using root by (intro filter_cong) (auto simp: assms(3))
qed

lemma blank_replies:
  "\<forall>s\<in>set ss. blank s \<Longrightarrow> replies live c i ss = []" "\<forall>s\<in>set ss. blank s \<Longrightarrow> descendants live c i ss = []"
  by (auto simp: replies_def descendants_def blank_def filter_empty_conv)

text \<open>An event row is keyed by its id too.\<close>

lemma inserted_event_new:
  assumes "threads_wf time_of db" "event_key row \<notin> event_key ` set (db_events db)" "er_created_at row = time_of (er_id row)"
  shows "\<forall>e\<in>set (db_events db). \<not> (er_community_id e = er_community_id row \<and> er_id e = er_id row)"
proof (intro ballI notI)
  fix e assume e: "e \<in> set (db_events db)" "er_community_id e = er_community_id row \<and> er_id e = er_id row"
  with assms(1,3) have "er_created_at e = er_created_at row" unfolding threads_wf_def wf_tables_def by auto
  with e have "event_key row = event_key e" by (simp add: event_key_def)
  with assms(2) e(1) show False by blast
qed

text \<open>Well-formedness does not look at the counters, nor at deletion marks.\<close>

lemma wf_tables_map:
  assumes "wf_tables time_of evs ts"
    and keys: "event_key ` set evs' = event_key ` set evs"
    and f: "\<And>r. th_community_id (f r) = th_community_id r \<and> th_parent_event_id (f r) = th_parent_event_id r \<and>
      th_root_event_id (f r) = th_root_event_id r \<and> th_event_id (f r) = th_event_id r \<and>
      th_event_created_at (f r) = th_event_created_at r"
  shows "wf_tables time_of evs' (map f ts)"
proof -
  have ids: "thread_id ` set (map f ts) = thread_id ` set ts" "map thread_id (map f ts) = map thread_id ts"
    using f by (simp_all add: image_image)
  have "(\<exists>e\<in>set es. er_community_id e = c \<and> er_id e = i) \<longleftrightarrow> (\<exists>t. (c, t, i) \<in> event_key ` set es)" for es c i
    by (auto simp: event_key_def image_iff)
  then have ev: "(\<exists>e\<in>set evs'. er_community_id e = c \<and> er_id e = i) \<longleftrightarrow> (\<exists>e\<in>set evs. er_community_id e = c \<and> er_id e = i)" for c i
    using keys by metis
  have times: "(\<forall>e\<in>set es. er_created_at e = time_of (er_id e)) \<longleftrightarrow> (\<forall>(c, t, i)\<in>event_key ` set es. t = time_of i)" for es
    by (auto simp: event_key_def)
  show ?thesis
    using assms(1) f unfolding wf_tables_def times keys ids ev by auto
qed

lemma insert_step_inv:
  assumes inv: "thread_inv time_of db"
    and ins: "insert_event_with_thread_metadata_tx in_range now com ev ch meta db = Ok (r, db')"
    and time: "sint (ev_created_at ev) = time_of (ev_id ev)" and meta: "pred_option (meta_consistent time_of ev) meta"
  shows "thread_inv time_of db'"
proof -
  let ?row = "new_row now com ev (sint (ev_created_at ev)) ch (extract_d_tag ev) (extract_not_before ev)"
  let ?ts = "db_threads db"
  have wf: "threads_wf time_of db" and exact: "counters_exact db" using inv by (simp_all add: thread_inv_def)
  have keyed: "keyed time_of ?ts" using wf by (simp add: threads_wf_def wf_tables_def keyed_def)
  consider (dup) "db' = db"
    | (new) "event_key ?row \<notin> event_key ` set (db_events db)" "db_events db' = db_events db @ [?row]"
      "db_threads db' = (case meta of Some m \<Rightarrow> insert_thread_metadata_tx com m ?ts | None \<Rightarrow> ?ts)"
  proof (cases "event_key ?row \<in> event_key ` set (db_events db)")
    case True
    with ins have "db' = db"
      by (cases meta) (auto simp: insert_event_with_thread_metadata_tx_def insert_event_def insert_row_def to_datetime_def
          and_then_Inr Let_def split: if_splits)
    then show thesis by (rule that(1))
  next
    case False
    with ins show thesis
      by (cases meta; intro that(2)) (auto simp: insert_event_with_thread_metadata_tx_def insert_event_def insert_row_def
          to_datetime_def and_then_Inr Let_def dest: arg_cong [where f = db_threads] split: if_splits)
  qed
  then show ?thesis
  proof cases
    case dup
    with inv show ?thesis by simp
  next
    case new
    have rowid: "er_community_id ?row = com" "er_id ?row = ev_id ev" "er_created_at ?row = time_of (er_id ?row)"
      "er_deleted_at ?row = None"
      using time by (simp_all add: new_row_def)
    note fresh = inserted_event_new [OF wf new(1) rowid(3), unfolded rowid(1,2)]
    have live: "live_event db' c i \<longleftrightarrow> live_event db c i \<or> (c = com \<and> i = ev_id ev)" for c i
      unfolding live_event_def new(2) by (auto simp: rowid)
    note same = replies_of_new_event [OF wf fresh live]
    have counts: "th_reply_count row = int (length (replies (live_event db') (th_community_id row) (th_event_id row) ?ts)) \<and>
        th_descendant_count row = int (length (descendants (live_event db') (th_community_id row) (th_event_id row) ?ts))"
      if "row \<in> set ?ts" for row using exact that same by (simp add: counters_exact_def)
    have events: "\<exists>e\<in>set (db_events db'). er_community_id e = c \<and> er_id e = i"
      if "\<exists>e\<in>set (db_events db). er_community_id e = c \<and> er_id e = i" for c i using that new(2) by auto
    have newev: "\<exists>e\<in>set (db_events db'). er_community_id e = com \<and> er_id e = ev_id ev"
      unfolding new(2) using rowid by auto
    have times: "\<forall>e\<in>set (db_events db'). er_created_at e = time_of (er_id e)"
      using wf rowid(3) new(2) by (auto simp: threads_wf_def wf_tables_def)
    consider (same) "db_threads db' = ?ts"
      | (root) m where "meta = Some m" "db_threads db' = ?ts @ [meta_row com m]" "tp_parent_event_id m = None"
        "(com, ev_id ev) \<notin> thread_id ` set ?ts"
      | (reply) m pid where "meta = Some m" "tp_parent_event_id m = Some pid" "(com, ev_id ev) \<notin> thread_id ` set ?ts"
    proof (cases meta)
      case None
      with new(3) show thesis by (intro that(1)) simp
    next
      case (Some m)
      with meta have m: "meta_consistent time_of ev m" by simp
      have key: "thread_key (meta_row com m) \<in> thread_key ` set ?ts \<longleftrightarrow> (com, ev_id ev) \<in> thread_id ` set ?ts"
        using keyed m thread_key_id [of ?ts time_of "meta_row com m"] by (simp add: keyed_def meta_row_def meta_consistent_def)
      show thesis
      proof (cases "(com, ev_id ev) \<in> thread_id ` set ?ts")
        case True
        with key Some new(3) show thesis
          by (intro that(1)) (simp add: insert_thread_metadata_tx_def insert_thread_def)
      next
        case False
        with key Some new(3) show thesis
          by (cases "tp_parent_event_id m")
            (auto intro: that(2,3) simp: insert_thread_metadata_tx_def insert_thread_def)
      qed
    qed
    then show ?thesis
    proof cases
      case same
      have "threads_wf time_of db'"
        using wf times events unfolding threads_wf_def wf_tables_def same by simp
      with counts show ?thesis by (simp add: thread_inv_def counters_exact_def same)
    next
      case (root m)
      have m: "meta_consistent time_of ev m" using meta root(1) by simp
      let ?new = "meta_row com m"
      have nid: "thread_id ?new = (com, ev_id ev)" "blank ?new" "th_event_created_at ?new = time_of (ev_id ev)"
        using m root(3) by (simp_all add: meta_row_def meta_consistent_def blank_def)
      have none: "replies live c i [?new] = []" "descendants live c i [?new] = []" for live c i
        using nid(2) blank_replies [of "[?new]"] by simp_all
      have "threads_wf time_of db'"
        using wf times events nid root(4) unfolding threads_wf_def wf_tables_def root(2) by (auto simp: blank_def)
      moreover have "counters_exact db'"
        using counts none nid new_row_no_replies [OF wf root(4)]
        by (auto simp: counters_exact_def root(2) blank_def)
      ultimately show ?thesis by (simp add: thread_inv_def)
    next
      case (reply m pid)
      have m: "meta_consistent time_of ev m" using meta reply(1) by simp
      obtain stubs where ts': "db_threads db' = map (bump com pid (tp_root_event_id m)) (?ts @ meta_row com m # stubs)"
        and key': "keyed time_of (?ts @ meta_row com m # stubs)" and blank: "\<forall>s\<in>set stubs. blank s"
        and present: "(com, pid) \<in> thread_id ` set (?ts @ meta_row com m # stubs)"
          "\<forall>r. tp_root_event_id m = Some r \<longrightarrow> (com, r) \<in> thread_id ` set (?ts @ meta_row com m # stubs)"
        using insert_metadata_result [OF keyed m reply(3,2)] new(3) reply(1) by auto
      let ?all = "?ts @ meta_row com m # stubs"
      let ?b = "bump com pid (tp_root_event_id m)"
      have m0: "th_community_id (meta_row com m) = com" "th_event_id (meta_row com m) = ev_id ev"
        "th_parent_event_id (meta_row com m) = Some pid" "th_root_event_id (meta_row com m) = tp_root_event_id m"
        "th_reply_count (meta_row com m) = 0" "th_descendant_count (meta_row com m) = 0"
        using m reply(2) by (simp_all add: meta_row_def meta_consistent_def)
      have base: "th_reply_count row = int (length (replies (live_event db') (th_community_id row) (th_event_id row) ?ts)) \<and>
          th_descendant_count row = int (length (descendants (live_event db') (th_community_id row) (th_event_id row) ?ts))"
        if "row \<in> set ?all" for row
      proof (cases "row \<in> set ?ts")
        case True
        then show ?thesis by (rule counts)
      next
        case False
        with that have "row \<in> set (meta_row com m # stubs)" by auto
        moreover have "thread_id ` set ?ts \<inter> thread_id ` set (meta_row com m # stubs) = {}"
          using key' unfolding keyed_def map_append distinct_append set_map by blast
        ultimately have "thread_id row \<notin> thread_id ` set ?ts" by blast
        moreover from False that m0 blank have "th_reply_count row = 0" "th_descendant_count row = 0"
          by (auto simp: blank_def)
        ultimately show ?thesis using new_row_no_replies [OF wf] by simp
      qed
      have one: "length (replies (live_event db') c i (map ?b ?all)) =
            length (replies (live_event db') c i ?ts) + (if c = com \<and> i = pid then 1 else 0)"
          "length (descendants (live_event db') c i (map ?b ?all)) =
            length (descendants (live_event db') c i ?ts) + (if c = com \<and> tp_root_event_id m = Some i then 1 else 0)" for c i
      proof -
        have split: "?all = ?ts @ [meta_row com m] @ stubs" by simp
        have "live_event db' com (ev_id ev)" using live by simp
        then have "length (replies (live_event db') c i [meta_row com m]) = (if c = com \<and> i = pid then 1 else 0)"
          "length (descendants (live_event db') c i [meta_row com m]) = (if c = com \<and> tp_root_event_id m = Some i then 1 else 0)"
          using m0(1-4) by (auto simp: replies_def descendants_def)
        moreover have "length (replies (live_event db') c i (map ?b ?all)) = length (replies (live_event db') c i ?all)"
          "length (descendants (live_event db') c i (map ?b ?all)) = length (descendants (live_event db') c i ?all)"
          by (rule length_replies_map; simp)+
        ultimately show "length (replies (live_event db') c i (map ?b ?all)) =
            length (replies (live_event db') c i ?ts) + (if c = com \<and> i = pid then 1 else 0)"
          "length (descendants (live_event db') c i (map ?b ?all)) =
            length (descendants (live_event db') c i ?ts) + (if c = com \<and> tp_root_event_id m = Some i then 1 else 0)"
          unfolding split replies_simps using blank_replies [OF blank, of "live_event db'" c i] by simp_all
      qed
      have "th_reply_count (?b row) = int (length (replies (live_event db') (th_community_id (?b row)) (th_event_id (?b row)) (map ?b ?all))) \<and>
          th_descendant_count (?b row) = int (length (descendants (live_event db') (th_community_id (?b row)) (th_event_id (?b row)) (map ?b ?all)))"
        if "row \<in> set ?all" for row
        unfolding one bump_simps using base [OF that] by (simp add: bump_def)
      then have "counters_exact db'" unfolding counters_exact_def ts' by auto
      moreover have "threads_wf time_of db'"
      proof -
        have "distinct (map thread_id ?all)" using key' unfolding keyed_def by blast
        moreover have "th_event_created_at row = time_of (th_event_id row)" if "row \<in> set ?all" for row
          using key' that unfolding keyed_def by blast
        moreover have "(th_parent_event_id row = None \<longrightarrow> th_root_event_id row = None) \<and>
            (\<forall>p. th_parent_event_id row = Some p \<longrightarrow> p \<noteq> th_event_id row \<and> (th_community_id row, p) \<in> thread_id ` set ?all \<and>
              (\<exists>e\<in>set (db_events db'). er_community_id e = th_community_id row \<and> er_id e = th_event_id row)) \<and>
            (\<forall>r. th_root_event_id row = Some r \<longrightarrow> r \<noteq> th_event_id row \<and> (th_community_id row, r) \<in> thread_id ` set ?all)"
          if "row \<in> set ?all" for row
        proof -
          from that consider "row \<in> set ?ts" | "row = meta_row com m" | "row \<in> set stubs" by auto
          then show ?thesis
          proof cases
            case 1
            with wf have "(th_parent_event_id row = None \<longrightarrow> th_root_event_id row = None) \<and>
                (\<forall>p. th_parent_event_id row = Some p \<longrightarrow> p \<noteq> th_event_id row \<and> (th_community_id row, p) \<in> thread_id ` set ?ts \<and>
                  (\<exists>e\<in>set (db_events db). er_community_id e = th_community_id row \<and> er_id e = th_event_id row)) \<and>
                (\<forall>r. th_root_event_id row = Some r \<longrightarrow> r \<noteq> th_event_id row \<and> (th_community_id row, r) \<in> thread_id ` set ?ts)"
              unfolding threads_wf_def wf_tables_def by blast
            then show ?thesis using events by auto
          next
            case 2
            have ne: "pid \<noteq> ev_id ev" "\<forall>r. tp_root_event_id m = Some r \<longrightarrow> r \<noteq> ev_id ev"
              using m reply(2) by (simp_all add: meta_consistent_def)
            show ?thesis unfolding 2 m0 using ne present newev by simp
          next
            case 3
            with blank show ?thesis by (simp add: blank_def)
          qed
        qed
        ultimately have "wf_tables time_of (db_events db') ?all"
          using times unfolding wf_tables_def by blast
        from wf_tables_map [OF this refl, of ?b] show ?thesis by (simp only: threads_wf_def ts' bump_simps simp_thms)
      qed
      ultimately show ?thesis by (simp add: thread_inv_def)
    qed
  qed
qed

section \<open>Deletion\<close>

definition unbump :: "uuid \<Rightarrow> event_id \<Rightarrow> event_id option \<Rightarrow> thread_row \<Rightarrow> thread_row" where
  "unbump com pid root row =
     row\<lparr>th_reply_count := (if th_community_id row = com \<and> th_event_id row = pid then max (th_reply_count row - 1) 0 else th_reply_count row),
         th_descendant_count := (if th_community_id row = com \<and> root = Some (th_event_id row) then max (th_descendant_count row - 1) 0
            else th_descendant_count row)\<rparr>"

lemma unbump_simps [simp]:
  "th_community_id (unbump com pid root row) = th_community_id row" "th_event_id (unbump com pid root row) = th_event_id row"
  "th_parent_event_id (unbump com pid root row) = th_parent_event_id row"
  "th_root_event_id (unbump com pid root row) = th_root_event_id row"
  "th_event_created_at (unbump com pid root row) = th_event_created_at row"
  by (simp_all add: unbump_def)

lemma delete_result:
  "db_threads (snd (soft_delete_event_and_update_thread now com i parent root db)) =
     (case parent of
        Some pid \<Rightarrow> if live_event db com i then map (unbump com pid root) (db_threads db) else db_threads db
      | None \<Rightarrow> db_threads db)"
  "event_key ` set (db_events (snd (soft_delete_event_and_update_thread now com i parent root db))) = event_key ` set (db_events db)"
  "live_event (snd (soft_delete_event_and_update_thread now com i parent root db)) c j \<longleftrightarrow>
     live_event db c j \<and> \<not> (c = com \<and> j = i)"
proof -
  let ?P = "\<lambda>row. er_community_id row = com \<and> er_id row = i \<and> er_deleted_at row = None"
  have deleted: "filter ?P (db_events db) \<noteq> [] \<longleftrightarrow> live_event db com i" by (auto simp: live_event_def filter_empty_conv)
  show "db_threads (snd (soft_delete_event_and_update_thread now com i parent root db)) =
     (case parent of
        Some pid \<Rightarrow> if live_event db com i then map (unbump com pid root) (db_threads db) else db_threads db
      | None \<Rightarrow> db_threads db)"
    using deleted
    by (auto simp: soft_delete_event_and_update_thread_def soft_delete_event_def update_events_def update_threads_def
        unbump_def Let_def split: option.split)
  have events: "db_events (snd (soft_delete_event_and_update_thread now com i parent root db)) =
      map (\<lambda>row. if ?P row then mark_deleted now row else row) (db_events db)"
    by (simp add: soft_delete_event_and_update_thread_def soft_delete_event_def update_events_def Let_def)
  have "event_key (if ?P row then mark_deleted now row else row) = event_key row" for row
    by (simp add: event_key_def mark_deleted_def)
  then show "event_key ` set (db_events (snd (soft_delete_event_and_update_thread now com i parent root db))) = event_key ` set (db_events db)"
    by (simp only: events set_map image_image)
  show "live_event (snd (soft_delete_event_and_update_thread now com i parent root db)) c j \<longleftrightarrow>
     live_event db c j \<and> \<not> (c = com \<and> j = i)"
    unfolding live_event_def events by (auto simp: mark_deleted_def)
qed

text \<open>Withdrawing one row from a filtered list with distinct keys.\<close>

lemma length_filter_without:
  assumes "distinct (map key ts)" "x \<in> set ts" "\<And>r. live' r \<longleftrightarrow> live r \<and> key r \<noteq> key x" "live x"
  shows "length (filter (\<lambda>r. Q r \<and> live r) ts) = length (filter (\<lambda>r. Q r \<and> live' r) ts) + (if Q x then 1 else 0)"
proof -
  have inj: "key r = key x \<longleftrightarrow> r = x" if "r \<in> set ts" for r
    using assms(1,2) that by (auto simp: distinct_map inj_on_def)
  have "filter (\<lambda>r. Q r \<and> live' r) ts = filter (\<lambda>r. x \<noteq> r) (filter (\<lambda>r. Q r \<and> live r) ts)"
    unfolding filter_filter using inj assms(3) by (intro filter_cong) auto
  also have "\<dots> = remove1 x (filter (\<lambda>r. Q r \<and> live r) ts)"
    using distinct_map [of key ts] assms(1) by (simp add: distinct_remove1_removeAll removeAll_filter_not_eq)
  finally have "length (filter (\<lambda>r. Q r \<and> live' r) ts) = length (remove1 x (filter (\<lambda>r. Q r \<and> live r) ts))" by simp
  moreover have "0 < length (filter (\<lambda>r. Q r \<and> live r) ts)" if "Q x"
    using assms(2,4) that by (auto simp: filter_empty_conv)
  ultimately show ?thesis using assms(2,4) by (auto simp: length_remove1)
qed

lemma distinct_filter_eq: "distinct xs \<Longrightarrow> x \<in> set xs \<Longrightarrow> filter (\<lambda>r. r = x) xs = [x]"
  by (induction xs) (auto simp: filter_empty_conv)

lemma recorded_row:
  assumes "distinct (map thread_id (db_threads db))" "row \<in> set (db_threads db)"
  shows "recorded (th_community_id row) (th_event_id row) db = (th_parent_event_id row, th_root_event_id row)"
proof -
  have "filter (\<lambda>r. th_community_id r = th_community_id row \<and> th_event_id r = th_event_id row) (db_threads db) =
      filter (\<lambda>r. r = row) (db_threads db)"
    using assms by (intro filter_cong) (auto simp: distinct_map inj_on_def)
  also have "\<dots> = [row]"
    using assms distinct_map [of thread_id "db_threads db"] by (auto simp: distinct_filter_eq)
  finally show ?thesis by (simp add: recorded_def)
qed

lemma replies_by_key:
  "replies live c j ts = filter (\<lambda>r. (th_community_id r = c \<and> th_parent_event_id r = Some j) \<and>
     live (th_community_id r) (th_event_id r)) ts"
  unfolding replies_def by (intro filter_cong; auto)

lemma descendants_by_key:
  "descendants live c j ts = filter (\<lambda>r. (th_community_id r = c \<and> th_root_event_id r = Some j) \<and>
     live (th_community_id r) (th_event_id r)) ts"
  unfolding descendants_def by (intro filter_cong; auto)

lemma delete_without_reply_inv:
  assumes inv: "thread_inv time_of db" and rec: "recorded com i db = (parent, root)"
    and noop: "\<not> (live_event db com i \<and> (com, i) \<in> thread_id ` set (db_threads db) \<and> parent \<noteq> None)"
  shows "thread_inv time_of (snd (soft_delete_event_and_update_thread now com i parent root db))"
proof -
  let ?db' = "snd (soft_delete_event_and_update_thread now com i parent root db)"
  let ?ts = "db_threads db"
  note res = delete_result [of now com i parent root db]
  have wf: "wf_tables time_of (db_events db) ?ts" and exact: "counters_exact db"
    using inv by (simp_all add: thread_inv_def threads_wf_def)
  have dist: "distinct (map thread_id ?ts)" and rootless: "\<forall>row\<in>set ?ts. th_parent_event_id row = None \<longrightarrow> th_root_event_id row = None"
    using wf by (simp_all add: wf_tables_def)
  have none: "th_parent_event_id row = None" "th_root_event_id row = None"
    if row: "row \<in> set ?ts" "th_community_id row = com" "th_event_id row = i" and "live_event db com i" for row
  proof -
    have "(com, i) \<in> thread_id ` set ?ts" using row by force
    with noop that(4) have "parent = None" by blast
    with recorded_row [OF dist row(1)] row(2,3) rec show "th_parent_event_id row = None" by simp
    with rootless row(1) show "th_root_event_id row = None" by blast
  qed
  have "parent = None" if "(com, i) \<notin> thread_id ` set ?ts"
  proof -
    have "filter (\<lambda>row. th_community_id row = com \<and> th_event_id row = i) ?ts = []"
      using that by (auto simp: filter_empty_conv)
    with rec show ?thesis by (simp add: recorded_def)
  qed
  with noop have same: "db_threads ?db' = ?ts" by (auto simp: res(1) split: option.split)
  have "replies (live_event ?db') c j ?ts = replies (live_event db) c j ?ts"
    "descendants (live_event ?db') c j ?ts = descendants (live_event db) c j ?ts" for c j
    unfolding replies_def descendants_def by (intro filter_cong; auto simp: res(3) dest: none)+
  with exact have "counters_exact ?db'" by (simp add: counters_exact_def same)
  moreover have "threads_wf time_of ?db'"
    using wf_tables_map [OF wf res(2), of "\<lambda>r. r"] by (simp add: threads_wf_def same)
  ultimately show ?thesis by (simp add: thread_inv_def)
qed

lemma delete_reply_inv:
  assumes inv: "thread_inv time_of db" and rec: "recorded com i db = (parent, root)"
    and live: "live_event db com i \<and> (com, i) \<in> thread_id ` set (db_threads db) \<and> parent \<noteq> None"
  shows "thread_inv time_of (snd (soft_delete_event_and_update_thread now com i parent root db))"
proof -
  let ?db' = "snd (soft_delete_event_and_update_thread now com i parent root db)"
  let ?ts = "db_threads db"
  note res = delete_result [of now com i parent root db]
  have wf: "wf_tables time_of (db_events db) ?ts" and exact: "counters_exact db"
    using inv by (simp_all add: thread_inv_def threads_wf_def)
  have dist: "distinct (map thread_id ?ts)" using wf by (simp add: wf_tables_def)
  from live obtain pid where pid: "parent = Some pid" by auto
  from live obtain row where row: "row \<in> set ?ts" "th_community_id row = com" "th_event_id row = i" by auto
  have pr: "th_parent_event_id row = Some pid" "th_root_event_id row = root"
    using recorded_row [OF dist row(1)] row rec pid by auto
  have ts': "db_threads ?db' = map (unbump com pid root) ?ts" unfolding res(1) using live pid by simp
  note w = length_filter_without [OF dist row(1), where live = "\<lambda>r. live_event db (th_community_id r) (th_event_id r)"
      and live' = "\<lambda>r. live_event ?db' (th_community_id r) (th_event_id r)"]
  have without: "length (replies (live_event db) c j ?ts) =
        length (replies (live_event ?db') c j ?ts) + (if c = com \<and> j = pid then 1 else 0)"
      "length (descendants (live_event db) c j ?ts) =
        length (descendants (live_event ?db') c j ?ts) + (if c = com \<and> root = Some j then 1 else 0)" for c j
    unfolding replies_by_key descendants_by_key by (subst w; use live row pr in \<open>auto simp: res(3)\<close>)+
  have len: "length (replies live c j (map (unbump com pid root) ?ts)) = length (replies live c j ?ts)"
    "length (descendants live c j (map (unbump com pid root) ?ts)) = length (descendants live c j ?ts)" for live c j
    by (rule length_replies_map; simp)+
  have "counters_exact ?db'"
    unfolding counters_exact_def ts' len set_map ball_simps unbump_simps
    using exact without by (auto simp: counters_exact_def unbump_def)
  moreover have "threads_wf time_of ?db'"
    using wf_tables_map [OF wf res(2), of "unbump com pid root"] by (simp add: threads_wf_def ts')
  ultimately show ?thesis by (simp add: thread_inv_def)
qed

lemma delete_step_inv:
  "thread_inv time_of db \<Longrightarrow> recorded com i db = (parent, root) \<Longrightarrow>
   thread_inv time_of (snd (soft_delete_event_and_update_thread now com i parent root db))"
  using delete_without_reply_inv delete_reply_inv by blast

lemma thread_step_inv: "thread_step in_range time_of db db' \<Longrightarrow> thread_inv time_of db \<Longrightarrow> thread_inv time_of db'"
  by (induction rule: thread_step.induct) (auto intro: insert_step_inv delete_step_inv)

interpretation threads: step_system "\<lambda>db. db = empty_db" "thread_step in_range time_of" "thread_inv time_of"
proof
  show "thread_inv time_of db" if "db = empty_db" for db
    using that by (simp add: empty_db_def thread_inv_def threads_wf_def wf_tables_def counters_exact_def)
  show "thread_inv time_of t" if "thread_inv time_of s" "thread_step in_range time_of s t" for s t
    using thread_step_inv that by blast
qed

section \<open>Property\<close>


definition message :: "event_id \<Rightarrow> u64 \<Rightarrow> event" where
  "message i t = \<lparr>ev_id = i, ev_pubkey = ''pk'', ev_created_at = t, ev_kind = 9, ev_tags = [], ev_content = ''c''\<rparr>"

definition reply_to :: "event_id \<Rightarrow> int \<Rightarrow> thread_metadata_params" where
  "reply_to i t = \<lparr>tp_event_id = i, tp_event_created_at = t, tp_channel_id = ''ch'', tp_parent_event_id = Some ''a'',
     tp_parent_event_created_at = Some 1, tp_root_event_id = Some ''a'', tp_root_event_created_at = Some 1, tp_depth = 1,
     tp_broadcast = False\<rparr>"

definition two_replies :: event_db where
  "two_replies =
     (let step = (\<lambda>i t db. case insert_event_with_thread_metadata_tx (\<lambda>_. True) 0 ''com'' (message i (of_int t)) (Some ''ch'')
            (Some (reply_to i t)) db of Inr (_, db') \<Rightarrow> db' | Inl _ \<Rightarrow> db)
      in snd (soft_delete_event_and_update_thread 9 ''com'' ''b'' (Some ''a'') (Some ''a'') (step ''c'' 3 (step ''b'' 2 empty_db))))"


end
