(* ===== verification/CountPushdown.thy ===== *)
theory CountPushdown
  imports EventStoreCorrect
begin

text \<open>
  When a count runs in SQL (\<open>filter_fully_pushable\<close>, \<open>filter_to_query_params\<close> of
  \<open>buzz-relay/src/handlers/req.rs\<close> and \<open>count_events_on\<close> of \<open>buzz-db/src/event.rs\<close>): the count of
  the query is the count of the matching events, and on which filters it is not.
\<close>

section \<open>The query of a filter\<close>

definition nip33_only :: "nostr_filter \<Rightarrow> bool" where
  "nip33_only f = is_some_and (\<lambda>ks. ks \<noteq> [] \<and> list_all (\<lambda>k. is_parameterized_replaceable (kind_u32 k)) ks) (f_kinds f)"

lemma of_int_kind_column: "(of_int (kind_column k) :: u32) = kind_u32 k"
  by (simp add: kind_column_def of_int_uint)

lemma query_nip33:
  "is_some_and (\<lambda>ks. ks \<noteq> [] \<and> list_all (\<lambda>k. is_parameterized_replaceable (of_int k)) ks) (map_option (map kind_column) (f_kinds f)) =
   nip33_only f"
  by (cases "f_kinds f") (simp_all add: nip33_only_def list.pred_map comp_def of_int_kind_column)

lemma query_fields:
  "eq_community_id (filter_to_query_params in_range f ch com) = com"
  "eq_channel_id (filter_to_query_params in_range f ch com) = ch"
  "eq_kinds (filter_to_query_params in_range f ch com) = map_option (map kind_column) (f_kinds f)"
  "eq_pubkey (filter_to_query_params in_range f ch com) = (case f_authors f of Some [a] \<Rightarrow> Some a | _ \<Rightarrow> None)"
  "eq_authors (filter_to_query_params in_range f ch com) = (case f_authors f of Some (a # b # r) \<Rightarrow> Some (a # b # r) | _ \<Rightarrow> None)"
  "eq_since (filter_to_query_params in_range f ch com) = datetime_opt in_range (f_since f)"
  "eq_until (filter_to_query_params in_range f ch com) = datetime_opt in_range (f_until f)"
  "eq_p_tag_hex (filter_to_query_params in_range f ch com) = (case map_of (f_generic_tags f) ''p'' of Some [v] \<Rightarrow> Some v | _ \<Rightarrow> None)"
  "eq_ids (filter_to_query_params in_range f ch com) = non_empty (f_ids f)"
  "eq_e_tags (filter_to_query_params in_range f ch com) = non_empty (map_of (f_generic_tags f) ''e'')"
  "eq_d_tag (filter_to_query_params in_range f ch com) =
     (if nip33_only f then (case map_of (f_generic_tags f) ''d'' of Some [v] \<Rightarrow> Some v | _ \<Rightarrow> None) else None)"
  "eq_d_tags (filter_to_query_params in_range f ch com) =
     (if nip33_only f then (case map_of (f_generic_tags f) ''d'' of Some (v # w # r) \<Rightarrow> Some (v # w # r) | _ \<Rightarrow> None) else None)"
  "eq_global_only (filter_to_query_params in_range f ch com) = False"
  "eq_channel_ids (filter_to_query_params in_range f ch com) = None"
  "eq_channel_ids_include_global (filter_to_query_params in_range f ch com) = True"
  by (simp_all add: filter_to_query_params_def for_community_def query_nip33 Let_def split_beta
      split: option.split list.split)

section \<open>What the tables must agree on\<close>

text \<open>
  The lists of the filter are not empty, its tag keys are distinct, its times fit \<open>i64\<close> and the
  range of timestamps.
\<close>

definition filter_regular :: "(int \<Rightarrow> bool) \<Rightarrow> nostr_filter \<Rightarrow> bool" where
  "filter_regular in_range f \<longleftrightarrow>
     f_ids f \<noteq> Some [] \<and> f_authors f \<noteq> Some [] \<and>
     distinct (map fst (f_generic_tags f)) \<and> (\<forall>(k, vals)\<in>set (f_generic_tags f). vals \<noteq> []) \<and>
     (\<forall>t. f_since f = Some t \<or> f_until f = Some t \<longrightarrow> sint t = uint t \<and> in_range (sint t))"

text \<open>
  The columns of a row and its index entries say what its event says, for the values the filter
  asks for: its time, the mentions of its \<open>p\<close> tags, its \<open>d\<close> tag, its \<open>e\<close> tags; ids have full length.
\<close>

definition row_agrees :: "nostr_filter \<Rightarrow> event_db \<Rightarrow> event_row \<Rightarrow> bool" where
  "row_agrees f db row \<longleftrightarrow>
     er_created_at row = uint (ev_created_at (er_event row)) \<and>
     (\<forall>ids. f_ids f = Some ids \<longrightarrow> (\<forall>i\<in>set ids. prefix i (er_id row) \<longrightarrow> i = er_id row)) \<and>
     (\<forall>p. map_of (f_generic_tags f) ''p'' = Some [p] \<longrightarrow>
        length (filter (\<lambda>m. mn_community_id m = er_community_id row \<and> mn_event_id m = er_id row \<and>
            mn_pubkey_hex m = ascii_lower p) (db_mentions db)) =
        (if p \<in> set (tag_values (er_event row) ''p'') then 1 else 0)) \<and>
     (\<forall>vals. map_of (f_generic_tags f) ''d'' = Some vals \<and> nip33_only f \<longrightarrow>
        (\<forall>d\<in>set vals. er_d_tag row = Some d \<longleftrightarrow> d \<in> set (tag_values (er_event row) ''d''))) \<and>
     (\<forall>vals. map_of (f_generic_tags f) ''e'' = Some vals \<longrightarrow>
        (\<forall>e\<in>set vals. tags_contain row ''e'' e \<longleftrightarrow> e \<in> set (tag_values (er_event row) ''e'')))"

definition stored_of :: "event_row \<Rightarrow> stored_event" where
  "stored_of row = with_received_at (er_event row) (er_received_at row) (er_channel_id row) True"

section \<open>Clauses\<close>

lemma tag_constraint_values:
  "k \<noteq> ''h'' \<Longrightarrow> tag_constraint ev k vals \<longleftrightarrow> (\<exists>v\<in>set vals. v \<in> set (tag_values (se_event ev) k))"
  by (auto simp: tag_constraint_def tag_values_iff)

lemma kind_column_inj [simp]: "kind_column k = kind_column l \<longleftrightarrow> k = l"
  by (simp add: kind_column_def word_eq_iff_unsigned [symmetric])

lemma where_kinds_filter:
  "f_kinds f \<noteq> Some [] \<Longrightarrow> eq_kinds q = map_option (map kind_column) (f_kinds f) \<Longrightarrow>
   where_kinds q row \<longleftrightarrow> (\<forall>ks. f_kinds f = Some ks \<longrightarrow> ev_kind (er_event row) \<in> set ks)"
  by (auto simp: where_kinds_def split: option.split)

lemma where_authors_filter:
  "f_authors f \<noteq> Some [] \<Longrightarrow> eq_pubkey q = (case f_authors f of Some [a] \<Rightarrow> Some a | _ \<Rightarrow> None) \<Longrightarrow>
   eq_authors q = (case f_authors f of Some (a # b # r) \<Rightarrow> Some (a # b # r) | _ \<Rightarrow> None) \<Longrightarrow>
   where_authors q row \<longleftrightarrow> (\<forall>as. f_authors f = Some as \<longrightarrow> er_pubkey row \<in> set as)"
  by (auto simp: where_authors_def split: option.splits list.splits)

lemma where_ids_filter:
  "f_ids f \<noteq> Some [] \<Longrightarrow> eq_ids q = non_empty (f_ids f) \<Longrightarrow> row_agrees f db row \<Longrightarrow>
   where_ids q row \<longleftrightarrow> (\<forall>ids. f_ids f = Some ids \<longrightarrow> (\<exists>i\<in>set ids. prefix i (er_id row)))"
  by (auto simp: where_ids_def non_empty_def row_agrees_def split: option.splits list.splits)

lemma where_times_filter:
  assumes "filter_regular in_range f" "row_agrees f db row"
    "eq_since q = datetime_opt in_range (f_since f)" "eq_until q = datetime_opt in_range (f_until f)"
  shows "where_since q row \<longleftrightarrow> (\<forall>s. f_since f = Some s \<longrightarrow> s \<le> ev_created_at (er_event row))"
    "(case eq_until q of Some u \<Rightarrow> er_created_at row \<le> u | None \<Rightarrow> True) \<longleftrightarrow>
       (\<forall>u. f_until f = Some u \<longrightarrow> ev_created_at (er_event row) \<le> u)"
  using assms by (auto simp: where_since_def filter_regular_def row_agrees_def datetime_opt_def word_le_def split: option.split)

lemma where_d_filter:
  assumes "row_agrees f db row"
    "eq_d_tag q = (if nip33_only f then (case map_of (f_generic_tags f) ''d'' of Some [v] \<Rightarrow> Some v | _ \<Rightarrow> None) else None)"
    "eq_d_tags q = (if nip33_only f then (case map_of (f_generic_tags f) ''d'' of Some (v # w # r) \<Rightarrow> Some (v # w # r) | _ \<Rightarrow> None) else None)"
  shows "where_d_tag q row \<longleftrightarrow> (\<forall>vals. map_of (f_generic_tags f) ''d'' = Some vals \<and> vals \<noteq> [] \<and> nip33_only f \<longrightarrow>
      (\<exists>d\<in>set vals. d \<in> set (tag_values (er_event row) ''d'')))"
  using assms
  by (auto simp: where_d_tag_def row_agrees_def is_some_and_iff split: option.splits list.splits if_splits)

lemma where_e_filter:
  assumes "row_agrees f db row" "eq_e_tags q = non_empty (map_of (f_generic_tags f) ''e'')"
  shows "where_e_tags q row \<longleftrightarrow> (\<forall>vals. map_of (f_generic_tags f) ''e'' = Some vals \<and> vals \<noteq> [] \<longrightarrow>
      (\<exists>e\<in>set vals. e \<in> set (tag_values (er_event row) ''e'')))"
  using assms by (auto simp: where_e_tags_def row_agrees_def non_empty_def list_ex_iff split: option.splits list.splits)

lemma tags_filter:
  assumes "filter_fully_pushable f" "filter_regular in_range f" "h_values f = None"
  shows "(\<forall>(k, vals)\<in>set (f_generic_tags f). tag_constraint ev k vals) \<longleftrightarrow>
    (\<forall>p. map_of (f_generic_tags f) ''p'' = Some [p] \<longrightarrow> p \<in> set (tag_values (se_event ev) ''p'')) \<and>
    (\<forall>vals. map_of (f_generic_tags f) ''d'' = Some vals \<and> vals \<noteq> [] \<and> nip33_only f \<longrightarrow>
       (\<exists>d\<in>set vals. d \<in> set (tag_values (se_event ev) ''d''))) \<and>
    (\<forall>vals. map_of (f_generic_tags f) ''e'' = Some vals \<and> vals \<noteq> [] \<longrightarrow>
       (\<exists>e\<in>set vals. e \<in> set (tag_values (se_event ev) ''e'')))"
    (is "?L \<longleftrightarrow> ?P \<and> ?D \<and> ?E")
proof -
  have look: "(k, vals) \<in> set (f_generic_tags f) \<longleftrightarrow> map_of (f_generic_tags f) k = Some vals" for k vals
    using assms(2) by (simp add: filter_regular_def)
  have nonempty: "vals \<noteq> []" if "map_of (f_generic_tags f) k = Some vals" for k vals
  proof -
    have "(k, vals) \<in> set (f_generic_tags f)" using that by (rule map_of_SomeD)
    with assms(2) show ?thesis unfolding filter_regular_def by blast
  qed
  have keys: "k = ''p'' \<and> length vals \<le> 1 \<or> k = ''d'' \<and> nip33_only f \<or> k = ''e''"
    if "map_of (f_generic_tags f) k = Some vals" for k vals
  proof -
    have "(k, vals) \<in> set (f_generic_tags f)" using that look by simp
    moreover from assms(1) have "list_all (\<lambda>(k, vals). if k = ''h'' then True else if k = ''p'' then length vals \<le> 1
        else if k = ''d'' then vals = [] \<or> nip33_only f else if k = ''e'' then True else vals = []) (f_generic_tags f)"
      unfolding filter_fully_pushable_def Let_def nip33_only_def by (rule conjunct1)
    ultimately have "if k = ''h'' then True else if k = ''p'' then length vals \<le> 1
        else if k = ''d'' then vals = [] \<or> nip33_only f else if k = ''e'' then True else vals = []"
      unfolding list_all_iff by (drule_tac x = "(k, vals)" in bspec) simp_all
    moreover have "k \<noteq> ''h''" using assms(3) that by (auto simp: h_values_def)
    ultimately show ?thesis using nonempty [OF that] by (auto split: if_splits)
  qed
  have single: "\<exists>p. vals = [p]" if "map_of (f_generic_tags f) ''p'' = Some vals" for vals
    using keys [OF that] nonempty [OF that] by (cases vals) auto
  show ?thesis
  proof
    assume L: ?L
    then have "\<exists>v\<in>set vals. v \<in> set (tag_values (se_event ev) k)"
      if "map_of (f_generic_tags f) k = Some vals" for k vals
      using that look keys [OF that] tag_constraint_values [of k ev vals] by fastforce
    then show "?P \<and> ?D \<and> ?E" by fastforce
  next
    assume R: "?P \<and> ?D \<and> ?E"
    have "tag_constraint ev k vals" if "map_of (f_generic_tags f) k = Some vals" for k vals
    proof -
      have "\<exists>v\<in>set vals. v \<in> set (tag_values (se_event ev) k)"
        using keys [OF that] R that nonempty [OF that] single by fastforce
      with keys [OF that] show ?thesis by (auto simp: tag_constraint_values)
    qed
    then show ?L using look by auto
  qed
qed

text \<open>A join that finds each row at most once counts the rows it finds.\<close>

lemma length_join:
  assumes "\<forall>row\<in>set rows. length (filter (M row) ms) = (if P row then 1 else 0)"
  shows "length (filter W (concat (map (\<lambda>row. map (\<lambda>_. row) (filter (M row) ms)) rows))) =
    length (filter (\<lambda>row. W row \<and> P row) rows)"
  using assms
proof (induction rows)
  case (Cons row rows)
  have rep: "length (filter W (map (\<lambda>_. row) xs)) = (if W row then length xs else 0)" for xs :: "'b list"
    by (induction xs) auto
  have "length (filter W (concat (map (\<lambda>row. map (\<lambda>_. row) (filter (M row) ms)) (row # rows)))) =
      (if W row then length (filter (M row) ms) else 0) + length (filter (\<lambda>row. W row \<and> P row) rows)"
    unfolding list.map concat.simps filter_append length_append rep using Cons by simp
  with Cons.prems show ?case by simp
qed simp

lemma count_join:
  assumes "\<forall>row\<in>set (db_events db). row_agrees f db row" "eq_community_id q = com"
    "eq_p_tag_hex q = (case map_of (f_generic_tags f) ''p'' of Some [v] \<Rightarrow> Some v | _ \<Rightarrow> None)"
  shows "length (filter W (joined_rows q db)) =
    length (filter (\<lambda>row. er_community_id row = com \<and> er_deleted_at row = None \<and> W row \<and>
      (\<forall>p. map_of (f_generic_tags f) ''p'' = Some [p] \<longrightarrow> p \<in> set (tag_values (er_event row) ''p''))) (db_events db))"
proof (cases "\<exists>p. map_of (f_generic_tags f) ''p'' = Some [p]")
  case True
  then obtain p where p: "map_of (f_generic_tags f) ''p'' = Some [p]" by blast
  let ?live = "filter (\<lambda>row. er_community_id row = com \<and> er_deleted_at row = None) (db_events db)"
  let ?M = "\<lambda>row m. mn_community_id m = er_community_id row \<and> mn_event_id m = er_id row \<and> mn_community_id m = com \<and>
      mn_pubkey_hex m = ascii_lower p"
  have "length (filter (?M row) (db_mentions db)) = (if p \<in> set (tag_values (er_event row) ''p'') then 1 else 0)"
    if "row \<in> set ?live" for row
  proof -
    have "filter (?M row) (db_mentions db) = filter (\<lambda>m. mn_community_id m = er_community_id row \<and> mn_event_id m = er_id row \<and>
        mn_pubkey_hex m = ascii_lower p) (db_mentions db)"
      using that by (intro filter_cong) auto
    with assms(1) that p show ?thesis by (auto simp: row_agrees_def)
  qed
  from length_join [of ?live ?M "db_mentions db" "\<lambda>row. p \<in> set (tag_values (er_event row) ''p'')" W] this
  show ?thesis
    using assms(2,3) p by (simp add: joined_rows_def Let_def filter_filter conj_ac)
next
  case False
  then have "eq_p_tag_hex q = None" using assms(3) by (auto split: option.splits list.splits)
  with False assms(2) show ?thesis by (simp add: joined_rows_def filter_filter conj_ac)
qed

section \<open>Property\<close>

abbreviation scoped_query ::
  "(string \<Rightarrow> uuid option) \<Rightarrow> (int \<Rightarrow> bool) \<Rightarrow> nostr_filter \<Rightarrow> uuid \<Rightarrow> uuid list \<Rightarrow> event_query" where
  "scoped_query parse in_range f com accessible \<equiv>
     (build_event_query_from_filter parse in_range f com)\<lparr>eq_channel_ids := Some accessible\<rparr>"

abbreviation until_ok :: "event_query \<Rightarrow> event_row \<Rightarrow> bool" where
  "until_ok q row \<equiv> (case eq_until q of Some u \<Rightarrow> er_created_at row \<le> u | None \<Rightarrow> True)"

abbreviation p_value_ok :: "nostr_filter \<Rightarrow> event_row \<Rightarrow> bool" where
  "p_value_ok f row \<equiv> (\<forall>p. map_of (f_generic_tags f) ''p'' = Some [p] \<longrightarrow> p \<in> set (tag_values (er_event row) ''p''))"

lemma scoped_query_eq:
  "h_values f = None \<Longrightarrow>
   scoped_query parse in_range f com accessible = (filter_to_query_params in_range f None com)\<lparr>eq_channel_ids := Some accessible\<rparr>"
  by (simp add: build_event_query_from_filter_def extract_channel_id_from_filter_def)

lemma scoped_matches_nothing:
  assumes "h_values f = None" "filter_regular in_range f"
  shows "matches_nothing (scoped_query parse in_range f com accessible) \<longleftrightarrow> f_kinds f = Some []"
  using assms(2) unfolding scoped_query_eq [OF assms(1)]
  by (auto simp: matches_nothing_def query_fields non_empty_def filter_regular_def split: option.splits list.splits)

lemma scoped_channels:
  assumes "h_values f = None"
  shows "where_channel (scoped_query parse in_range f com accessible) row \<and>
      where_channel_ids (scoped_query parse in_range f com accessible) row \<longleftrightarrow>
    er_channel_id row = None \<or> er_channel_id row \<in> Some ` set accessible"
  unfolding scoped_query_eq [OF assms]
  by (cases "er_channel_id row") (auto simp: where_channel_def where_channel_ids_def query_fields)

lemma scoped_clauses:
  assumes "filter_fully_pushable f" "filter_regular in_range f" "h_values f = None" "f_kinds f \<noteq> Some []"
    and row: "row_agrees f db row" and q: "q = scoped_query parse in_range f com accessible"
  shows "(where_kinds q row \<and> where_authors q row \<and> where_ids q row \<and> where_e_tags q row \<and> where_since q row \<and>
      where_d_tag q row \<and> until_ok q row) \<and> p_value_ok f row \<longleftrightarrow> filter_match_one f (stored_of row)"
proof -
  have se: "se_event (stored_of row) = er_event row" by (simp add: stored_of_def with_received_at_def)
  have reg: "f_authors f \<noteq> Some []" "f_ids f \<noteq> Some []" using assms(2) by (auto simp: filter_regular_def)
  note q = q [unfolded scoped_query_eq [OF assms(3)]]
  have qf: "eq_kinds q = map_option (map kind_column) (f_kinds f)" "eq_ids q = non_empty (f_ids f)"
    "eq_pubkey q = eq_pubkey (filter_to_query_params in_range f None com)"
    "eq_authors q = eq_authors (filter_to_query_params in_range f None com)"
    "eq_since q = eq_since (filter_to_query_params in_range f None com)"
    "eq_until q = eq_until (filter_to_query_params in_range f None com)"
    "eq_d_tag q = eq_d_tag (filter_to_query_params in_range f None com)"
    "eq_d_tags q = eq_d_tags (filter_to_query_params in_range f None com)"
    "eq_e_tags q = eq_e_tags (filter_to_query_params in_range f None com)"
    by (simp_all add: q query_fields)
  note fields = query_fields [of in_range f None com]
  note w = where_kinds_filter [OF assms(4) qf(1)] where_authors_filter [OF reg(1) qf(3,4) [unfolded fields]]
    where_ids_filter [OF reg(2) qf(2) row] where_times_filter [OF assms(2) row qf(5,6) [unfolded fields]]
    where_d_filter [OF row qf(7,8) [unfolded fields]] where_e_filter [OF row qf(9) [unfolded fields]]
  show ?thesis
    unfolding w filter_match_one_iff filter_match_spec_def tags_filter [OF assms(1-3)] se by blast
qed


definition d_filter :: nostr_filter where
  "d_filter = \<lparr>f_ids = None, f_authors = Some [''pk''], f_kinds = Some [30078], f_since = Some 3, f_until = None,
     f_generic_tags = [(''d'', [''x'', ''y''])], f_search = None, f_limit = None\<rparr>"

definition one_row :: event_db where
  "one_row = empty_db\<lparr>db_events := [new_row 0 ''com'' (version_event ''a'' 7) 7 None (Some ''x'') None]\<rparr>"


text \<open>
  Where the pushed-down count overshoots. A filter whose \<open>ids\<close> list is present but empty, and a
  filter whose \<open>since\<close> exceeds the signed range, match no event at all, but both are admitted to the
  SQL path and count rows there, because the query drops or wraps the constraint.
\<close>

theorem pushed_count_overshoots:
  "let none_by_id = d_filter\<lparr>f_ids := Some []\<rparr>; none_by_time = d_filter\<lparr>f_since := Some (2 ^ 64 - 1)\<rparr>;
       counted = (\<lambda>f. count_events_on ((build_event_query_from_filter (\<lambda>_. None) (\<lambda>_. True) f ''com'')\<lparr>eq_channel_ids := Some []\<rparr>) one_row)
   in filter_fully_pushable none_by_id \<and> (\<forall>ev. \<not> filter_match_one none_by_id ev) \<and> counted none_by_id = 1 \<and>
      filter_fully_pushable none_by_time \<and>
      list_all (\<lambda>row. \<not> filter_match_one none_by_time (stored_of row)) (db_events one_row) \<and> counted none_by_time = 1"
proof -
  have "\<forall>ev. \<not> filter_match_one (d_filter\<lparr>f_ids := Some []\<rparr>) ev"
    by (simp add: filter_match_one_iff filter_match_spec_def)
  moreover have "filter_fully_pushable (d_filter\<lparr>f_ids := Some []\<rparr>)" "filter_fully_pushable (d_filter\<lparr>f_since := Some (2 ^ 64 - 1)\<rparr>)"
    by code_simp+
  moreover have "list_all (\<lambda>row. \<not> filter_match_one (d_filter\<lparr>f_since := Some (2 ^ 64 - 1)\<rparr>) (stored_of row)) (db_events one_row)"
    by code_simp
  moreover have "count_events_on ((build_event_query_from_filter (\<lambda>_. None) (\<lambda>_. True) (d_filter\<lparr>f_ids := Some []\<rparr>) ''com'')\<lparr>eq_channel_ids := Some []\<rparr>) one_row = 1"
    by code_simp
  moreover have "count_events_on ((build_event_query_from_filter (\<lambda>_. None) (\<lambda>_. True) (d_filter\<lparr>f_since := Some (2 ^ 64 - 1)\<rparr>) ''com'')\<lparr>eq_channel_ids := Some []\<rparr>) one_row = 1"
    by code_simp
  ultimately show ?thesis by (simp add: Let_def)
qed

end
