(* ===== verification/Attestation.thy ===== *)
theory Attestation
  imports AuditLog
begin

text \<open>
  Owner attestation (\<open>buzz-sdk/src/nip_oa.rs\<close>, NIP-OA): an owner signs that an agent key acts
  for it, under conditions on the kind and time of the agent's events; and the evaluation of
  the time conditions in \<open>buzz-relay/src/handlers/identity_archive.rs\<close>.

  The JSON parser and printer, key and signature decoding, SHA-256 and Schnorr signatures are
  the record \<open>oa_env\<close>. An \<open>InvalidInput\<close> message is a constructor with the values the message
  shows.
\<close>

section \<open>Conditions\<close>

datatype nip_oa_error =
    WhitespaceInConditions | EmptyClause | UnsupportedClause string | EmptyValue string | LeadingZero string string
  | NotDecimal string string | OutOfRange string string | InvalidJson | NotAnArray | WrongArity nat | NotAString nat
  | WrongLabel string | InvalidOwnerPubkey string | SelfAttestation | InvalidSignatureHex string | SignatureFailed
  | MalformedOwner string | MalformedSignature nat

definition is_ascii_whitespace :: "char \<Rightarrow> bool" where
  "is_ascii_whitespace c = ((of_char c :: nat) \<in> {9, 10, 12, 13, 32})"

definition validate_canonical_decimal ::
  "string \<Rightarrow> nat \<Rightarrow> nat \<Rightarrow> string \<Rightarrow> (unit, nip_oa_error) result" where
  "validate_canonical_decimal s lo hi label =
     (if s = [] then Err (EmptyValue label)
      else if length s > 1 \<and> hd s = CHR ''0'' then Err (LeadingZero label s)
      else if \<not> list_all is_digit s then Err (NotDecimal label s)
      else if read_nat s \<ge> 2 ^ 64 then Err (OutOfRange label s)
      else if read_nat s < lo \<or> read_nat s > hi then Err (OutOfRange label s)
      else Ok ())"

definition validate_clause :: "string \<Rightarrow> (unit, nip_oa_error) result" where
  "validate_clause clause =
     (case strip_prefix ''kind='' clause of
        Some value \<Rightarrow> validate_canonical_decimal value 0 65535 ''kind''
      | None \<Rightarrow>
          (case strip_prefix ''created_at<'' clause of
             Some value \<Rightarrow> validate_canonical_decimal value 0 4294967295 ''created_at<''
           | None \<Rightarrow>
               (case strip_prefix ''created_at>'' clause of
                  Some value \<Rightarrow> validate_canonical_decimal value 0 4294967295 ''created_at>''
                | None \<Rightarrow> Err (UnsupportedClause clause))))"

fun validate_clauses :: "string list \<Rightarrow> (unit, nip_oa_error) result" where
  "validate_clauses [] = Ok ()"
| "validate_clauses (clause # rest) =
     (if clause = [] then Err EmptyClause
      else and_then (validate_clause clause) (\<lambda>_. validate_clauses rest))"

definition validate_conditions :: "string \<Rightarrow> (unit, nip_oa_error) result" where
  "validate_conditions conditions =
     (if conditions = [] then Ok ()
      else if list_ex is_ascii_whitespace conditions then Err WhitespaceInConditions
      else validate_clauses (split_on CHR ''&'' conditions))"

section \<open>The tag\<close>

record oa_env =
  oa_json_parse :: "string \<Rightarrow> json option"
  oa_json_text :: "json \<Rightarrow> string"
  oa_pubkey_from_hex :: "string \<Rightarrow> pubkey option"
  oa_sig_from_str :: "string \<Rightarrow> string option"
  oa_sha256 :: "string \<Rightarrow> u8 list"
  oa_public_key :: "string \<Rightarrow> pubkey"
  oa_sign_schnorr :: "string \<Rightarrow> u8 list \<Rightarrow> string"
  oa_verify_schnorr :: "string \<Rightarrow> u8 list \<Rightarrow> pubkey \<Rightarrow> bool"

definition build_preimage :: "pubkey \<Rightarrow> string \<Rightarrow> string" where
  "build_preimage agent conditions = ''nostr:agent-auth:'' @ agent @ '':'' @ conditions"

definition hash_preimage :: "oa_env \<Rightarrow> string \<Rightarrow> u8 list" where
  "hash_preimage E text = oa_sha256 E text"

definition parse_json_array :: "oa_env \<Rightarrow> string \<Rightarrow> (json list, nip_oa_error) result" where
  "parse_json_array E s =
     (case oa_json_parse E s of
        None \<Rightarrow> Err InvalidJson
      | Some (JArray arr) \<Rightarrow> Ok arr
      | Some _ \<Rightarrow> Err NotAnArray)"

fun json_as_str :: "nat \<Rightarrow> json \<Rightarrow> (string, nip_oa_error) result" where
  "json_as_str i (JString s) = Ok s"
| "json_as_str i _ = Err (NotAString i)"

text \<open>\<open>owner_keys\<close> is the secret key.\<close>

definition compute_auth_tag :: "oa_env \<Rightarrow> string \<Rightarrow> pubkey \<Rightarrow> string \<Rightarrow> (string, nip_oa_error) result" where
  "compute_auth_tag E owner_keys agent conditions =
     (let owner = oa_public_key E owner_keys
      in if owner = agent then Err SelfAttestation
         else and_then (validate_conditions conditions) (\<lambda>_.
           let sig = oa_sign_schnorr E owner_keys (hash_preimage E (build_preimage agent conditions))
           in Ok (oa_json_text E (JArray [JString ''auth'', JString owner, JString conditions, JString sig]))))"

definition verify_auth_tag :: "oa_env \<Rightarrow> string \<Rightarrow> pubkey \<Rightarrow> (pubkey, nip_oa_error) result" where
  "verify_auth_tag E auth_tag_json agent =
     and_then (parse_json_array E auth_tag_json) (\<lambda>arr.
       if length arr \<noteq> 4 then Err (WrongArity (length arr))
       else and_then (json_as_str 0 (arr ! 0)) (\<lambda>label.
         if label \<noteq> ''auth'' then Err (WrongLabel label)
         else and_then (json_as_str 1 (arr ! 1)) (\<lambda>owner_hex.
           and_then (json_as_str 2 (arr ! 2)) (\<lambda>conditions.
             and_then (json_as_str 3 (arr ! 3)) (\<lambda>sig_hex.
               case oa_pubkey_from_hex E owner_hex of
                 None \<Rightarrow> Err (InvalidOwnerPubkey owner_hex)
               | Some owner \<Rightarrow>
                   and_then (validate_conditions conditions) (\<lambda>_.
                     if owner = agent then Err SelfAttestation
                     else (case oa_sig_from_str E sig_hex of
                             None \<Rightarrow> Err (InvalidSignatureHex sig_hex)
                           | Some sig \<Rightarrow>
                               if oa_verify_schnorr E sig (hash_preimage E (build_preimage agent conditions)) owner
                               then Ok owner else Err SignatureFailed)))))))"

definition is_lowercase_hex :: "char \<Rightarrow> bool" where
  "is_lowercase_hex c = (is_digit c \<or> 97 \<le> (of_char c :: nat) \<and> (of_char c :: nat) \<le> 102)"

text \<open>The structural check at startup; the elements of the tag.\<close>

definition parse_auth_tag :: "oa_env \<Rightarrow> string \<Rightarrow> (string list, nip_oa_error) result" where
  "parse_auth_tag E json_str =
     and_then (parse_json_array E json_str) (\<lambda>arr.
       if length arr \<noteq> 4 then Err (WrongArity (length arr))
       else and_then (json_as_str 0 (arr ! 0)) (\<lambda>label.
         if label \<noteq> ''auth'' then Err (WrongLabel label)
         else and_then (json_as_str 1 (arr ! 1)) (\<lambda>owner_pubkey_hex.
           if length owner_pubkey_hex \<noteq> 64 \<or> \<not> list_all is_lowercase_hex owner_pubkey_hex then Err (MalformedOwner owner_pubkey_hex)
           else and_then (json_as_str 2 (arr ! 2)) (\<lambda>conditions.
             and_then (validate_conditions conditions) (\<lambda>_.
               and_then (json_as_str 3 (arr ! 3)) (\<lambda>sig_hex.
                 if length sig_hex \<noteq> 128 \<or> \<not> list_all is_lowercase_hex sig_hex then Err (MalformedSignature (length sig_hex))
                 else Ok [''auth'', owner_pubkey_hex, conditions, sig_hex]))))))"

section \<open>Time bounds of a request\<close>

text \<open>\<open>str::parse::<u64>\<close>: an optional plus sign, at least one digit, no overflow.\<close>

definition parse_u64 :: "string \<Rightarrow> nat option" where
  "parse_u64 s =
     (let digits = (case s of c # rest \<Rightarrow> if c = CHR ''+'' then rest else s | [] \<Rightarrow> [])
      in if digits \<noteq> [] \<and> list_all is_digit digits \<and> read_nat digits < 2 ^ 64 then Some (read_nat digits) else None)"

datatype time_bound_error = InvalidTagJson | MissingConditions | InvalidBound string | NotBefore nat nat | NotAfter nat nat

fun enforce_clauses :: "u64 \<Rightarrow> string list \<Rightarrow> (unit, time_bound_error) result" where
  "enforce_clauses created_at [] = Ok ()"
| "enforce_clauses created_at (clause # rest) =
     (case strip_prefix ''created_at<'' clause of
        Some text \<Rightarrow>
          (case parse_u64 text of
             None \<Rightarrow> Err (InvalidBound text)
           | Some bound \<Rightarrow> if unat created_at \<ge> bound then Err (NotBefore (unat created_at) bound)
                           else enforce_clauses created_at rest)
      | None \<Rightarrow>
          (case strip_prefix ''created_at>'' clause of
             Some text \<Rightarrow>
               (case parse_u64 text of
                  None \<Rightarrow> Err (InvalidBound text)
                | Some bound \<Rightarrow> if unat created_at \<le> bound then Err (NotAfter (unat created_at) bound)
                                else enforce_clauses created_at rest)
           | None \<Rightarrow> enforce_clauses created_at rest))"

text \<open>\<open>serde_json::from_str::<Vec<String>>\<close>.\<close>

definition json_strings :: "json \<Rightarrow> string list option" where
  "json_strings j =
     (case j of
        JArray vs \<Rightarrow>
          if list_all (\<lambda>v. case v of JString _ \<Rightarrow> True | _ \<Rightarrow> False) vs
          then Some (map (\<lambda>v. case v of JString s \<Rightarrow> s | _ \<Rightarrow> []) vs) else None
      | _ \<Rightarrow> None)"

definition enforce_request_auth_time_bounds :: "oa_env \<Rightarrow> string \<Rightarrow> u64 \<Rightarrow> (unit, time_bound_error) result" where
  "enforce_request_auth_time_bounds E auth_tag_json created_at =
     (case Option.bind (oa_json_parse E auth_tag_json) json_strings of
        None \<Rightarrow> Err InvalidTagJson
      | Some parts \<Rightarrow>
          if length parts \<le> 2 then Err MissingConditions
          else enforce_clauses created_at (filter (\<lambda>clause. clause \<noteq> []) (split_on CHR ''&'' (parts ! 2))))"

section \<open>The grammar\<close>

text \<open>The clauses of NIP-OA, their text and their meaning.\<close>

datatype clause = KindIs nat | CreatedBefore nat | CreatedAfter nat

fun clause_text :: "clause \<Rightarrow> string" where
  "clause_text (KindIs n) = ''kind='' @ show_nat n"
| "clause_text (CreatedBefore n) = ''created_at<'' @ show_nat n"
| "clause_text (CreatedAfter n) = ''created_at>'' @ show_nat n"

fun clause_in_range :: "clause \<Rightarrow> bool" where
  "clause_in_range (KindIs n) = (n \<le> 65535)"
| "clause_in_range (CreatedBefore n) = (n \<le> 4294967295)"
| "clause_in_range (CreatedAfter n) = (n \<le> 4294967295)"

fun time_clause_holds :: "nat \<Rightarrow> clause \<Rightarrow> bool" where
  "time_clause_holds t (KindIs n) = True"
| "time_clause_holds t (CreatedBefore n) = (t < n)"
| "time_clause_holds t (CreatedAfter n) = (t > n)"

definition conditions_text :: "clause list \<Rightarrow> string" where
  "conditions_text cls = join_with CHR ''&'' (map clause_text cls)"

lemma validate_decimal_iff:
  "hi < 2 ^ 64 \<Longrightarrow> validate_canonical_decimal s 0 hi label = Ok () \<longleftrightarrow> (\<exists>n\<le>hi. s = show_nat n)"
proof
  assume "validate_canonical_decimal s 0 hi label = Ok ()"
  then have "s \<noteq> []" "list_all is_digit s" "length s > 1 \<longrightarrow> hd s \<noteq> CHR ''0''" "read_nat s \<le> hi"
    by (auto simp: validate_canonical_decimal_def split: if_splits)
  then show "\<exists>n\<le>hi. s = show_nat n" using show_read_nat [of s] by metis
next
  assume "hi < 2 ^ 64" "\<exists>n\<le>hi. s = show_nat n"
  then show "validate_canonical_decimal s 0 hi label = Ok ()"
    using show_nat_no_leading_zero show_nat_digits
    by (auto simp: validate_canonical_decimal_def read_show_nat)
qed

lemma strip_prefix_Some: "strip_prefix p s = Some t \<longleftrightarrow> s = p @ t"
  by (auto simp: strip_prefix_def prefix_def)

lemma strip_prefix_None: "strip_prefix p s = None \<longleftrightarrow> \<not> prefix p s"
  by (simp add: strip_prefix_def)

lemma validate_clause_iff: "validate_clause s = Ok () \<longleftrightarrow> (\<exists>cl. clause_in_range cl \<and> s = clause_text cl)"
proof
  assume "validate_clause s = Ok ()"
  then consider (k) n where "clause_in_range (KindIs n)" "s = clause_text (KindIs n)"
    | (b) n where "clause_in_range (CreatedBefore n)" "s = clause_text (CreatedBefore n)"
    | (a) n where "clause_in_range (CreatedAfter n)" "s = clause_text (CreatedAfter n)"
    by (auto simp: validate_clause_def strip_prefix_Some validate_decimal_iff split: option.splits)
  then show "\<exists>cl. clause_in_range cl \<and> s = clause_text cl" by cases blast+
next
  assume "\<exists>cl. clause_in_range cl \<and> s = clause_text cl"
  then obtain cl where cl: "clause_in_range cl" "s = clause_text cl" by blast
  then show "validate_clause s = Ok ()"
    by (cases cl) (auto simp: validate_clause_def strip_prefix_def validate_decimal_iff)
qed

lemma clause_text_nonempty [simp]: "clause_text cl \<noteq> []"
  by (cases cl) simp_all

lemma clause_text_inj: "clause_text a = clause_text b \<longleftrightarrow> a = b"
  by (cases a; cases b) (simp_all add: read_nat_inj_show)

lemma validate_clauses_iff:
  "validate_clauses ss = Ok () \<longleftrightarrow> (\<exists>cls. list_all clause_in_range cls \<and> ss = map clause_text cls)"
proof (induction ss)
  case (Cons s ss)
  have "validate_clauses (s # ss) = Ok () \<longleftrightarrow> validate_clause s = Ok () \<and> validate_clauses ss = Ok ()"
    using validate_clause_iff [of s] by (cases "validate_clause s") auto
  also have "\<dots> \<longleftrightarrow> (\<exists>cl cls. clause_in_range cl \<and> list_all clause_in_range cls \<and> s = clause_text cl \<and> ss = map clause_text cls)"
    unfolding Cons.IH validate_clause_iff by blast
  also have "\<dots> \<longleftrightarrow> (\<exists>cls. list_all clause_in_range cls \<and> s # ss = map clause_text cls)"
    by (auto simp: Cons_eq_map_conv) (metis list.pred_inject(2), blast)
  finally show ?case .
qed simp

lemma show_nat_chars: "c \<in> set (show_nat n) \<Longrightarrow> c \<noteq> CHR ''&'' \<and> \<not> is_ascii_whitespace c"
  using show_nat_digits [of n] by (auto simp: list_all_iff is_digit_def is_ascii_whitespace_def)

lemma clause_text_chars: "c \<in> set (clause_text cl) \<Longrightarrow> c \<noteq> CHR ''&'' \<and> \<not> is_ascii_whitespace c"
  by (cases cl) (auto dest: show_nat_chars simp: is_ascii_whitespace_def)

lemma clauses_no_sep: "list_all (\<lambda>p. CHR ''&'' \<notin> set p) (map clause_text cls)"
  by (auto simp: list_all_iff dest: clause_text_chars)

lemma set_join_with: "set (join_with c ps) \<subseteq> insert c (\<Union> (set ` set ps))"
  by (induction ps rule: join_with.induct) auto

lemma conditions_no_whitespace: "\<not> list_ex is_ascii_whitespace (conditions_text cls)"
proof -
  have "c = CHR ''&'' \<or> (\<exists>cl. c \<in> set (clause_text cl))" if "c \<in> set (conditions_text cls)" for c
    using set_join_with [of "CHR ''&''" "map clause_text cls"] that by (auto simp: conditions_text_def)
  moreover have "\<not> is_ascii_whitespace CHR ''&''" by (simp add: is_ascii_whitespace_def)
  ultimately show ?thesis using clause_text_chars by (metis list_ex_iff)
qed

lemma split_conditions: "cls \<noteq> [] \<Longrightarrow> split_on CHR ''&'' (conditions_text cls) = map clause_text cls"
  unfolding conditions_text_def by (intro split_join clauses_no_sep) simp

lemma conditions_empty [simp]: "conditions_text cls = [] \<longleftrightarrow> cls = []"
proof
  assume "conditions_text cls = []"
  show "cls = []"
  proof (rule ccontr)
    assume ne: "cls \<noteq> []"
    with split_conditions [OF ne] \<open>conditions_text cls = []\<close> have "map clause_text cls = [[]]" by simp
    then show False by auto
  qed
qed (simp add: conditions_text_def)

lemma nonempty_clauses: "filter (\<lambda>clause. clause \<noteq> []) (split_on CHR ''&'' (conditions_text cls)) = map clause_text cls"
  by (cases "cls = []") (simp_all add: split_conditions filter_map comp_def, simp add: conditions_text_def)

lemma validate_conditions_iff:
  "validate_conditions c = Ok () \<longleftrightarrow> (\<exists>cls. list_all clause_in_range cls \<and> c = conditions_text cls)"
proof
  assume ok: "validate_conditions c = Ok ()"
  show "\<exists>cls. list_all clause_in_range cls \<and> c = conditions_text cls"
  proof (cases "c = []")
    case True
    then show ?thesis by (intro exI [of _ "[]"]) (simp add: conditions_text_def)
  next
    case False
    with ok obtain cls where "list_all clause_in_range cls" "split_on CHR ''&'' c = map clause_text cls"
      by (auto simp: validate_conditions_def validate_clauses_iff split: if_splits)
    then show ?thesis using join_split [of "CHR ''&''" c] by (auto simp: conditions_text_def)
  qed
next
  assume "\<exists>cls. list_all clause_in_range cls \<and> c = conditions_text cls"
  then obtain cls where cls: "list_all clause_in_range cls" "c = conditions_text cls" by blast
  then show "validate_conditions c = Ok ()"
    using validate_clauses_iff [of "map clause_text cls"] split_conditions [of cls] conditions_no_whitespace [of cls]
    by (cases "cls = []") (auto simp: validate_conditions_def)
qed

lemma conditions_text_inj: "conditions_text cls = conditions_text cls' \<Longrightarrow> cls = cls'"
proof -
  assume eq: "conditions_text cls = conditions_text cls'"
  then have "cls = [] \<longleftrightarrow> cls' = []" by (metis conditions_empty)
  moreover have "map clause_text cls = map clause_text cls'" if "cls \<noteq> []" "cls' \<noteq> []"
    using that split_conditions eq by metis
  ultimately show "cls = cls'" by (metis (no_types) clause_text_inj inj_def map_injective)
qed

lemma parse_u64_show: "n < 2 ^ 64 \<Longrightarrow> parse_u64 (show_nat n) = Some n"
proof -
  assume n: "n < 2 ^ 64"
  obtain c cs where s: "show_nat n = c # cs" by (cases "show_nat n") auto
  moreover have "c \<noteq> CHR ''+''" using show_nat_digits [of n] s by (auto simp: is_digit_def)
  ultimately show ?thesis using show_nat_digits [of n] n read_show_nat [of n] by (simp add: parse_u64_def)
qed

lemma enforce_clauses_iff:
  "list_all clause_in_range cls \<Longrightarrow>
   enforce_clauses t (map clause_text cls) = Ok () \<longleftrightarrow> list_all (time_clause_holds (unat t)) cls"
proof (induction cls)
  case (Cons cl cls)
  then show ?case by (cases cl) (auto simp: strip_prefix_def parse_u64_show)
qed simp

lemma json_strings_map [simp]: "json_strings (JArray (map JString ss)) = Some ss"
  by (simp add: json_strings_def list_all_iff comp_def)

text \<open>
  The time bounds of an archive request are enforced exactly: for a tag whose conditions
  are valid, the check passes when the request's time satisfies every time clause, and fails
  otherwise; \<open>kind\<close> clauses do not take part.
\<close>

theorem archive_time_bounds_exact:
  assumes "oa_json_parse E tag_json = Some (JArray (map JString parts))" "2 < length parts"
    and "parts ! 2 = conditions_text cls" "list_all clause_in_range cls"
  shows "enforce_request_auth_time_bounds E tag_json t = Ok () \<longleftrightarrow> list_all (time_clause_holds (unat t)) cls"
  using assms by (simp add: enforce_request_auth_time_bounds_def enforce_clauses_iff nonempty_clauses)

text \<open>The laws of the JSON crate, of key and signature text and of Schnorr signatures.\<close>

definition attestation_laws :: "oa_env \<Rightarrow> bool" where
  "attestation_laws E \<longleftrightarrow>
     (\<forall>ss. oa_json_parse E (oa_json_text E (JArray (map JString ss))) = Some (JArray (map JString ss))) \<and>
     (\<forall>k. oa_pubkey_from_hex E (oa_public_key E k) = Some (oa_public_key E k)) \<and>
     (\<forall>k m. oa_sig_from_str E (oa_sign_schnorr E k m) = Some (oa_sign_schnorr E k m)) \<and>
     (\<forall>k m. oa_verify_schnorr E (oa_sign_schnorr E k m) m (oa_public_key E k))"


text \<open>A concrete instance: strings are written character by character, a signature is the key.\<close>

fun write_text :: "string \<Rightarrow> string" where
  "write_text [] = ''0''"
| "write_text (c # s) = CHR ''1'' # c # write_text s"

fun read_texts :: "string \<Rightarrow> string \<Rightarrow> string list" where
  "read_texts acc [] = []"
| "read_texts acc (f # r) =
     (if f = CHR ''0'' then acc # read_texts [] r
      else (case r of [] \<Rightarrow> [] | c # r' \<Rightarrow> read_texts (acc @ [c]) r'))"

definition sample_oa :: oa_env where
  "sample_oa = \<lparr>oa_json_parse = (\<lambda>t. Some (JArray (map JString (read_texts [] t)))),
     oa_json_text = (\<lambda>j. case json_strings j of Some ss \<Rightarrow> concat (map write_text ss) | None \<Rightarrow> []),
     oa_pubkey_from_hex = Some, oa_sig_from_str = Some, oa_sha256 = (\<lambda>s. map (\<lambda>c. of_nat (of_char c)) s),
     oa_public_key = (\<lambda>k. CHR ''K'' # k), oa_sign_schnorr = (\<lambda>k m. k),
     oa_verify_schnorr = (\<lambda>sig m pk. pk = CHR ''K'' # sig)\<rparr>"

lemma read_write_text: "read_texts acc (write_text s @ r) = (acc @ s) # read_texts [] r"
  by (induction s arbitrary: acc) simp_all

lemma read_write_texts: "read_texts [] (concat (map write_text ss)) = ss"
  by (induction ss) (simp_all add: read_write_text)

lemma sample_oa_laws: "attestation_laws sample_oa"
  by (simp add: attestation_laws_def sample_oa_def read_write_texts)


theorem archive_time_bounds_exact_witness:
  "enforce_request_auth_time_bounds sample_oa
     (oa_json_text sample_oa (JArray (map JString [''auth'', ''Ko'', conditions_text [KindIs 9, CreatedBefore 100], ''o'']))) 99 = Ok () \<and>
   enforce_request_auth_time_bounds sample_oa
     (oa_json_text sample_oa (JArray (map JString [''auth'', ''Ko'', conditions_text [KindIs 9, CreatedBefore 100], ''o'']))) 100 \<noteq> Ok ()"
proof -
  let ?parts = "[''auth'', ''Ko'', conditions_text [KindIs 9, CreatedBefore 100], ''o'']"
  have "oa_json_parse sample_oa (oa_json_text sample_oa (JArray (map JString ?parts))) = Some (JArray (map JString ?parts))"
    using sample_oa_laws unfolding attestation_laws_def by blast
  note bounds = archive_time_bounds_exact [OF this, of "[KindIs 9, CreatedBefore 100]"]
  have "list_all clause_in_range [KindIs 9, CreatedBefore 100]" by simp
  then show ?thesis using bounds [of 99] bounds [of 100] by (simp del: list.map)
qed

end
