(* ===== verification/Protocol.thy ===== *)
theory Protocol
  imports AuditLog Events
begin

text \<open>
  The wire protocol of the relay (\<open>buzz-relay/src/protocol.rs\<close>): the messages of a client,
  parsed from a JSON value with the limits the relay advertises, and the messages of the
  relay. The JSON parser and the deserializers of events and filters belong to other crates
  and are the record \<open>wire_env\<close>; so is the text of a relay message. A text is the list of its
  bytes.
\<close>

definition MAX_SUB_ID_LENGTH :: nat where
  "MAX_SUB_ID_LENGTH = 256"

definition MAX_FILTERS_PER_REQ :: nat where
  "MAX_FILTERS_PER_REQ = 10"

datatype client_message =
    EventMsg event
  | ReqMsg string "nostr_filter list"
  | CloseMsg string
  | CountMsg string "nostr_filter list"
  | AuthMsg event

datatype relay_message =
    AuthChallenge string
  | Event string event
  | Notice string
  | Eose string
  | OkResult event_id bool string
  | ClosedSub string string
  | CountResult string nat

datatype relay_error = InvalidMessage string

record wire_env =
  we_json :: "string \<Rightarrow> (json, string) result"
  we_event :: "json \<Rightarrow> (event, string) result"
  we_filter :: "json \<Rightarrow> (nostr_filter, string) result"
  we_text :: "relay_message \<Rightarrow> string"

fun as_str :: "json \<Rightarrow> string option" where
  "as_str (JString s) = Some s"
| "as_str _ = None"

fun as_array :: "json \<Rightarrow> json list option" where
  "as_array (JArray a) = Some a"
| "as_array _ = None"

definition ok_or :: "'a option \<Rightarrow> 'e \<Rightarrow> ('a, 'e) result" where
  "ok_or v e = (case v of Some a \<Rightarrow> Ok a | None \<Rightarrow> Err e)"

definition map_err :: "('e \<Rightarrow> 'f) \<Rightarrow> ('a, 'e) result \<Rightarrow> ('a, 'f) result" where
  "map_err f r = (case r of Inl e \<Rightarrow> Inl (f e) | Inr a \<Rightarrow> Inr a)"

text \<open>\<open>collect::<Result<Vec<_>>>\<close>: the first error, or all the values.\<close>

fun collect_filters :: "wire_env \<Rightarrow> json list \<Rightarrow> (nostr_filter list, relay_error) result" where
  "collect_filters W [] = Ok []"
| "collect_filters W (v # vs) =
     and_then (map_err (\<lambda>e. InvalidMessage (''invalid filter: '' @ e)) (we_filter W v)) (\<lambda>f.
       and_then (collect_filters W vs) (\<lambda>fs. Ok (f # fs)))"

text \<open>The arms of REQ and COUNT, which differ in their name only.\<close>

definition parse_request :: "wire_env \<Rightarrow> string \<Rightarrow> json list \<Rightarrow> (string \<times> nostr_filter list, relay_error) result" where
  "parse_request W name arr =
     (if length arr < 2 then Err (InvalidMessage (name @ '' requires sub_id''))
      else and_then (ok_or (as_str (arr ! 1)) (InvalidMessage (name @ '' sub_id must be a string''))) (\<lambda>sub_id.
        if sub_id = [] then Err (InvalidMessage (name @ '' sub_id must not be empty''))
        else if length sub_id > MAX_SUB_ID_LENGTH
        then Err (InvalidMessage (name @ '' sub_id exceeds maximum length of '' @ show_nat MAX_SUB_ID_LENGTH @ '' bytes''))
        else
          (let filter_values = drop 2 arr
           in if length filter_values > MAX_FILTERS_PER_REQ
              then Err (InvalidMessage (name @ '' contains '' @ show_nat (length filter_values) @ '' filters, maximum is '' @
                          show_nat MAX_FILTERS_PER_REQ))
              else and_then (collect_filters W filter_values) (\<lambda>filters. Ok (sub_id, filters)))))"

text \<open>The match on the message type.\<close>

definition parse_typed :: "wire_env \<Rightarrow> string \<Rightarrow> json list \<Rightarrow> (client_message, relay_error) result" where
  "parse_typed W msg_type arr =
     (if msg_type = ''EVENT'' then
        (if length arr < 2 then Err (InvalidMessage ''EVENT requires event object'')
         else and_then (map_err (\<lambda>e. InvalidMessage (''invalid event: '' @ e)) (we_event W (arr ! 1))) (\<lambda>ev. Ok (EventMsg ev)))
      else if msg_type = ''REQ'' then
        and_then (parse_request W ''REQ'' arr) (\<lambda>(sub_id, filters). Ok (ReqMsg sub_id filters))
      else if msg_type = ''COUNT'' then
        and_then (parse_request W ''COUNT'' arr) (\<lambda>(sub_id, filters). Ok (CountMsg sub_id filters))
      else if msg_type = ''CLOSE'' then
        (if length arr < 2 then Err (InvalidMessage ''CLOSE requires sub_id'')
         else and_then (ok_or (as_str (arr ! 1)) (InvalidMessage ''CLOSE sub_id must be a string'')) (\<lambda>sub_id. Ok (CloseMsg sub_id)))
      else if msg_type = ''AUTH'' then
        (if length arr < 2 then Err (InvalidMessage ''AUTH requires event object'')
         else and_then (map_err (\<lambda>e. InvalidMessage (''invalid auth event: '' @ e)) (we_event W (arr ! 1))) (\<lambda>ev. Ok (AuthMsg ev)))
      else Err (InvalidMessage (''unknown message type: '' @ msg_type)))"

definition client_message_parse :: "wire_env \<Rightarrow> string \<Rightarrow> (client_message, relay_error) result" where
  "client_message_parse W raw =
     and_then (map_err (\<lambda>e. InvalidMessage (''JSON parse error: '' @ e)) (we_json W raw)) (\<lambda>value.
     and_then (ok_or (as_array value) (InvalidMessage ''expected JSON array'')) (\<lambda>arr.
       if arr = [] then Err (InvalidMessage ''empty array'')
       else and_then (ok_or (as_str (arr ! 0)) (InvalidMessage ''first element must be a string'')) (\<lambda>msg_type.
         parse_typed W msg_type arr)))"

section \<open>Properties\<close>

lemma result_simps [simp]:
  "ok_or (Some a) e = Ok a" "ok_or None e = Err e" "map_err f (Inl x) = Inl (f x)" "map_err f (Inr a) = Inr a"
  by (simp_all add: ok_or_def map_err_def)

lemma ok_or_Inr: "ok_or v e = Ok a \<longleftrightarrow> v = Some a"
  by (cases v) simp_all

lemma map_err_Inr: "map_err f r = Ok a \<longleftrightarrow> r = Ok a"
  by (cases r) simp_all

lemma collect_filters_iff:
  "collect_filters W vs = Ok fs \<longleftrightarrow> list_all2 (\<lambda>v f. we_filter W v = Ok f) vs fs"
proof (induction vs arbitrary: fs)
  case (Cons v vs)
  then show ?case by (cases fs) (auto simp: and_then_Inr map_err_Inr)
qed auto

lemma as_str_Some [simp]: "as_str v = Some s \<longleftrightarrow> v = JString s"
  by (cases v) simp_all

lemma as_array_Some [simp]: "as_array v = Some a \<longleftrightarrow> v = JArray a"
  by (cases v) simp_all

text \<open>The elements after the type: a subscription id within its limits and at most ten filters.\<close>

definition request_form :: "wire_env \<Rightarrow> json list \<Rightarrow> string \<Rightarrow> nostr_filter list \<Rightarrow> bool" where
  "request_form W rest sub fs \<longleftrightarrow>
     (\<exists>vs. rest = JString sub # vs \<and> sub \<noteq> [] \<and> length sub \<le> 256 \<and> length vs \<le> 10 \<and>
        list_all2 (\<lambda>v f. we_filter W v = Ok f) vs fs)"

lemma parse_request_iff:
  "parse_request W name (head # rest) = Ok (sub, fs) \<longleftrightarrow> request_form W rest sub fs"
proof (cases rest)
  case (Cons v vs)
  then show ?thesis
    by (cases v)
      (auto simp: parse_request_def request_form_def and_then_Inr collect_filters_iff Let_def MAX_SUB_ID_LENGTH_def
        MAX_FILTERS_PER_REQ_def)
qed (simp add: parse_request_def request_form_def)

lemma parse_typed_iff:
  "parse_typed W name (head # rest) = Ok m \<longleftrightarrow>
     (case m of
        EventMsg ev \<Rightarrow> name = ''EVENT'' \<and> (\<exists>v vs. rest = v # vs \<and> we_event W v = Ok ev)
      | AuthMsg ev \<Rightarrow> name = ''AUTH'' \<and> (\<exists>v vs. rest = v # vs \<and> we_event W v = Ok ev)
      | CloseMsg sub \<Rightarrow> name = ''CLOSE'' \<and> (\<exists>vs. rest = JString sub # vs)
      | ReqMsg sub fs \<Rightarrow> name = ''REQ'' \<and> request_form W rest sub fs
      | CountMsg sub fs \<Rightarrow> name = ''COUNT'' \<and> request_form W rest sub fs)"
proof -
  consider "name = ''EVENT''" | "name = ''REQ''" | "name = ''COUNT''" | "name = ''CLOSE''" | "name = ''AUTH''"
    | "name \<notin> {''EVENT'', ''REQ'', ''COUNT'', ''CLOSE'', ''AUTH''}" by auto
  then show ?thesis
    by cases (cases rest; auto simp: parse_typed_def and_then_Inr map_err_Inr ok_or_Inr parse_request_iff
      split: client_message.split)+
qed

text \<open>
  C26: A client message is parsed exactly when it has the form of the protocol and respects the
  advertised limits: REQ and COUNT carry a subscription id of 1 to 256 bytes and at most ten
  filters, all of them valid; EVENT and AUTH a valid event; CLOSE any text. Elements beyond
  these are ignored.
\<close>

theorem client_message_exact:
  "client_message_parse W raw = Ok m \<longleftrightarrow>
     (\<exists>name rest. we_json W raw = Ok (JArray (JString name # rest)) \<and>
       (case m of
          EventMsg ev \<Rightarrow> name = ''EVENT'' \<and> (\<exists>v vs. rest = v # vs \<and> we_event W v = Ok ev)
        | AuthMsg ev \<Rightarrow> name = ''AUTH'' \<and> (\<exists>v vs. rest = v # vs \<and> we_event W v = Ok ev)
        | CloseMsg sub \<Rightarrow> name = ''CLOSE'' \<and> (\<exists>vs. rest = JString sub # vs)
        | ReqMsg sub fs \<Rightarrow> name = ''REQ'' \<and> request_form W rest sub fs
        | CountMsg sub fs \<Rightarrow> name = ''COUNT'' \<and> request_form W rest sub fs))"
proof -
  have "client_message_parse W raw = Ok m \<longleftrightarrow>
      (\<exists>name rest. we_json W raw = Ok (JArray (JString name # rest)) \<and> parse_typed W name (JString name # rest) = Ok m)"
  proof (cases "\<exists>name rest. we_json W raw = Ok (JArray (JString name # rest))")
    case True
    then show ?thesis by (auto simp: client_message_parse_def)
  next
    case False
    then show ?thesis
      by (auto simp: client_message_parse_def and_then_Inr map_err_Inr ok_or_Inr neq_Nil_conv split: if_splits)
  qed
  then show ?thesis by (simp only: parse_typed_iff)
qed

end
