(* ===== verification/Auth.thy ===== *)
theory Auth
  imports Attestation Protocol Connections Kinds
begin

text \<open>
  Authentication and authorization (\<open>crates/buzz-auth\<close>: scopes, access checks, NIP-42 and
  NIP-98 verification) and the relay's side of it: the membership gate of
  \<open>buzz-relay/src/api/mod.rs\<close>, the AUTH handler \<open>handlers/auth.rs\<close> and the state a connection
  keeps (\<open>connection.rs\<close>).

  Signature verification, the URL parser, SHA-256, JSON and the answers of the database are
  the records \<open>auth_env\<close> and \<open>gate_env\<close>; the clock is an argument. A URL is what the code
  reads and writes of it: host, path, and the rest.
\<close>

section \<open>Scopes\<close>

datatype auth_scope =
    MessagesRead | MessagesWrite | ChannelsRead | ChannelsWrite | AdminChannels | UsersRead | UsersWrite | AdminUsers
  | JobsRead | JobsWrite | SubscriptionsRead | SubscriptionsWrite | FilesRead | FilesWrite | ReposRead | ReposWrite
  | Unknown string

definition all_known :: "auth_scope list" where
  "all_known =
     [MessagesRead, MessagesWrite, ChannelsRead, ChannelsWrite, AdminChannels, UsersRead, UsersWrite, AdminUsers,
      JobsRead, JobsWrite, SubscriptionsRead, SubscriptionsWrite, FilesRead, FilesWrite, ReposRead, ReposWrite]"

definition all_non_admin :: "auth_scope list" where
  "all_non_admin =
     [MessagesRead, MessagesWrite, ChannelsRead, ChannelsWrite, UsersRead, UsersWrite,
      JobsRead, JobsWrite, SubscriptionsRead, SubscriptionsWrite, FilesRead, FilesWrite, ReposRead, ReposWrite]"

fun scope_as_str :: "auth_scope \<Rightarrow> string" where
  "scope_as_str MessagesRead = ''messages:read''"
| "scope_as_str MessagesWrite = ''messages:write''"
| "scope_as_str ChannelsRead = ''channels:read''"
| "scope_as_str ChannelsWrite = ''channels:write''"
| "scope_as_str AdminChannels = ''admin:channels''"
| "scope_as_str UsersRead = ''users:read''"
| "scope_as_str UsersWrite = ''users:write''"
| "scope_as_str AdminUsers = ''admin:users''"
| "scope_as_str JobsRead = ''jobs:read''"
| "scope_as_str JobsWrite = ''jobs:write''"
| "scope_as_str SubscriptionsRead = ''subscriptions:read''"
| "scope_as_str SubscriptionsWrite = ''subscriptions:write''"
| "scope_as_str FilesRead = ''files:read''"
| "scope_as_str FilesWrite = ''files:write''"
| "scope_as_str ReposRead = ''repos:read''"
| "scope_as_str ReposWrite = ''repos:write''"
| "scope_as_str (Unknown s) = s"

definition scope_from_str :: "string \<Rightarrow> auth_scope" where
  "scope_from_str s =
     (if s = ''messages:read'' then MessagesRead
      else if s = ''messages:write'' then MessagesWrite
      else if s = ''channels:read'' then ChannelsRead
      else if s = ''channels:write'' then ChannelsWrite
      else if s = ''admin:channels'' then AdminChannels
      else if s = ''users:read'' then UsersRead
      else if s = ''users:write'' then UsersWrite
      else if s = ''admin:users'' then AdminUsers
      else if s = ''jobs:read'' then JobsRead
      else if s = ''jobs:write'' then JobsWrite
      else if s = ''subscriptions:read'' then SubscriptionsRead
      else if s = ''subscriptions:write'' then SubscriptionsWrite
      else if s = ''files:read'' then FilesRead
      else if s = ''files:write'' then FilesWrite
      else if s = ''repos:read'' then ReposRead
      else if s = ''repos:write'' then ReposWrite
      else Unknown s)"

definition parse_scopes :: "string list \<Rightarrow> auth_scope list" where
  "parse_scopes raw = map scope_from_str raw"

section \<open>Errors and access checks\<close>

datatype auth_error =
    InvalidSignature | ChallengeMismatch | RelayUrlMismatch | EventExpired | Nip98Invalid string | Nip98Replay
  | PubkeyMismatch | InsufficientScope string "string list" | ChannelAccessDenied | Internal string

definition require_scope :: "auth_scope list \<Rightarrow> auth_scope \<Rightarrow> (unit, auth_error) result" where
  "require_scope scopes required =
     (if required \<in> set scopes then Ok ()
      else Err (InsufficientScope (scope_as_str required) (map scope_as_str scopes)))"

text \<open>The default method of \<open>ChannelAccessChecker\<close>; \<open>accessible_channel_ids\<close> is the implementor's.\<close>

definition can_access ::
  "(uuid \<Rightarrow> pubkey \<Rightarrow> (uuid list, auth_error) result) \<Rightarrow> uuid \<Rightarrow> pubkey \<Rightarrow> uuid \<Rightarrow> (bool, auth_error) result" where
  "can_access accessible_channel_ids com pk ch =
     and_then (accessible_channel_ids com pk) (\<lambda>ids. Ok (ch \<in> set ids))"

definition check_access ::
  "auth_scope \<Rightarrow> (uuid \<Rightarrow> pubkey \<Rightarrow> uuid \<Rightarrow> (bool, auth_error) result) \<Rightarrow> uuid \<Rightarrow> pubkey \<Rightarrow> uuid \<Rightarrow> auth_scope list
     \<Rightarrow> (unit, auth_error) result" where
  "check_access required checker com pk ch scopes =
     and_then (require_scope scopes required) (\<lambda>_.
       and_then (checker com pk ch) (\<lambda>allowed. if allowed then Ok () else Err ChannelAccessDenied))"

definition check_read_access ::
  "(uuid \<Rightarrow> pubkey \<Rightarrow> uuid \<Rightarrow> (bool, auth_error) result) \<Rightarrow> uuid \<Rightarrow> pubkey \<Rightarrow> uuid \<Rightarrow> auth_scope list
     \<Rightarrow> (unit, auth_error) result" where
  "check_read_access = check_access MessagesRead"

definition check_write_access ::
  "(uuid \<Rightarrow> pubkey \<Rightarrow> uuid \<Rightarrow> (bool, auth_error) result) \<Rightarrow> uuid \<Rightarrow> pubkey \<Rightarrow> uuid \<Rightarrow> auth_scope list
     \<Rightarrow> (unit, auth_error) result" where
  "check_write_access = check_access MessagesWrite"

datatype auth_method = Nip42 | Nip98

record auth_context =
  ac_pubkey :: pubkey
  ac_scopes :: "auth_scope list"
  ac_channel_ids :: "uuid list option"
  ac_auth_method :: auth_method
  ac_agent_owner_pubkey :: "pubkey option"

definition has_scope :: "auth_context \<Rightarrow> auth_scope \<Rightarrow> bool" where
  "has_scope ctx s = (s \<in> set (ac_scopes ctx))"

section \<open>NIP-42\<close>

record url =
  u_host :: "string option"
  u_path :: string
  u_rest :: string

record auth_env =
  ae_compute_id :: "event \<Rightarrow> event_id"
  ae_verify_signature :: "event \<Rightarrow> bool"
  ae_url_parse :: "string \<Rightarrow> url option"
  ae_url_text :: "url \<Rightarrow> string"
  ae_to_lowercase :: "string \<Rightarrow> string"
  ae_event_from_json :: "string \<Rightarrow> (event, string) result"
  ae_sha256_hex :: "u8 list \<Rightarrow> string"

text \<open>\<open>buzz-core/src/verification.rs\<close>: the id is the hash of the content, and signed.\<close>

datatype verification_error = InvalidId event_id event_id | BadSignature

definition verify_event :: "auth_env \<Rightarrow> event \<Rightarrow> (unit, verification_error) result" where
  "verify_event A ev =
     (if ae_compute_id A ev \<noteq> ev_id ev then Err (InvalidId (ae_compute_id A ev) (ev_id ev))
      else if \<not> ae_verify_signature A ev then Err BadSignature
      else Ok ())"

text \<open>\<open>trim_end_matches('/')\<close>.\<close>

definition trim_slashes :: "string \<Rightarrow> string" where
  "trim_slashes s = rev (dropWhile (\<lambda>c. c = CHR ''/'') (rev s))"

definition normalize_relay_url :: "auth_env \<Rightarrow> string \<Rightarrow> string" where
  "normalize_relay_url A raw =
     (case ae_url_parse A raw of
        None \<Rightarrow> raw
      | Some parsed \<Rightarrow>
          (let parsed = (case u_host parsed of
                 Some host \<Rightarrow> if host = ''localhost'' \<or> host = ''::1'' then parsed\<lparr>u_host := Some ''127.0.0.1''\<rparr> else parsed
               | None \<Rightarrow> parsed)
           in ae_url_text A (parsed\<lparr>u_path := trim_slashes (u_path parsed)\<rparr>)))"

definition TIMESTAMP_TOLERANCE_SECS :: nat where
  "TIMESTAMP_TOLERANCE_SECS = 60"

text \<open>\<open>u64::abs_diff\<close>.\<close>

definition abs_diff :: "u64 \<Rightarrow> u64 \<Rightarrow> nat" where
  "abs_diff a b = (if a \<ge> b then unat a - unat b else unat b - unat a)"

text \<open>\<open>tags.find(kind).and_then(content)\<close>.\<close>

definition find_tag_content :: "event \<Rightarrow> string \<Rightarrow> string option" where
  "find_tag_content ev kind =
     (case filter (\<lambda>t. tag_kind t = kind) (ev_tags ev) of [] \<Rightarrow> None | t # _ \<Rightarrow> tag_content t)"

definition verify_nip42_event ::
  "auth_env \<Rightarrow> u64 \<Rightarrow> event \<Rightarrow> string \<Rightarrow> string \<Rightarrow> (unit, auth_error) result" where
  "verify_nip42_event A now ev expected_challenge relay_url =
     (if ev_kind ev \<noteq> 22242 then Err InvalidSignature
      else if \<not> is_ok (verify_event A ev) then Err InvalidSignature
      else and_then (ok_or (find_tag_content ev ''challenge'') ChallengeMismatch) (\<lambda>challenge.
        if challenge \<noteq> expected_challenge then Err ChallengeMismatch
        else and_then (ok_or (find_tag_content ev ''relay'') RelayUrlMismatch) (\<lambda>relay.
          if normalize_relay_url A relay \<noteq> normalize_relay_url A relay_url then Err RelayUrlMismatch
          else if abs_diff now (ev_created_at ev) > TIMESTAMP_TOLERANCE_SECS then Err EventExpired
          else Ok ())))"

definition verify_auth_event ::
  "auth_env \<Rightarrow> u64 \<Rightarrow> event \<Rightarrow> string \<Rightarrow> string \<Rightarrow> (auth_context, auth_error) result" where
  "verify_auth_event A now ev expected_challenge relay_url =
     and_then (verify_nip42_event A now ev expected_challenge relay_url) (\<lambda>_.
       Ok \<lparr>ac_pubkey = ev_pubkey ev, ac_scopes = all_known, ac_channel_ids = None, ac_auth_method = Nip42,
           ac_agent_owner_pubkey = None\<rparr>)"

section \<open>NIP-98\<close>

definition normalize_url :: "auth_env \<Rightarrow> string \<Rightarrow> string" where
  "normalize_url A raw =
     (case ae_url_parse A raw of
        None \<Rightarrow> ae_to_lowercase A raw
      | Some parsed \<Rightarrow> ae_url_text A (parsed\<lparr>u_path := trim_slashes (u_path parsed)\<rparr>))"

definition verify_nip98_event ::
  "auth_env \<Rightarrow> u64 \<Rightarrow> string \<Rightarrow> string \<Rightarrow> string \<Rightarrow> u8 list option \<Rightarrow> (pubkey, auth_error) result" where
  "verify_nip98_event A now event_json expected_url expected_method body =
     and_then (map_err (\<lambda>e. Nip98Invalid (''event JSON parse error: '' @ e)) (ae_event_from_json A event_json)) (\<lambda>ev.
       if ev_kind ev \<noteq> 27235 then Err (Nip98Invalid (''expected kind 27235, got '' @ show_nat (unat (ev_kind ev))))
       else if \<not> is_ok (verify_event A ev) then Err (Nip98Invalid ''invalid Schnorr signature'')
       else if abs_diff now (ev_created_at ev) > TIMESTAMP_TOLERANCE_SECS
       then Err (Nip98Invalid (''event timestamp outside '' @ map char_of [194, 177 :: nat] @
                    show_nat TIMESTAMP_TOLERANCE_SECS @ ''s window (delta: '' @ show_nat (abs_diff now (ev_created_at ev)) @ ''s)''))
       else and_then (ok_or (find_tag_content ev ''u'') (Nip98Invalid ''missing `u` tag'')) (\<lambda>u_tag.
         if normalize_url A u_tag \<noteq> normalize_url A expected_url
         then Err (Nip98Invalid (''URL mismatch: event has `'' @ u_tag @ ''`, expected `'' @ expected_url @ ''`''))
         else and_then (ok_or (find_tag_content ev ''method'') (Nip98Invalid ''missing `method` tag'')) (\<lambda>method_tag.
           if \<not> eq_ignore_ascii_case method_tag expected_method
           then Err (Nip98Invalid (''method mismatch: event has `'' @ method_tag @ ''`, expected `'' @ expected_method @ ''`''))
           else (case (find_tag_content ev ''payload'', body) of
                   (Some payload_hex, Some body_bytes) \<Rightarrow>
                     if ae_sha256_hex A body_bytes \<noteq> payload_hex
                     then Err (Nip98Invalid ''payload tag SHA-256 mismatch: request body does not match signed hash'')
                     else Ok (ev_pubkey ev)
                 | _ \<Rightarrow> Ok (ev_pubkey ev)))))"

section \<open>Relay membership\<close>

record gate_config =
  gc_relay_url :: string
  gc_require_relay_membership :: bool
  gc_allow_nip_oa_auth :: bool
  gc_pubkey_allowlist_enabled :: bool

record gate_env =
  ge_oa :: oa_env
  ge_is_relay_member :: "uuid \<Rightarrow> pubkey \<Rightarrow> (bool, string) result"
  ge_banned :: "uuid \<Rightarrow> pubkey \<Rightarrow> (bool, string) result"
  ge_is_pubkey_allowed :: "uuid \<Rightarrow> pubkey \<Rightarrow> (bool, string) result"
  ge_ensure_user :: "uuid \<Rightarrow> pubkey \<Rightarrow> (bool, string) result"
  ge_set_agent_owner :: "uuid \<Rightarrow> pubkey \<Rightarrow> pubkey \<Rightarrow> (bool, string) result"
  ge_is_agent_owner :: "uuid \<Rightarrow> pubkey \<Rightarrow> pubkey \<Rightarrow> (bool, string) result"

datatype membership_decision = OpenRelay | Member | ViaOwner pubkey | Denied

definition check_relay_membership ::
  "gate_config \<Rightarrow> gate_env \<Rightarrow> uuid \<Rightarrow> pubkey \<Rightarrow> string option \<Rightarrow> (membership_decision, string) result" where
  "check_relay_membership cfg G com pk auth_tag =
     (if \<not> gc_require_relay_membership cfg then Ok OpenRelay
      else and_then (map_err (\<lambda>e. ''relay membership check failed: '' @ e) (ge_is_relay_member G com pk)) (\<lambda>is_member.
        if is_member then Ok Member
        else (case auth_tag of
                Some tag_json \<Rightarrow>
                  if gc_allow_nip_oa_auth cfg then
                    (case verify_auth_tag (ge_oa G) tag_json pk of
                       Inr owner \<Rightarrow>
                         and_then (map_err (\<lambda>e. ''relay membership check (owner) failed: '' @ e) (ge_is_relay_member G com owner))
                           (\<lambda>owner_is_member. Ok (if owner_is_member then ViaOwner owner else Denied))
                     | Inl _ \<Rightarrow> Ok Denied)
                  else Ok Denied
              | None \<Rightarrow> Ok Denied)))"

datatype gate_refusal = MembershipRequired | InternalError string

definition enforce_relay_membership ::
  "gate_config \<Rightarrow> gate_env \<Rightarrow> uuid \<Rightarrow> pubkey \<Rightarrow> string option \<Rightarrow> (pubkey option, gate_refusal) result" where
  "enforce_relay_membership cfg G com pk auth_tag =
     (case check_relay_membership cfg G com pk auth_tag of
        Inr OpenRelay \<Rightarrow> Ok None
      | Inr Member \<Rightarrow> Ok None
      | Inr (ViaOwner owner) \<Rightarrow> Ok (Some owner)
      | Inr Denied \<Rightarrow> Err MembershipRequired
      | Inl e \<Rightarrow> Err (InternalError e))"

definition extract_nip_oa_owner :: "gate_env \<Rightarrow> pubkey \<Rightarrow> string option \<Rightarrow> pubkey option" where
  "extract_nip_oa_owner G pk auth_tag =
     (case auth_tag of
        None \<Rightarrow> None
      | Some tag_json \<Rightarrow> (case verify_auth_tag (ge_oa G) tag_json pk of Inr owner \<Rightarrow> Some owner | Inl _ \<Rightarrow> None))"

text \<open>The result of the call; the two caches it fills only speed up later lookups.\<close>

definition materialize_nip_oa_owner :: "gate_env \<Rightarrow> uuid \<Rightarrow> pubkey \<Rightarrow> pubkey \<Rightarrow> bool" where
  "materialize_nip_oa_owner G com agent owner =
     (is_ok (ge_ensure_user G com agent) \<and> is_ok (ge_ensure_user G com owner) \<and>
      (case ge_set_agent_owner G com agent owner of
         Inr True \<Rightarrow> True
       | Inr False \<Rightarrow> (case ge_is_agent_owner G com agent owner of Inr b \<Rightarrow> b | Inl _ \<Rightarrow> False)
       | Inl _ \<Rightarrow> False))"

section \<open>The AUTH handler\<close>

datatype auth_state = Pending string | Authenticated auth_context | Failed

text \<open>What the handlers read and write of \<open>ConnectionState\<close>; its channels are in the manager's entry.\<close>

record connection_state =
  cs_conn_id :: uuid
  cs_community :: uuid
  cs_host :: string
  cs_auth_state :: auth_state

definition nip42_expected_relay_url :: "string \<Rightarrow> string \<Rightarrow> string" where
  "nip42_expected_relay_url config_relay_url host =
     (let trimmed = dropWhile (\<lambda>c. is_ascii_whitespace c \<or> (of_char c :: nat) = 11) config_relay_url
      in (if prefix ''wss://'' trimmed then ''wss'' else ''ws'') @ ''://'' @ host)"

definition extract_auth_tag_json :: "gate_env \<Rightarrow> event \<Rightarrow> string option" where
  "extract_auth_tag_json G ev =
     (case filter (\<lambda>t. tag_slice t \<noteq> [] \<and> hd (tag_slice t) = ''auth'') (ev_tags ev) of
        [t] \<Rightarrow> Some (oa_json_text (ge_oa G) (JArray (map JString (tag_slice t))))
      | _ \<Rightarrow> None)"

datatype ban_outcome = BanClear | Banned | BanDbError

definition ban_lookup :: "gate_env \<Rightarrow> uuid \<Rightarrow> pubkey \<Rightarrow> ban_outcome" where
  "ban_lookup G com pk =
     (case ge_banned G com pk of Inr True \<Rightarrow> Banned | Inr False \<Rightarrow> BanClear | Inl _ \<Rightarrow> BanDbError)"

definition ban_gate :: "gate_env \<Rightarrow> uuid \<Rightarrow> pubkey \<Rightarrow> string option \<Rightarrow> ban_outcome" where
  "ban_gate G com pk auth_tag =
     (case ban_lookup G com pk of
        BanClear \<Rightarrow> (case extract_nip_oa_owner G pk auth_tag of Some owner \<Rightarrow> ban_lookup G com owner | None \<Rightarrow> BanClear)
      | outcome \<Rightarrow> outcome)"

definition ban_denial :: "ban_outcome \<Rightarrow> string option" where
  "ban_denial outcome =
     (case outcome of
        BanClear \<Rightarrow> None
      | Banned \<Rightarrow> Some ''blocked: you are banned from this community''
      | BanDbError \<Rightarrow> Some ''error: internal error checking restriction state'')"

text \<open>The reason on the control channel, then the cancellation.\<close>

definition close_with :: "try_send \<Rightarrow> uuid \<Rightarrow> string \<Rightarrow> conn_manager \<Rightarrow> conn_manager" where
  "close_with out conn_id frame cm =
     (case map_of (connections cm) conn_id of
        None \<Rightarrow> cm
      | Some e \<Rightarrow> cm\<lparr>connections := hm_insert conn_id (cancel_entry (queue_ctrl out (Text frame) e)) (connections cm)\<rparr>)"

definition allowlist_ok :: "gate_config \<Rightarrow> gate_env \<Rightarrow> uuid \<Rightarrow> auth_context \<Rightarrow> bool" where
  "allowlist_ok cfg G com ctx =
     (if gc_pubkey_allowlist_enabled cfg \<and> ac_auth_method ctx = Nip42
      then (case ge_is_pubkey_allowed G com (ac_pubkey ctx) of Inr v \<Rightarrow> v | Inl _ \<Rightarrow> False)
      else True)"

definition handle_auth ::
  "auth_env \<Rightarrow> wire_env \<Rightarrow> gate_config \<Rightarrow> gate_env \<Rightarrow> u64 \<Rightarrow> try_send \<Rightarrow> event \<Rightarrow> connection_state \<Rightarrow> conn_manager
     \<Rightarrow> connection_state \<times> conn_manager" where
  "handle_auth A W cfg G now out ev conn cm =
     (let reply = (\<lambda>accepted reason cm. snd (send_to out (cs_conn_id conn) (we_text W (OkResult (ev_id ev) accepted reason)) cm));
          com = cs_community conn;
          fail = conn\<lparr>cs_auth_state := Failed\<rparr>
      in case cs_auth_state conn of
           Authenticated _ \<Rightarrow> (conn, reply False ''auth-required: already authenticated'' cm)
         | Failed \<Rightarrow> (conn, reply False ''auth-required: authentication already failed'' cm)
         | Pending challenge \<Rightarrow>
             (let auth_tag = extract_auth_tag_json G ev;
                  relay_url = nip42_expected_relay_url (gc_relay_url cfg) (cs_host conn)
              in case verify_auth_event A now ev challenge relay_url of
                   Inl _ \<Rightarrow> (fail, reply False ''auth-required: verification failed'' cm)
                 | Inr ctx \<Rightarrow>
                     (let pk = ac_pubkey ctx
                      in case ban_denial (ban_gate G com pk auth_tag) of
                           Some reason \<Rightarrow> (fail, close_with out (cs_conn_id conn) (we_text W (OkResult (ev_id ev) False reason)) cm)
                         | None \<Rightarrow>
                             if \<not> allowlist_ok cfg G com ctx
                             then (fail, reply False ''auth-required: verification failed'' cm)
                             else (case enforce_relay_membership cfg G com pk auth_tag of
                                     Inl _ \<Rightarrow> (fail, reply False ''restricted: not a relay member'' cm)
                                   | Inr owner \<Rightarrow>
                                       (let owner = or_option owner
                                              (if \<not> gc_require_relay_membership cfg \<and> auth_tag \<noteq> None
                                               then extract_nip_oa_owner G pk auth_tag else None);
                                            ctx = (case owner of
                                                     Some o' \<Rightarrow> if materialize_nip_oa_owner G com pk o'
                                                                then ctx\<lparr>ac_agent_owner_pubkey := Some o'\<rparr> else ctx
                                                   | None \<Rightarrow> ctx)
                                        in (conn\<lparr>cs_auth_state := Authenticated ctx\<rparr>,
                                            reply True '''' (set_authenticated_pubkey (cs_conn_id conn) pk cm)))))))"

text \<open>The task that fires after \<open>AUTH_TIMEOUT\<close>.\<close>

definition auth_timeout :: "connection_state \<Rightarrow> conn_manager \<Rightarrow> conn_manager" where
  "auth_timeout conn cm =
     (case cs_auth_state conn of
        Authenticated _ \<Rightarrow> cm
      | _ \<Rightarrow> (case map_of (connections cm) (cs_conn_id conn) of
                None \<Rightarrow> cm
              | Some e \<Rightarrow> cm\<lparr>connections := hm_insert (cs_conn_id conn) (cancel_entry e) (connections cm)\<rparr>))"

end
