(* ===== verification/Admission.thy ===== *)
theory Admission
  imports Auth
begin

text \<open>
  Admission of requests: the shared rate limiter (\<open>buzz-auth/src/rate_limit.rs\<close>,
  \<open>buzz-pubsub/src/rate_limiter.rs\<close>), the seen-set of HTTP authorization events
  (\<open>nip98_replay.rs\<close> of both crates), and the relay's use of them (\<open>buzz-relay/src/admission.rs\<close>,
  the gates of \<open>connection.rs\<close>, \<open>api/bridge.rs\<close> and \<open>api/operator.rs\<close>).

  Redis is a service: its commands are the record \<open>redis\<close>, over a database of any type, each
  at the millisecond the server runs it. A script runs as one command. Whether the pool and
  the server answer is an argument, and a command may run although its answer is lost.
\<close>

section \<open>Redis\<close>

record 'db redis =
  rd_incr :: "nat \<Rightarrow> string \<Rightarrow> 'db \<Rightarrow> nat \<times> 'db"
  rd_expire :: "nat \<Rightarrow> string \<Rightarrow> int \<Rightarrow> 'db \<Rightarrow> 'db"
  rd_ttl :: "nat \<Rightarrow> string \<Rightarrow> 'db \<Rightarrow> int"
  rd_set_nx_ex :: "nat \<Rightarrow> string \<Rightarrow> string \<Rightarrow> nat \<Rightarrow> 'db \<Rightarrow> string option \<times> 'db"

datatype redis_outcome = Answered | PoolFailed string | CommandFailed string bool

text \<open>Time and outcome of one use of the service; the second outcome is the repair's.\<close>

record redis_use =
  ru_now :: nat
  ru_outcome :: redis_outcome
  ru_repair :: redis_outcome

section \<open>Rate limits\<close>

record rate_limit_result =
  rl_allowed :: bool
  rl_current :: nat
  rl_limit :: nat
  rl_reset_in_secs :: nat

definition rate_limit_allowed :: "nat \<Rightarrow> nat \<Rightarrow> nat \<Rightarrow> rate_limit_result" where
  "rate_limit_allowed current limit reset =
     \<lparr>rl_allowed = True, rl_current = current, rl_limit = limit, rl_reset_in_secs = reset\<rparr>"

definition rate_limit_denied :: "nat \<Rightarrow> nat \<Rightarrow> nat \<Rightarrow> rate_limit_result" where
  "rate_limit_denied current limit reset =
     \<lparr>rl_allowed = False, rl_current = current, rl_limit = limit, rl_reset_in_secs = reset\<rparr>"

datatype limit_type = Messages | ApiCalls | WsEvents | IpConnections

fun key_suffix :: "limit_type \<Rightarrow> string" where
  "key_suffix Messages = ''msg''"
| "key_suffix ApiCalls = ''api''"
| "key_suffix WsEvents = ''ws''"
| "key_suffix IpConnections = ''conn''"

record rate_limit_config =
  human_messages_per_min :: nat
  human_api_calls_per_min :: nat
  human_ws_events_per_sec :: nat
  agent_standard_messages_per_min :: nat
  agent_standard_api_calls_per_min :: nat
  agent_elevated_messages_per_min :: nat
  agent_platform_messages_per_min :: nat

definition rate_limit_config_default :: rate_limit_config where
  "rate_limit_config_default =
     \<lparr>human_messages_per_min = 60, human_api_calls_per_min = 300, human_ws_events_per_sec = 10,
      agent_standard_messages_per_min = 120, agent_standard_api_calls_per_min = 600,
      agent_elevated_messages_per_min = 300, agent_platform_messages_per_min = 600\<rparr>"

definition rate_limit_key :: "uuid \<Rightarrow> pubkey \<Rightarrow> limit_type \<Rightarrow> string" where
  "rate_limit_key com pk limit_type = ''buzz:'' @ com @ '':ratelimit:'' @ pk @ '':'' @ key_suffix limit_type"

definition ip_rate_limit_key :: "string \<Rightarrow> string" where
  "ip_rate_limit_key ip = ''buzz:ratelimit:ip:'' @ ip @ '':conn''"

text \<open>\<open>as i64\<close> on an unsigned 64-bit value.\<close>

definition as_i64 :: "nat \<Rightarrow> int" where
  "as_i64 n = sint (of_nat n :: u64)"

definition RATE_LIMIT_SCRIPT :: "'db redis \<Rightarrow> nat \<Rightarrow> string \<Rightarrow> int \<Rightarrow> 'db \<Rightarrow> (nat \<times> int) \<times> 'db" where
  "RATE_LIMIT_SCRIPT R now key arg db =
     (let (count, db) = rd_incr R now key db;
          db = (if count = 1 then rd_expire R now key arg db else db)
      in ((count, rd_ttl R now key db), db))"

definition run_rate_limit ::
  "'db redis \<Rightarrow> redis_use \<Rightarrow> string \<Rightarrow> nat \<Rightarrow> nat \<Rightarrow> 'db \<Rightarrow> (rate_limit_result, auth_error) result \<times> 'db" where
  "run_rate_limit R u key window_secs limit db =
     (case ru_outcome u of
        PoolFailed e \<Rightarrow> (Err (Internal (''Redis pool: '' @ e)), db)
      | CommandFailed e executed \<Rightarrow>
          (Err (Internal (''Redis rate limit script: '' @ e)),
           if executed then snd (RATE_LIMIT_SCRIPT R (ru_now u) key (as_i64 window_secs) db) else db)
      | Answered \<Rightarrow>
          (let ((count, ttl), db) = RATE_LIMIT_SCRIPT R (ru_now u) key (as_i64 window_secs) db;
               answer = (\<lambda>reset. Ok (if count \<le> limit then rate_limit_allowed count limit reset
                                     else rate_limit_denied count limit reset));
               repaired = rd_expire R (ru_now u) key (as_i64 window_secs) db
           in if ttl < 0 then
                (case ru_repair u of
                   Answered \<Rightarrow> (answer window_secs, repaired)
                 | PoolFailed e \<Rightarrow> (Err (Internal (''Redis EXPIRE repair: '' @ e)), db)
                 | CommandFailed e executed \<Rightarrow>
                     (Err (Internal (''Redis EXPIRE repair: '' @ e)), if executed then repaired else db))
              else (answer (nat ttl), db)))"

definition check_and_increment ::
  "'db redis \<Rightarrow> redis_use \<Rightarrow> uuid \<Rightarrow> pubkey \<Rightarrow> limit_type \<Rightarrow> nat \<Rightarrow> nat \<Rightarrow> 'db
     \<Rightarrow> (rate_limit_result, auth_error) result \<times> 'db" where
  "check_and_increment R u com pk limit_type window_secs limit db =
     run_rate_limit R u (rate_limit_key com pk limit_type) window_secs limit db"

definition check_ip_connection ::
  "'db redis \<Rightarrow> redis_use \<Rightarrow> string \<Rightarrow> nat \<Rightarrow> nat \<Rightarrow> 'db \<Rightarrow> (rate_limit_result, auth_error) result \<times> 'db" where
  "check_ip_connection R u ip window_secs limit db = run_rate_limit R u (ip_rate_limit_key ip) window_secs limit db"

section \<open>The seen-set\<close>

definition DEFAULT_REPLAY_TTL_SECS :: nat where
  "DEFAULT_REPLAY_TTL_SECS = 120"

definition MAX_REPLAY_TTL_SECS :: nat where
  "MAX_REPLAY_TTL_SECS = 3600"

definition nip98_replay_key_for_scope :: "string \<Rightarrow> event_id \<Rightarrow> string" where
  "nip98_replay_key_for_scope scope event_id = ''buzz:'' @ scope @ '':nip98:'' @ event_id"

definition nip98_replay_key :: "uuid \<Rightarrow> event_id \<Rightarrow> string" where
  "nip98_replay_key com event_id = nip98_replay_key_for_scope com event_id"

definition try_mark_in_scope ::
  "'db redis \<Rightarrow> redis_use \<Rightarrow> string \<Rightarrow> event_id \<Rightarrow> nat \<Rightarrow> 'db \<Rightarrow> (bool, auth_error) result \<times> 'db" where
  "try_mark_in_scope R u scope event_id ttl_secs db =
     (let ttl = min (max ttl_secs DEFAULT_REPLAY_TTL_SECS) MAX_REPLAY_TTL_SECS;
          key = nip98_replay_key_for_scope scope event_id;
          (reply, marked) = rd_set_nx_ex R (ru_now u) key ''1'' ttl db
      in case ru_outcome u of
           PoolFailed e \<Rightarrow> (Err (Internal (''Redis pool: '' @ e)), db)
         | CommandFailed e executed \<Rightarrow>
             (Err (Internal (''Redis SET NX EX: '' @ e)), if executed then marked else db)
         | Answered \<Rightarrow>
             (case reply of
                None \<Rightarrow> (Ok False, marked)
              | Some other \<Rightarrow>
                  if other = ''OK'' then (Ok True, marked)
                  else (Err (Internal (''unexpected SET NX EX reply: '' @ other)), marked)))"

definition try_mark ::
  "'db redis \<Rightarrow> redis_use \<Rightarrow> uuid \<Rightarrow> event_id \<Rightarrow> nat \<Rightarrow> 'db \<Rightarrow> (bool, auth_error) result \<times> 'db" where
  "try_mark R u com event_id ttl_secs db = try_mark_in_scope R u com event_id ttl_secs db"

section \<open>Admission in the relay\<close>

datatype admission_error = Exceeded nat | Unavailable

definition WS_BURST_WINDOW_SECS :: nat where
  "WS_BURST_WINDOW_SECS = 5"

definition check_principal ::
  "'db redis \<Rightarrow> redis_use \<Rightarrow> uuid \<Rightarrow> pubkey \<Rightarrow> limit_type \<Rightarrow> nat \<Rightarrow> nat \<Rightarrow> 'db \<Rightarrow> (unit, admission_error) result \<times> 'db" where
  "check_principal R u com pk limit_type window_secs limit db =
     (let (checked, db) = check_and_increment R u com pk limit_type window_secs limit db
      in (case checked of
            Inr result \<Rightarrow> if rl_allowed result then Ok () else Err (Exceeded (rl_reset_in_secs result))
          | Inl _ \<Rightarrow> Err Unavailable, db))"

text \<open>\<open>saturating_mul\<close> at 64 bits.\<close>

definition ws_admission_budget :: "nat \<Rightarrow> nat \<times> nat" where
  "ws_admission_budget per_second_limit =
     (WS_BURST_WINDOW_SECS, min (per_second_limit * WS_BURST_WINDOW_SECS) (2 ^ 64 - 1))"

definition request_rejection_message :: "wire_env \<Rightarrow> string option \<Rightarrow> string \<Rightarrow> string" where
  "request_rejection_message W sub_id reason =
     (case sub_id of Some sub_id \<Rightarrow> we_text W (ClosedSub sub_id reason) | None \<Rightarrow> we_text W (Notice reason))"

definition send_admission_result ::
  "wire_env \<Rightarrow> try_send \<Rightarrow> connection_state \<Rightarrow> (unit, admission_error) result \<Rightarrow> string option \<Rightarrow> conn_manager
     \<Rightarrow> bool \<times> conn_manager" where
  "send_admission_result W out conn result sub_id cm =
     (let reject = (\<lambda>reason. snd (send_to out (cs_conn_id conn) (request_rejection_message W sub_id reason) cm))
      in case result of
           Inr _ \<Rightarrow> (True, cm)
         | Inl (Exceeded reset) \<Rightarrow> (False, reject (''rate-limited: quota exceeded; retry in '' @ show_nat reset @ ''s''))
         | Inl Unavailable \<Rightarrow> (False, reject ''rate-limited: shared admission unavailable''))"

fun is_event_message :: "client_message \<Rightarrow> bool" where
  "is_event_message (EventMsg _) = True"
| "is_event_message _ = False"

fun is_request_message :: "client_message \<Rightarrow> bool" where
  "is_request_message (ReqMsg _ _) = True"
| "is_request_message (CountMsg _ _) = True"
| "is_request_message _ = False"

fun message_sub_id :: "client_message \<Rightarrow> string option" where
  "message_sub_id (ReqMsg sub_id _) = Some sub_id"
| "message_sub_id _ = None"

text \<open>The two uses of Redis are for the socket's budget and for the message budget.\<close>

definition enforce_ws_admission ::
  "'db redis \<Rightarrow> wire_env \<Rightarrow> rate_limit_config \<Rightarrow> redis_use \<Rightarrow> redis_use \<Rightarrow> try_send \<Rightarrow> client_message \<Rightarrow> connection_state
     \<Rightarrow> conn_manager \<Rightarrow> 'db \<Rightarrow> bool \<times> conn_manager \<times> 'db" where
  "enforce_ws_admission R W limits u u' out msg conn cm db =
     (if \<not> is_event_message msg \<and> \<not> is_request_message msg then (True, cm, db)
      else (case cs_auth_state conn of
              Authenticated ctx \<Rightarrow>
                (let (ws_window_secs, ws_limit) = ws_admission_budget (human_ws_events_per_sec limits);
                     (ws_result, db) = check_principal R u (cs_community conn) (ac_pubkey ctx) WsEvents ws_window_secs ws_limit db;
                     (ok, cm) = send_admission_result W out conn ws_result (message_sub_id msg) cm
                 in if \<not> ok then (False, cm, db)
                    else if is_event_message msg then
                      (let message_limit = (if ac_agent_owner_pubkey ctx \<noteq> None then agent_standard_messages_per_min limits
                                            else human_messages_per_min limits);
                           (message_result, db) = check_principal R u' (cs_community conn) (ac_pubkey ctx) Messages 60 message_limit db;
                           (ok, cm) = send_admission_result W out conn message_result None cm
                       in (ok, cm, db))
                    else (True, cm, db))
            | _ \<Rightarrow> (True, cm, db)))"

section \<open>The gates of the HTTP bridge\<close>

type_synonym http_error = "nat \<times> string"

definition enforce_http_admission ::
  "'db redis \<Rightarrow> rate_limit_config \<Rightarrow> redis_use \<Rightarrow> uuid \<Rightarrow> pubkey \<Rightarrow> 'db \<Rightarrow> (unit, http_error) result \<times> 'db" where
  "enforce_http_admission R limits u com pk db =
     (let (result, db) = check_principal R u com pk ApiCalls 60 (human_api_calls_per_min limits) db
      in (case result of
            Inr _ \<Rightarrow> Ok ()
          | Inl (Exceeded reset) \<Rightarrow> Err (429, ''rate-limited: quota exceeded; retry in '' @ show_nat reset @ ''s'')
          | Inl Unavailable \<Rightarrow> Err (503, ''rate-limited: shared admission unavailable''), db))"

text \<open>The header values the bridge reads and the request they come with.\<close>

record http_request =
  hr_authorization :: "string option"
  hr_x_pubkey :: "string option"
  hr_method :: string
  hr_url :: string
  hr_body :: "u8 list option"

record http_env =
  he_auth :: auth_env
  he_base64 :: "string \<Rightarrow> u8 list option"
  he_utf8 :: "u8 list \<Rightarrow> string option"
  he_pubkey_from_hex :: "string \<Rightarrow> pubkey option"
  he_debug :: "string list \<Rightarrow> string"

fun auth_error_text :: "http_env \<Rightarrow> auth_error \<Rightarrow> string" where
  "auth_error_text H InvalidSignature = ''invalid signature or malformed auth event''"
| "auth_error_text H ChallengeMismatch = ''challenge mismatch''"
| "auth_error_text H RelayUrlMismatch = ''relay url mismatch''"
| "auth_error_text H EventExpired = ''auth event timestamp outside '' @ map char_of [194, 177 :: nat] @ ''60s window''"
| "auth_error_text H (Nip98Invalid e) = ''NIP-98 HTTP Auth verification failed: '' @ e"
| "auth_error_text H Nip98Replay = ''NIP-98 replay: event id already seen within window''"
| "auth_error_text H PubkeyMismatch = ''pubkey mismatch: event pubkey does not match authenticated identity''"
| "auth_error_text H (InsufficientScope required have) =
     ''insufficient scope: required '' @ required @ '', have '' @ he_debug H have"
| "auth_error_text H ChannelAccessDenied = ''channel access denied''"
| "auth_error_text H (Internal e) = ''internal auth error: '' @ e"

definition ZERO_EVENT_ID :: event_id where
  "ZERO_EVENT_ID = replicate 64 CHR ''0''"

definition verify_bridge_auth_with_options ::
  "http_env \<Rightarrow> u64 \<Rightarrow> http_request \<Rightarrow> bool \<Rightarrow> bool \<Rightarrow> (pubkey \<times> event_id, http_error) result" where
  "verify_bridge_auth_with_options H now rq require_auth_token require_payload =
     (case Option.bind (hr_authorization rq) (strip_prefix ''Nostr '') of
        Some auth_str \<Rightarrow>
          and_then (ok_or (he_base64 H auth_str) (401, ''invalid base64 in Nostr auth'')) (\<lambda>bytes.
          and_then (ok_or (he_utf8 H bytes) (401, ''invalid UTF-8 in Nostr auth'')) (\<lambda>event_json.
          and_then (map_err (\<lambda>_. (401, ''invalid NIP-98 event JSON'')) (ae_event_from_json (he_auth H) event_json)) (\<lambda>ev.
            if require_payload \<and> \<not> list_ex (\<lambda>t. tag_kind t = ''payload'') (ev_tags ev)
            then Err (401, ''NIP-98: missing payload tag'')
            else and_then (map_err (\<lambda>e. (401, ''NIP-98: '' @ auth_error_text H e))
                   (verify_nip98_event (he_auth H) now event_json (hr_url rq) (hr_method rq) (hr_body rq))) (\<lambda>pk.
              Ok (pk, ev_id ev)))))
      | None \<Rightarrow>
          (case (if require_auth_token then None else hr_x_pubkey rq) of
             Some hex_val \<Rightarrow>
               and_then (ok_or (he_pubkey_from_hex H hex_val) (401, ''invalid X-Pubkey hex'')) (\<lambda>pk. Ok (pk, ZERO_EVENT_ID))
           | None \<Rightarrow> Err (401, ''missing Nostr auth'')))"

definition verify_bridge_auth ::
  "http_env \<Rightarrow> u64 \<Rightarrow> http_request \<Rightarrow> bool \<Rightarrow> (pubkey \<times> event_id, http_error) result" where
  "verify_bridge_auth H now rq require_auth_token = verify_bridge_auth_with_options H now rq require_auth_token False"

definition check_nip98_replay ::
  "'db redis \<Rightarrow> redis_use \<Rightarrow> uuid \<Rightarrow> event_id \<Rightarrow> 'db \<Rightarrow> (unit, http_error) result \<times> 'db" where
  "check_nip98_replay R u com event_id db =
     (if event_id = ZERO_EVENT_ID then (Ok (), db)
      else (let (marked, db) = try_mark R u com event_id DEFAULT_REPLAY_TTL_SECS db
            in (case marked of
                  Inr True \<Rightarrow> Ok ()
                | Inr False \<Rightarrow> Err (401, ''NIP-98: replay detected'')
                | Inl _ \<Rightarrow> Err (401, ''NIP-98: replay check unavailable''), db)))"

definition OPERATOR_REPLAY_SCOPE :: string where
  "OPERATOR_REPLAY_SCOPE = ''operator-management''"

definition check_operator_replay ::
  "'db redis \<Rightarrow> redis_use \<Rightarrow> event_id \<Rightarrow> 'db \<Rightarrow> (unit, http_error) result \<times> 'db" where
  "check_operator_replay R u event_id db =
     (let (marked, db) = try_mark_in_scope R u OPERATOR_REPLAY_SCOPE event_id DEFAULT_REPLAY_TTL_SECS db
      in (case marked of
            Inr True \<Rightarrow> Ok ()
          | Inr False \<Rightarrow> Err (401, ''NIP-98: replay detected'')
          | Inl _ \<Rightarrow> Err (401, ''NIP-98: replay check unavailable''), db))"

definition nip98_expected_url :: "string \<Rightarrow> string \<Rightarrow> string \<Rightarrow> string" where
  "nip98_expected_url config_relay_url host path =
     (let trimmed = dropWhile (\<lambda>c. is_ascii_whitespace c \<or> (of_char c :: nat) = 11) config_relay_url
      in (if prefix ''wss://'' trimmed then ''https'' else ''http'') @ ''://'' @ host @ path)"

text \<open>
  The gates a query passes before it reaches the database: authentication, admission, replay.
  Verification reads the clock in whole seconds.
\<close>

definition http_gates ::
  "'db redis \<Rightarrow> http_env \<Rightarrow> rate_limit_config \<Rightarrow> bool \<Rightarrow> nat \<Rightarrow> redis_use \<Rightarrow> redis_use \<Rightarrow> uuid \<Rightarrow> http_request \<Rightarrow> 'db
     \<Rightarrow> (pubkey \<times> event_id, http_error) result \<times> 'db" where
  "http_gates R H limits require_auth_token now u u' com rq db =
     (case verify_bridge_auth H (of_nat (now div 1000)) rq require_auth_token of
        Inl e \<Rightarrow> (Err e, db)
      | Inr (pk, event_id) \<Rightarrow>
          (case enforce_http_admission R limits u com pk db of
             (Inl e, db) \<Rightarrow> (Err e, db)
           | (Inr _, db) \<Rightarrow>
               (let (fresh, db) = check_nip98_replay R u' com event_id db
                in (and_then fresh (\<lambda>_. Ok (pk, event_id)), db))))"

end
