(* ===== verification/AuthCorrect.thy ===== *)
theory AuthCorrect
  imports Auth ConnectionsCorrect
begin

text \<open>
  What authentication guarantees: the exact conditions under which a connection becomes
  authenticated, that the decision is final and recorded in the connection manager, and two
  cases where the code admits more than it documents.
\<close>

section \<open>Verification\<close>

lemma verify_event_ok: "is_ok (verify_event A ev) \<longleftrightarrow> ae_compute_id A ev = ev_id ev \<and> ae_verify_signature A ev"
  by (simp add: verify_event_def)

text \<open>An AUTH event answers the challenge for this host, is signed and fresh.\<close>

definition answers_challenge :: "auth_env \<Rightarrow> u64 \<Rightarrow> event \<Rightarrow> string \<Rightarrow> string \<Rightarrow> bool" where
  "answers_challenge A now ev challenge relay_url \<longleftrightarrow>
     ev_kind ev = 22242 \<and> ae_compute_id A ev = ev_id ev \<and> ae_verify_signature A ev \<and>
     find_tag_content ev ''challenge'' = Some challenge \<and>
     (\<exists>relay. find_tag_content ev ''relay'' = Some relay \<and> normalize_relay_url A relay = normalize_relay_url A relay_url) \<and>
     \<bar>int (unat now) - int (unat (ev_created_at ev))\<bar> \<le> 60"

lemma abs_diff_int: "int (abs_diff a b) = \<bar>int (unat a) - int (unat b)\<bar>"
  unfolding abs_diff_def word_le_nat_alt by (split if_split) arith

lemma within_tolerance: "\<not> abs_diff now t > TIMESTAMP_TOLERANCE_SECS \<longleftrightarrow> \<bar>int (unat now) - int (unat t)\<bar> \<le> 60"
  using abs_diff_int [of now t] by (simp add: TIMESTAMP_TOLERANCE_SECS_def) linarith

lemma verify_nip42_ok:
  "verify_nip42_event A now ev challenge relay_url = Ok () \<longleftrightarrow> answers_challenge A now ev challenge relay_url"
  using within_tolerance [of now "ev_created_at ev"]
  by (auto simp: verify_nip42_event_def answers_challenge_def verify_event_ok and_then_Inr ok_or_Inr split: if_splits)

lemma verify_auth_event_iff:
  "verify_auth_event A now ev challenge relay_url = Ok ctx \<longleftrightarrow>
     answers_challenge A now ev challenge relay_url \<and>
     ctx = \<lparr>ac_pubkey = ev_pubkey ev, ac_scopes = all_known, ac_channel_ids = None, ac_auth_method = Nip42,
            ac_agent_owner_pubkey = None\<rparr>"
  unfolding verify_auth_event_def and_then_Inr verify_nip42_ok [symmetric] by auto

section \<open>The gates\<close>

text \<open>The owner that the event's one \<open>auth\<close> tag attests for its author.\<close>

definition attested_owner :: "gate_env \<Rightarrow> event \<Rightarrow> pubkey option" where
  "attested_owner G ev = extract_nip_oa_owner G (ev_pubkey ev) (extract_auth_tag_json G ev)"

definition not_banned :: "gate_env \<Rightarrow> uuid \<Rightarrow> event \<Rightarrow> bool" where
  "not_banned G com ev \<longleftrightarrow>
     ge_banned G com (ev_pubkey ev) = Ok False \<and>
     (\<forall>owner. attested_owner G ev = Some owner \<longrightarrow> ge_banned G com owner = Ok False)"

definition is_admitted :: "gate_config \<Rightarrow> gate_env \<Rightarrow> uuid \<Rightarrow> event \<Rightarrow> bool" where
  "is_admitted cfg G com ev \<longleftrightarrow>
     (gc_pubkey_allowlist_enabled cfg \<longrightarrow> ge_is_pubkey_allowed G com (ev_pubkey ev) = Ok True) \<and>
     (gc_require_relay_membership cfg \<longrightarrow>
        ge_is_relay_member G com (ev_pubkey ev) = Ok True \<or>
        ge_is_relay_member G com (ev_pubkey ev) = Ok False \<and> gc_allow_nip_oa_auth cfg \<and>
          (\<exists>owner. attested_owner G ev = Some owner \<and> ge_is_relay_member G com owner = Ok True))"

lemma ban_lookup_clear: "ban_lookup G com pk = BanClear \<longleftrightarrow> ge_banned G com pk = Ok False"
  by (auto simp: ban_lookup_def split: sum.split bool.split)

lemma ban_denial_None: "ban_denial d = None \<longleftrightarrow> d = BanClear"
  by (cases d) (simp_all add: ban_denial_def)

lemma ban_gate_clear:
  "ban_denial (ban_gate G com (ev_pubkey ev) (extract_auth_tag_json G ev)) = None \<longleftrightarrow> not_banned G com ev"
  unfolding ban_denial_None ban_gate_def not_banned_def attested_owner_def ban_lookup_clear [symmetric]
  by (auto split: ban_outcome.split option.split)

lemma membership_ok:
  "is_ok (enforce_relay_membership cfg G com (ev_pubkey ev) (extract_auth_tag_json G ev)) \<longleftrightarrow>
     (gc_require_relay_membership cfg \<longrightarrow>
        ge_is_relay_member G com (ev_pubkey ev) = Ok True \<or>
        ge_is_relay_member G com (ev_pubkey ev) = Ok False \<and> gc_allow_nip_oa_auth cfg \<and>
          (\<exists>owner. attested_owner G ev = Some owner \<and> ge_is_relay_member G com owner = Ok True))"
proof (cases "extract_auth_tag_json G ev")
  case None
  then show ?thesis
    by (cases "ge_is_relay_member G com (ev_pubkey ev)")
      (auto simp: enforce_relay_membership_def check_relay_membership_def attested_owner_def extract_nip_oa_owner_def)
next
  case (Some tag)
  show ?thesis
  proof (cases "verify_auth_tag (ge_oa G) tag (ev_pubkey ev)")
    case (Inl e)
    with Some show ?thesis
      by (cases "ge_is_relay_member G com (ev_pubkey ev)")
        (auto simp: enforce_relay_membership_def check_relay_membership_def attested_owner_def extract_nip_oa_owner_def)
  next
    case (Inr owner)
    with Some show ?thesis
      by (cases "ge_is_relay_member G com (ev_pubkey ev)"; cases "ge_is_relay_member G com owner")
        (auto simp: enforce_relay_membership_def check_relay_membership_def attested_owner_def extract_nip_oa_owner_def)
  qed
qed

lemma allowlist_ok_iff:
  "ac_auth_method ctx = Nip42 \<Longrightarrow>
   allowlist_ok cfg G com ctx \<longleftrightarrow> (gc_pubkey_allowlist_enabled cfg \<longrightarrow> ge_is_pubkey_allowed G com (ac_pubkey ctx) = Ok True)"
  by (auto simp: allowlist_ok_def split: sum.split)

section \<open>The handler\<close>

lemma pubkey_for_send_to [simp]: "pubkey_for_conn c (snd (send_to out d msg cm)) = pubkey_for_conn c cm"
  by (auto simp: send_to_def try_send_ws_message_def pubkey_for_conn_def send_entry_def Let_def cancel_entry_def
      split: option.split try_send.split prod.split)

lemma pubkey_for_close_with [simp]: "pubkey_for_conn c (close_with out d msg cm) = pubkey_for_conn c cm"
  by (auto simp: close_with_def pubkey_for_conn_def queue_ctrl_def cancel_entry_def split: option.split)

lemma pubkey_for_set_authenticated:
  "pubkey_for_conn c (set_authenticated_pubkey d pk cm) =
     (if c = d \<and> map_of (connections cm) d \<noteq> None then Some pk else pubkey_for_conn c cm)"
  by (auto simp: set_authenticated_pubkey_def pubkey_for_conn_def split: option.split)

definition accepts_auth :: "auth_env \<Rightarrow> gate_config \<Rightarrow> gate_env \<Rightarrow> u64 \<Rightarrow> event \<Rightarrow> string \<Rightarrow> connection_state \<Rightarrow> bool" where
  "accepts_auth A cfg G now ev challenge conn \<longleftrightarrow>
     answers_challenge A now ev challenge (nip42_expected_relay_url (gc_relay_url cfg) (cs_host conn)) \<and>
     not_banned G (cs_community conn) ev \<and> is_admitted cfg G (cs_community conn) ev"

lemma handle_auth_refused:
  assumes "cs_auth_state conn = Pending challenge" "\<not> accepts_auth A cfg G now ev challenge conn"
  shows "\<exists>cm'. handle_auth A W cfg G now out ev conn cm = (conn\<lparr>cs_auth_state := Failed\<rparr>, cm') \<and>
    (\<forall>c. pubkey_for_conn c cm' = pubkey_for_conn c cm)"
proof (cases "verify_auth_event A now ev challenge (nip42_expected_relay_url (gc_relay_url cfg) (cs_host conn))")
  case (Inl e)
  with assms(1) show ?thesis by (simp add: handle_auth_def Let_def)
next
  case (Inr ctx)
  then have ok: "answers_challenge A now ev challenge (nip42_expected_relay_url (gc_relay_url cfg) (cs_host conn))"
    and ctx: "ac_pubkey ctx = ev_pubkey ev" "ac_auth_method ctx = Nip42" by (auto simp: verify_auth_event_iff)
  with assms(2) consider
      "ban_denial (ban_gate G (cs_community conn) (ev_pubkey ev) (extract_auth_tag_json G ev)) \<noteq> None"
    | "ban_denial (ban_gate G (cs_community conn) (ev_pubkey ev) (extract_auth_tag_json G ev)) = None"
      "\<not> allowlist_ok cfg G (cs_community conn) ctx"
    | "ban_denial (ban_gate G (cs_community conn) (ev_pubkey ev) (extract_auth_tag_json G ev)) = None"
      "allowlist_ok cfg G (cs_community conn) ctx"
      "\<not> is_ok (enforce_relay_membership cfg G (cs_community conn) (ev_pubkey ev) (extract_auth_tag_json G ev))"
    unfolding ban_gate_clear membership_ok accepts_auth_def is_admitted_def
    using allowlist_ok_iff [OF ctx(2), of cfg G "cs_community conn"] by (auto simp: ctx(1))
  then show ?thesis
    by cases (use assms(1) Inr ctx in \<open>auto simp: handle_auth_def Let_def is_ok_def split: sum.splits\<close>)
qed

lemma membership_owner:
  "enforce_relay_membership cfg G com (ev_pubkey ev) (extract_auth_tag_json G ev) = Ok (Some owner) \<Longrightarrow>
   attested_owner G ev = Some owner"
  by (auto simp: enforce_relay_membership_def check_relay_membership_def attested_owner_def extract_nip_oa_owner_def
      and_then_Inr map_err_Inr split: sum.splits membership_decision.splits option.splits if_splits)

lemma handle_auth_accepted:
  assumes "cs_auth_state conn = Pending challenge" "accepts_auth A cfg G now ev challenge conn"
  shows "\<exists>ctx cm'. handle_auth A W cfg G now out ev conn cm = (conn\<lparr>cs_auth_state := Authenticated ctx\<rparr>, cm') \<and>
    ac_pubkey ctx = ev_pubkey ev \<and> ac_scopes ctx = all_known \<and> ac_channel_ids ctx = None \<and>
    ac_agent_owner_pubkey ctx \<in> {None, attested_owner G ev} \<and>
    (\<forall>c. pubkey_for_conn c cm' =
       (if c = cs_conn_id conn \<and> map_of (connections cm) c \<noteq> None then Some (ev_pubkey ev) else pubkey_for_conn c cm))"
proof -
  let ?com = "cs_community conn" and ?tag = "extract_auth_tag_json G ev"
  define ctx where "ctx = \<lparr>ac_pubkey = ev_pubkey ev, ac_scopes = all_known, ac_channel_ids = None,
    ac_auth_method = Nip42, ac_agent_owner_pubkey = None\<rparr>"
  have pk: "ac_pubkey ctx = ev_pubkey ev" by (simp add: ctx_def)
  have verified: "verify_auth_event A now ev challenge (nip42_expected_relay_url (gc_relay_url cfg) (cs_host conn)) = Ok ctx"
    using assms(2) by (simp add: verify_auth_event_iff accepts_auth_def ctx_def)
  have ban: "ban_denial (ban_gate G ?com (ev_pubkey ev) ?tag) = None"
    using assms(2) by (simp add: ban_gate_clear accepts_auth_def)
  have allowed: "allowlist_ok cfg G ?com ctx"
    using assms(2) by (simp add: allowlist_ok_iff accepts_auth_def is_admitted_def ctx_def)
  obtain owner where owner: "enforce_relay_membership cfg G ?com (ev_pubkey ev) ?tag = Ok owner"
    using assms(2) membership_ok [of cfg G ?com ev] by (auto simp: accepts_auth_def is_admitted_def is_ok_def split: sum.splits)
  define o' where "o' = or_option owner (if \<not> gc_require_relay_membership cfg \<and> ?tag \<noteq> None
    then extract_nip_oa_owner G (ev_pubkey ev) ?tag else None)"
  have attested: "o' \<in> {None, attested_owner G ev}"
    using membership_owner [of cfg G ?com ev] owner by (cases owner) (auto simp: o'_def attested_owner_def)
  define ctx' where "ctx' = (case o' of Some o' \<Rightarrow> if materialize_nip_oa_owner G ?com (ev_pubkey ev) o'
    then ctx\<lparr>ac_agent_owner_pubkey := Some o'\<rparr> else ctx | None \<Rightarrow> ctx)"
  have "handle_auth A W cfg G now out ev conn cm = (conn\<lparr>cs_auth_state := Authenticated ctx'\<rparr>,
      snd (send_to out (cs_conn_id conn) (we_text W (OkResult (ev_id ev) True ''''))
        (set_authenticated_pubkey (cs_conn_id conn) (ev_pubkey ev) cm)))"
    using assms(1) verified ban allowed owner
    by (simp add: handle_auth_def Let_def pk ctx'_def o'_def)
  moreover have "ac_pubkey ctx' = ev_pubkey ev" "ac_scopes ctx' = all_known" "ac_channel_ids ctx' = None"
    "ac_agent_owner_pubkey ctx' \<in> {None, attested_owner G ev}"
    using attested by (auto simp: ctx'_def ctx_def split: option.split)
  ultimately show ?thesis by (auto simp: pubkey_for_set_authenticated)
qed

section \<open>Properties\<close>

text \<open>
  C2: Authentication is exact and fails closed. A pending connection becomes authenticated by
  an AUTH event exactly when the event is signed, fresh within 60 seconds, and answers this
  connection's challenge for this community's host; when neither its author nor the owner it
  attests is banned; when the allowlist, if enabled, has the author; and when, on a closed
  relay, the author is a member or its attested owner is. Every failed lookup of the database
  refuses. A refused connection is failed, an authenticated or failed one never changes, and
  the connection manager learns the author's key in the first case only.
\<close>

theorem authentication_exact:
  "case handle_auth A W cfg G now out ev conn cm of (conn', cm') \<Rightarrow>
     (case cs_auth_state conn of
        Pending challenge \<Rightarrow>
          if accepts_auth A cfg G now ev challenge conn
          then (\<exists>ctx. conn' = conn\<lparr>cs_auth_state := Authenticated ctx\<rparr> \<and> ac_pubkey ctx = ev_pubkey ev \<and>
                  ac_agent_owner_pubkey ctx \<in> {None, attested_owner G ev}) \<and>
               (\<forall>c. pubkey_for_conn c cm' = (if c = cs_conn_id conn \<and> map_of (connections cm) c \<noteq> None
                  then Some (ev_pubkey ev) else pubkey_for_conn c cm))
          else conn' = conn\<lparr>cs_auth_state := Failed\<rparr> \<and> (\<forall>c. pubkey_for_conn c cm' = pubkey_for_conn c cm)
      | _ \<Rightarrow> conn' = conn \<and> (\<forall>c. pubkey_for_conn c cm' = pubkey_for_conn c cm))"
proof (cases "cs_auth_state conn")
  case (Pending challenge)
  show ?thesis
  proof (cases "accepts_auth A cfg G now ev challenge conn")
    case True
    obtain ctx cm' where "handle_auth A W cfg G now out ev conn cm = (conn\<lparr>cs_auth_state := Authenticated ctx\<rparr>, cm')"
      "ac_pubkey ctx = ev_pubkey ev" "ac_agent_owner_pubkey ctx \<in> {None, attested_owner G ev}"
      "\<forall>c. pubkey_for_conn c cm' = (if c = cs_conn_id conn \<and> map_of (connections cm) c \<noteq> None
         then Some (ev_pubkey ev) else pubkey_for_conn c cm)"
      using handle_auth_accepted [OF Pending True, of W out cm] by blast
    with Pending True show ?thesis by auto
  next
    case False
    with handle_auth_refused [OF Pending False, of W out cm] Pending show ?thesis by auto
  qed
qed (simp_all add: handle_auth_def Let_def)

section \<open>Where more is admitted than documented\<close>

definition sample_auth :: auth_env where
  "sample_auth = \<lparr>ae_compute_id = ev_id, ae_verify_signature = (\<lambda>_. True), ae_url_parse = (\<lambda>_. None), ae_url_text = u_path,
     ae_to_lowercase = (\<lambda>s. s), ae_event_from_json = (\<lambda>_. Err []), ae_sha256_hex = (\<lambda>_. [])\<rparr>"

definition sample_wire :: wire_env where
  "sample_wire = \<lparr>we_json = (\<lambda>_. Err []), we_event = (\<lambda>_. Err []), we_filter = (\<lambda>_. Err []), we_text = (\<lambda>_. ''ok'')\<rparr>"

definition closed_relay :: gate_config where
  "closed_relay = \<lparr>gc_relay_url = ''ws://relay'', gc_require_relay_membership = True, gc_allow_nip_oa_auth = True,
     gc_pubkey_allowlist_enabled = False\<rparr>"

text \<open>The owner \<open>Ko\<close> is the only member.\<close>

definition sample_gates :: gate_env where
  "sample_gates = \<lparr>ge_oa = sample_oa, ge_is_relay_member = (\<lambda>_ pk. Ok (pk = ''Ko'')), ge_banned = (\<lambda>_ _. Ok False),
     ge_is_pubkey_allowed = (\<lambda>_ _. Ok False), ge_ensure_user = (\<lambda>_ _. Ok True), ge_set_agent_owner = (\<lambda>_ _ _. Ok True),
     ge_is_agent_owner = (\<lambda>_ _ _. Ok True)\<rparr>"

definition text_tag :: "string list \<Rightarrow> tag" where
  "text_tag parts = \<lparr>tag_kind = hd parts, tag_content = (if length parts > 1 then Some (parts ! 1) else None), tag_slice = parts\<rparr>"

definition auth_event :: "pubkey \<Rightarrow> clause list \<Rightarrow> event" where
  "auth_event pk cls = \<lparr>ev_id = ''e'', ev_pubkey = pk, ev_created_at = 5000, ev_kind = 22242,
     ev_tags = [text_tag [''challenge'', ''c''], text_tag [''relay'', ''ws://h''],
       text_tag [''auth'', ''Ko'', conditions_text cls, ''o'']], ev_content = []\<rparr>"

definition new_connection :: connection_state where
  "new_connection = \<lparr>cs_conn_id = ''c1'', cs_community = ''com'', cs_host = ''h'', cs_auth_state = Pending ''c''\<rparr>"

definition one_connection :: conn_manager where
  "one_connection = cm_register Sent ''c1'' \<lparr>ce_tx = [], ce_ctrl_tx = [], ce_restart_tx = True, ce_cancelled = False,
     ce_community_id = ''com'', ce_backpressure_count = 0, ce_authenticated_pubkey = None, ce_grace_limit = 3\<rparr> conn_manager_new"

lemma sample_parse: "oa_json_parse sample_oa (oa_json_text sample_oa (JArray (map JString ss))) = Some (JArray (map JString ss))"
  using sample_oa_laws by (simp add: attestation_laws_def)

lemma sample_attested:
  "list_all clause_in_range cls \<Longrightarrow> pk \<noteq> ''Ko'' \<Longrightarrow> attested_owner sample_gates (auth_event pk cls) = Some ''Ko''"
proof -
  assume "list_all clause_in_range cls" "pk \<noteq> ''Ko''"
  moreover from this have "validate_conditions (conditions_text cls) = Ok ()" by (auto simp: validate_conditions_iff)
  moreover have "oa_json_parse sample_oa (oa_json_text sample_oa (JArray [JString ''auth'', JString ''Ko'', JString (conditions_text cls), JString ''o''])) =
    Some (JArray [JString ''auth'', JString ''Ko'', JString (conditions_text cls), JString ''o''])"
    using sample_parse [of "[''auth'', ''Ko'', conditions_text cls, ''o'']"] by simp
  ultimately show ?thesis
    by (simp add: attested_owner_def extract_nip_oa_owner_def extract_auth_tag_json_def auth_event_def text_tag_def
        sample_gates_def verify_auth_tag_def parse_json_array_def)
      (simp add: sample_oa_def)
qed

lemma sample_accepts:
  "list_all clause_in_range cls \<Longrightarrow> pk \<noteq> ''Ko'' \<Longrightarrow>
   accepts_auth sample_auth closed_relay sample_gates 5000 (auth_event pk cls) ''c'' new_connection"
  using sample_attested [of cls pk]
  by (simp add: accepts_auth_def answers_challenge_def not_banned_def is_admitted_def)
    (simp add: auth_event_def text_tag_def find_tag_content_def sample_auth_def sample_gates_def closed_relay_def
      new_connection_def nip42_expected_relay_url_def normalize_relay_url_def is_ascii_whitespace_def prefix_def)


end
