(* ===== verification/AdmissionCorrect.thy ===== *)
theory AdmissionCorrect
  imports Admission AuthCorrect
begin

text \<open>
  What rate limits and replay protection promise, for every interleaving of calls of every
  relay process with the shared Redis: the bound on what a principal is admitted for in a
  window, that a principal within its quota is never refused whatever others do, and when an
  authorization can be used twice.
\<close>

section \<open>What is relied on of Redis\<close>

text \<open>
  A view tells value and expiry (milliseconds) of the keys alive at a time. A key stays as it
  is until its expiry; commands change their key only.
\<close>

type_synonym 'db view = "'db \<Rightarrow> nat \<Rightarrow> string \<Rightarrow> (nat \<times> nat option) option"

definition keys_age :: "'db view \<Rightarrow> bool" where
  "keys_age view \<longleftrightarrow>
     (\<forall>db k t t'. t \<le> t' \<longrightarrow> view db t' k = view db t k \<or>
        (view db t' k = None \<and> (\<exists>v e. view db t k = Some (v, Some e) \<and> e \<le> t')))"

definition only_changes :: "'db view \<Rightarrow> string \<Rightarrow> 'db \<Rightarrow> 'db \<Rightarrow> bool" where
  "only_changes view k db db' \<longleftrightarrow> (\<forall>k' t. k' \<noteq> k \<longrightarrow> view db' t k' = view db t k')"

definition incr_law :: "'db redis \<Rightarrow> 'db view \<Rightarrow> bool" where
  "incr_law R view \<longleftrightarrow>
     (\<forall>db k t n db'. rd_incr R t k db = (n, db') \<longrightarrow> only_changes view k db db' \<and>
        (case view db t k of
           None \<Rightarrow> n = 1 \<and> view db' t k = Some (1, None)
         | Some (v, e) \<Rightarrow> n = v + 1 \<and> view db' t k = Some (v + 1, e)))"

definition expire_law :: "'db redis \<Rightarrow> 'db view \<Rightarrow> bool" where
  "expire_law R view \<longleftrightarrow>
     (\<forall>db k t s. only_changes view k db (rd_expire R t k s db) \<and>
        (0 < s \<longrightarrow> view (rd_expire R t k s db) t k = map_option (\<lambda>(v, _). (v, Some (t + 1000 * nat s))) (view db t k)))"

definition ttl_law :: "'db redis \<Rightarrow> 'db view \<Rightarrow> bool" where
  "ttl_law R view \<longleftrightarrow> (\<forall>db k t v e. view db t k = Some (v, e) \<longrightarrow> (rd_ttl R t k db < 0 \<longleftrightarrow> e = None))"

definition set_nx_law :: "'db redis \<Rightarrow> 'db view \<Rightarrow> bool" where
  "set_nx_law R view \<longleftrightarrow>
     (\<forall>db k t x s reply db'. 0 < s \<longrightarrow> rd_set_nx_ex R t k x s db = (reply, db') \<longrightarrow> only_changes view k db db' \<and>
        (if view db t k = None then reply = Some ''OK'' \<and> (\<exists>v. view db' t k = Some (v, Some (t + 1000 * s)))
         else reply = None \<and> view db' t k = view db t k))"

definition redis_laws :: "'db redis \<Rightarrow> 'db view \<Rightarrow> bool" where
  "redis_laws R view \<longleftrightarrow> keys_age view \<and> incr_law R view \<and> expire_law R view \<and> ttl_law R view \<and> set_nx_law R view"

lemma redis_lawsD:
  assumes "redis_laws R view"
  shows "keys_age view" "incr_law R view" "expire_law R view" "ttl_law R view" "set_nx_law R view"
  using assms by (simp_all add: redis_laws_def)

lemma only_changes_refl [simp]: "only_changes view k db db"
  by (simp add: only_changes_def)

lemma only_changes_trans [trans]:
  "only_changes view k db db' \<Longrightarrow> only_changes view k db' db'' \<Longrightarrow> only_changes view k db db''"
  by (simp add: only_changes_def)

section \<open>Keys\<close>

lemma key_suffix_inj: "key_suffix a = key_suffix b \<longleftrightarrow> a = b"
  by (cases a; cases b) simp_all

lemma rate_limit_key_inj:
  assumes "no_colon com" "no_colon pk" "no_colon com'" "no_colon pk'"
  shows "rate_limit_key com pk t = rate_limit_key com' pk' t' \<longleftrightarrow> com = com' \<and> pk = pk' \<and> t = t'"
  using assms by (auto simp: rate_limit_key_def no_colon_append key_suffix_inj)

lemma replay_key_inj:
  "no_colon s \<Longrightarrow> no_colon s' \<Longrightarrow>
   nip98_replay_key_for_scope s i = nip98_replay_key_for_scope s' i' \<longleftrightarrow> s = s' \<and> i = i'"
  by (auto simp: nip98_replay_key_for_scope_def no_colon_append)

lemma rate_key_not_replay_key:
  "no_colon com \<Longrightarrow> no_colon s \<Longrightarrow> rate_limit_key com pk t \<noteq> nip98_replay_key_for_scope s i"
  by (auto simp: nip98_replay_key_for_scope_def rate_limit_key_def no_colon_append)

lemma ip_key_not_replay_key: "no_colon s \<Longrightarrow> ip_rate_limit_key ip \<noteq> nip98_replay_key_for_scope s i"
proof -
  assume "no_colon s"
  moreover have "ip_rate_limit_key ip = ''buzz:'' @ ''ratelimit'' @ CHR '':'' # ''ip:'' @ ip @ '':conn''"
    by (simp add: ip_rate_limit_key_def)
  ultimately show ?thesis
    using no_colon_append [of "''ratelimit''" s] by (auto simp: nip98_replay_key_for_scope_def no_colon_def)
qed

lemma ip_key_not_rate_key: "no_colon com \<Longrightarrow> ip_rate_limit_key ip \<noteq> rate_limit_key com pk t"
proof -
  assume "no_colon com"
  moreover have "ip_rate_limit_key ip = ''buzz:'' @ ''ratelimit'' @ CHR '':'' # ''ip:'' @ ip @ '':conn''"
    by (simp add: ip_rate_limit_key_def)
  ultimately show ?thesis
    using no_colon_append [of "''ratelimit''" com] by (auto simp: rate_limit_key_def no_colon_def)
qed

section \<open>One call\<close>

text \<open>The script counts, and a key it creates expires after the window.\<close>

lemma script_effect:
  assumes laws: "redis_laws R view" and s: "0 < s"
    and script: "RATE_LIMIT_SCRIPT R t k s db = ((n, ttl), db')"
  shows "only_changes view k db db'"
    and "view db t k = None \<Longrightarrow> n = 1 \<and> view db' t k = Some (1, Some (t + 1000 * nat s)) \<and> 0 \<le> ttl"
    and "view db t k = Some (v, e) \<Longrightarrow> n = v + 1 \<and>
      view db' t k = Some (v + 1, if v = 0 then Some (t + 1000 * nat s) else e) \<and> (ttl < 0 \<longleftrightarrow> v \<noteq> 0 \<and> e = None)"
proof -
  obtain m db1 where incr: "rd_incr R t k db = (m, db1)" by fastforce
  let ?db = "if m = 1 then rd_expire R t k s db1 else db1"
  from script incr have n: "m = n" "db' = ?db" "ttl = rd_ttl R t k ?db"
    by (auto simp: RATE_LIMIT_SCRIPT_def Let_def)
  note laws = redis_lawsD [OF laws]
  from laws(2) incr have i: "only_changes view k db db1"
    "case view db t k of None \<Rightarrow> m = 1 \<and> view db1 t k = Some (1, None) | Some (v, e) \<Rightarrow> m = v + 1 \<and> view db1 t k = Some (v + 1, e)"
    unfolding incr_law_def by blast+
  from laws(3) s have x: "only_changes view k db1 (rd_expire R t k s db1)"
    "view (rd_expire R t k s db1) t k = map_option (\<lambda>(v, _). (v, Some (t + 1000 * nat s))) (view db1 t k)"
    unfolding expire_law_def by blast+
  have ttl: "view ?db t k = Some (v, e) \<Longrightarrow> ttl < 0 \<longleftrightarrow> e = None" for v e
    using laws(4) n(3) unfolding ttl_law_def by blast
  show "only_changes view k db db'"
    using i(1) x(1) n only_changes_trans [of view k db db1] by auto
  show "n = 1 \<and> view db' t k = Some (1, Some (t + 1000 * nat s)) \<and> 0 \<le> ttl" if "view db t k = None"
    using that i(2) x(2) n ttl by (auto simp: not_less [symmetric])
  show "n = v + 1 \<and> view db' t k = Some (v + 1, if v = 0 then Some (t + 1000 * nat s) else e) \<and> (ttl < 0 \<longleftrightarrow> v \<noteq> 0 \<and> e = None)"
    if "view db t k = Some (v, e)"
    using that i(2) x(2) n ttl by (auto split: if_splits)
qed

lemma as_i64_small: "n < 2 ^ 63 \<Longrightarrow> as_i64 n = int n"
  by (simp add: as_i64_def signed_of_nat signed_take_bit_int_eq_self)

text \<open>What can still be admitted up to time \<open>T\<close>: the rest of this window, and of a next one.\<close>

fun quota_left :: "nat \<Rightarrow> nat \<Rightarrow> (nat \<times> nat option) option \<Rightarrow> nat" where
  "quota_left L T None = L"
| "quota_left L T (Some (c, None)) = L - c"
| "quota_left L T (Some (c, Some e)) = (if T < e then L - c else (L - c) + L)"

lemma quota_left_le: "quota_left L T x \<le> 2 * L"
  by (cases "(L, T, x)" rule: quota_left.cases) auto

lemma quota_left_ages:
  assumes "keys_age view" "t \<le> t'" "t' \<le> T"
  shows "quota_left L T (view db t' k) \<le> quota_left L T (view db t k)"
proof -
  have "view db t' k = view db t k \<or> (view db t' k = None \<and> (\<exists>v e. view db t k = Some (v, Some e) \<and> e \<le> t'))"
    using assms(1,2) unfolding keys_age_def by blast
  with assms(3) show ?thesis by auto
qed

definition admitted :: "(rate_limit_result, auth_error) result \<Rightarrow> bool" where
  "admitted r = (case r of Inr result \<Rightarrow> rl_allowed result | Inl _ \<Rightarrow> False)"

lemma script_quota:
  assumes "redis_laws R view" "0 < w" "T < t + 1000 * w" "limit \<le> L"
    and "RATE_LIMIT_SCRIPT R t k (int w) db = ((n, ttl), db')"
  shows "of_bool (n \<le> limit) + quota_left L T (view db' t k) \<le> quota_left L T (view db t k)"
proof (cases "view db t k")
  case None
  with script_effect(2) [OF assms(1) _ assms(5)] assms(2-4) show ?thesis by auto
next
  case (Some x)
  obtain v e where x: "x = (v, e)" by fastforce
  with script_effect(3) [OF assms(1) _ assms(5), of v e] Some assms(2-4) show ?thesis by (cases e) auto
qed

lemma repair_quota:
  assumes "redis_laws R view" "0 < w" "T < t + 1000 * w"
  shows "only_changes view k db (rd_expire R t k (int w) db)"
    and "view db t k = Some (v, None) \<Longrightarrow>
      quota_left L T (view (rd_expire R t k (int w) db) t k) = quota_left L T (view db t k)"
  using redis_lawsD(3) [OF assms(1)] assms(2,3) unfolding expire_law_def by auto

lemma run_rate_limit_cases:
  assumes "RATE_LIMIT_SCRIPT R (ru_now u) k (as_i64 w) db = ((n, ttl), db1)" "run_rate_limit R u k w limit db = (r, db')"
  obtains "\<not> admitted r" "db' = db"
  | "admitted r \<Longrightarrow> n \<le> limit" "db' = db1"
  | "admitted r \<Longrightarrow> n \<le> limit" "ttl < 0" "db' = rd_expire R (ru_now u) k (as_i64 w) db1"
  using assms
  by (auto simp: run_rate_limit_def admitted_def Let_def rate_limit_allowed_def rate_limit_denied_def
      split: redis_outcome.splits if_splits)

lemma run_rate_limit_quota:
  assumes laws: "redis_laws R view" and w: "0 < w" "w < 2 ^ 63" and T: "T < ru_now u + 1000 * w" and L: "limit \<le> L"
    and run: "run_rate_limit R u k w limit db = (r, db')"
  shows "only_changes view k db db' \<and>
    of_bool (admitted r) + quota_left L T (view db' (ru_now u) k) \<le> quota_left L T (view db (ru_now u) k)"
proof -
  let ?t = "ru_now u"
  note i64 = as_i64_small [OF w(2)]
  obtain n ttl db1 where script: "RATE_LIMIT_SCRIPT R ?t k (int w) db = ((n, ttl), db1)" by (metis surj_pair)
  from w(1) have "0 < int w" by simp
  note effect = script_effect [OF laws this script]
  note quota = script_quota [OF laws w(1) T L script]
  note repair = repair_quota [OF laws w(1) T, where k = k and db = db1]
  have untimed: "\<exists>v. view db1 ?t k = Some (v, None)" if "ttl < 0"
  proof (cases "view db ?t k")
    case None
    with effect(2) that show ?thesis by simp
  next
    case (Some x)
    with effect(3) [of "fst x" "snd x"] that show ?thesis by auto
  qed
  from script [folded i64] run show ?thesis
  proof (cases rule: run_rate_limit_cases)
    case 1
    then show ?thesis by simp
  next
    case 2
    then show ?thesis using effect(1) quota by (auto split: if_splits)
  next
    case 3
    then show ?thesis
      using effect(1) quota untimed repair only_changes_trans [OF effect(1) repair(1)] by (auto simp: i64)
  qed
qed

text \<open>How much of its window a key has used.\<close>

fun used :: "(nat \<times> nat option) option \<Rightarrow> nat" where
  "used None = 0"
| "used (Some (c, _)) = c"

lemma used_ages: "keys_age view \<Longrightarrow> t \<le> t' \<Longrightarrow> used (view db t' k) \<le> used (view db t k)"
  unfolding keys_age_def by (metis le0 order_refl used.simps(1))

lemma run_rate_limit_answered:
  assumes laws: "redis_laws R view" and w: "0 < w" "w < 2 ^ 63" and up: "ru_outcome u = Answered" "ru_repair u = Answered"
    and run: "run_rate_limit R u k w limit db = (r, db')"
  shows "(admitted r \<longleftrightarrow> used (view db (ru_now u) k) < limit) \<and>
    used (view db' (ru_now u) k) = used (view db (ru_now u) k) + 1"
proof -
  let ?t = "ru_now u"
  note i64 = as_i64_small [OF w(2)]
  obtain n ttl db1 where script: "RATE_LIMIT_SCRIPT R ?t k (int w) db = ((n, ttl), db1)" by (metis surj_pair)
  from w(1) have "0 < int w" by simp
  note effect = script_effect [OF laws this script]
  have counted: "used (view db ?t k) + 1 = n \<and> used (view db1 ?t k) = n"
  proof (cases "view db ?t k")
    case None
    with effect(2) show ?thesis by simp
  next
    case (Some x)
    with effect(3) [of "fst x" "snd x"] show ?thesis by (cases x) simp
  qed
  have "used (view (rd_expire R ?t k (int w) db1) ?t k) = used (view db1 ?t k)"
    using redis_lawsD(3) [OF laws] w(1) unfolding expire_law_def by (cases "view db1 ?t k") auto
  with counted have same: "used (view (if ttl < 0 then rd_expire R ?t k (int w) db1 else db1) ?t k) = n" by simp
  have "admitted r \<longleftrightarrow> n \<le> limit" and "db' = (if ttl < 0 then rd_expire R ?t k (int w) db1 else db1)"
    using run script up
    by (auto simp: run_rate_limit_def i64 Let_def admitted_def rate_limit_allowed_def rate_limit_denied_def split: if_splits)
  moreover from this(2) same have "used (view db' ?t k) = n" by simp
  moreover from counted have "n = Suc (used (view db ?t k))" by simp
  ultimately show ?thesis by (simp add: Suc_le_eq)
qed

section \<open>Sequences of calls\<close>

text \<open>
  Every use of Redis by admission and replay protection. A list of calls is one interleaving of
  the calls of all processes, in the order the server runs them.
\<close>

datatype redis_call =
    PrincipalCall redis_use uuid pubkey limit_type nat nat
  | IpCall redis_use string nat nat
  | MarkCall redis_use string event_id nat

fun do_call :: "'db redis \<Rightarrow> redis_call \<Rightarrow> 'db \<Rightarrow> bool \<times> 'db" where
  "do_call R (PrincipalCall u com pk limit_type w limit) db = map_prod is_ok id (check_principal R u com pk limit_type w limit db)"
| "do_call R (IpCall u ip w limit) db = map_prod admitted id (check_ip_connection R u ip w limit db)"
| "do_call R (MarkCall u scope i ttl) db = map_prod (\<lambda>r. r = Ok True) id (try_mark_in_scope R u scope i ttl db)"

fun run_calls :: "'db redis \<Rightarrow> redis_call list \<Rightarrow> 'db \<Rightarrow> bool list \<times> 'db" where
  "run_calls R [] db = ([], db)"
| "run_calls R (c # cs) db =
     (let (ok, db) = do_call R c db; (oks, db) = run_calls R cs db in (ok # oks, db))"

fun call_use :: "redis_call \<Rightarrow> redis_use" where
  "call_use (PrincipalCall u _ _ _ _ _) = u"
| "call_use (IpCall u _ _ _) = u"
| "call_use (MarkCall u _ _ _) = u"

fun call_key :: "redis_call \<Rightarrow> string" where
  "call_key (PrincipalCall _ com pk t _ _) = rate_limit_key com pk t"
| "call_key (IpCall _ ip _ _) = ip_rate_limit_key ip"
| "call_key (MarkCall _ scope i _) = nip98_replay_key_for_scope scope i"

text \<open>Community ids and public keys are hexadecimal text.\<close>

fun well_keyed :: "redis_call \<Rightarrow> bool" where
  "well_keyed (PrincipalCall _ com pk _ _ _) \<longleftrightarrow> no_colon com \<and> no_colon pk"
| "well_keyed (IpCall _ _ _ _) \<longleftrightarrow> True"
| "well_keyed (MarkCall _ scope _ _) \<longleftrightarrow> no_colon scope"

fun call_of :: "uuid \<Rightarrow> pubkey \<Rightarrow> limit_type \<Rightarrow> redis_call \<Rightarrow> bool" where
  "call_of com pk t (PrincipalCall _ com' pk' t' _ _) \<longleftrightarrow> com' = com \<and> pk' = pk \<and> t' = t"
| "call_of _ _ _ _ \<longleftrightarrow> False"

text \<open>The window and a bound on the limit of a principal's calls.\<close>

fun budget :: "nat \<Rightarrow> nat \<Rightarrow> redis_call \<Rightarrow> bool" where
  "budget w L (PrincipalCall _ _ _ _ w' limit) \<longleftrightarrow> w' = w \<and> limit \<le> L"
| "budget _ _ _ \<longleftrightarrow> True"

definition calls_admitted :: "(redis_call \<Rightarrow> bool) \<Rightarrow> redis_call list \<Rightarrow> bool list \<Rightarrow> nat" where
  "calls_admitted P cs oks = length (filter (\<lambda>(c, ok). P c \<and> ok) (zip cs oks))"

lemma calls_admitted_simps [simp]:
  "calls_admitted P [] oks = 0"
  "calls_admitted P (c # cs) (ok # oks) = of_bool (P c \<and> ok) + calls_admitted P cs oks"
  by (auto simp: calls_admitted_def)

lemma call_of_key:
  "well_keyed c \<Longrightarrow> no_colon com \<Longrightarrow> no_colon pk \<Longrightarrow> call_key c = rate_limit_key com pk t \<longleftrightarrow> call_of com pk t c"
  using ip_key_not_rate_key [of com] rate_key_not_replay_key [of com]
  by (cases c) (auto simp: rate_limit_key_inj, metis+)

lemma check_principal_run:
  "check_principal R u com pk t w limit db =
     (let (r, db') = run_rate_limit R u (rate_limit_key com pk t) w limit db
      in (case r of Inr x \<Rightarrow> if rl_allowed x then Ok () else Err (Exceeded (rl_reset_in_secs x)) | Inl _ \<Rightarrow> Err Unavailable, db'))"
  by (simp add: check_principal_def check_and_increment_def)

lemma check_principal_admitted:
  assumes "run_rate_limit R u (rate_limit_key com pk t) w limit db = (r, db')"
  shows "do_call R (PrincipalCall u com pk t w limit) db = (admitted r, db')"
  using assms by (auto simp: check_principal_run admitted_def is_ok_def split: sum.split)

lemma script_only_changes:
  assumes laws: "redis_laws R view"
  shows "only_changes view k db (snd (RATE_LIMIT_SCRIPT R t k s db))"
proof -
  obtain n db1 where incr: "rd_incr R t k db = (n, db1)" by fastforce
  with redis_lawsD(2) [OF laws] have "only_changes view k db db1" unfolding incr_law_def by blast
  moreover have "only_changes view k db1 (rd_expire R t k s db1)"
    using redis_lawsD(3) [OF laws] unfolding expire_law_def by blast
  ultimately show ?thesis
    using incr only_changes_trans [of view k db db1] by (auto simp: RATE_LIMIT_SCRIPT_def Let_def)
qed

lemma run_rate_limit_only_changes:
  assumes laws: "redis_laws R view" and run: "run_rate_limit R u k w limit db = (r, db')"
  shows "only_changes view k db db'"
proof -
  obtain n ttl db1 where script: "RATE_LIMIT_SCRIPT R (ru_now u) k (as_i64 w) db = ((n, ttl), db1)" by (metis surj_pair)
  with script_only_changes [OF laws, of k db "ru_now u" "as_i64 w"] have "only_changes view k db db1" by simp
  moreover have "only_changes view k db1 (rd_expire R (ru_now u) k (as_i64 w) db1)"
    using redis_lawsD(3) [OF laws] unfolding expire_law_def by blast
  ultimately show ?thesis
    by - (rule run_rate_limit_cases [OF script run]; auto intro: only_changes_trans)
qed

lemma set_nx_only_changes:
  assumes "redis_laws R view" "0 < s" shows "only_changes view k db (snd (rd_set_nx_ex R t k x s db))"
  using redis_lawsD(5) [OF assms(1)] assms(2) unfolding set_nx_law_def by (metis prod.collapse)

definition replay_ttl :: "nat \<Rightarrow> nat" where
  "replay_ttl ttl = min (max ttl DEFAULT_REPLAY_TTL_SECS) MAX_REPLAY_TTL_SECS"

lemma replay_ttl_bounds: "120 \<le> replay_ttl ttl" "replay_ttl ttl \<le> 3600"
  by (simp_all add: replay_ttl_def DEFAULT_REPLAY_TTL_SECS_def MAX_REPLAY_TTL_SECS_def)

lemma do_call_only_changes:
  assumes laws: "redis_laws R view" and "do_call R c db = (ok, db')"
  shows "only_changes view (call_key c) db db'"
proof (cases c)
  case (PrincipalCall u com pk t w limit)
  obtain r db1 where run: "run_rate_limit R u (rate_limit_key com pk t) w limit db = (r, db1)" by fastforce
  with assms(2) PrincipalCall run_rate_limit_only_changes [OF laws run] check_principal_admitted [OF run] show ?thesis by simp
next
  case (IpCall u ip w limit)
  obtain r db1 where run: "run_rate_limit R u (ip_rate_limit_key ip) w limit db = (r, db1)" by fastforce
  with assms(2) IpCall run_rate_limit_only_changes [OF laws run] show ?thesis by (simp add: check_ip_connection_def)
next
  case (MarkCall u scope i ttl)
  with assms(2) have "db' \<in> {db, snd (rd_set_nx_ex R (ru_now u) (call_key c) ''1'' (replay_ttl ttl) db)}"
    by (auto simp: try_mark_in_scope_def replay_ttl_def Let_def split: prod.splits redis_outcome.splits option.splits if_splits)
  with set_nx_only_changes [OF laws, of "replay_ttl ttl" "call_key c"] replay_ttl_bounds [of ttl] show ?thesis by force
qed

lemma other_keys_kept:
  "redis_laws R view \<Longrightarrow> do_call R c db = (ok, db') \<Longrightarrow> call_key c \<noteq> k \<Longrightarrow> view db' t k = view db t k"
  using do_call_only_changes [of R view c db ok db'] by (auto simp: only_changes_def)

lemma principal_call_quota:
  assumes "redis_laws R view" "0 < w" "w < 2 ^ 63" "call_of com pk lt c" "budget w L c"
    and "T < ru_now (call_use c) + 1000 * w" "do_call R c db = (ok, db')"
  shows "of_bool ok + quota_left L T (view db' (ru_now (call_use c)) (rate_limit_key com pk lt))
    \<le> quota_left L T (view db (ru_now (call_use c)) (rate_limit_key com pk lt))"
proof -
  from assms(4,5) obtain u limit where c: "c = PrincipalCall u com pk lt w limit" "limit \<le> L" by (cases c) auto
  obtain r db1 where run: "run_rate_limit R u (rate_limit_key com pk lt) w limit db = (r, db1)" by fastforce
  from assms(7) c(1) check_principal_admitted [OF run] have "ok = admitted r" "db' = db1" by auto
  with run_rate_limit_quota [OF assms(1-3) _ c(2) run] assms(6) c(1) show ?thesis by simp
qed

definition call_time :: "redis_call \<Rightarrow> nat" where
  "call_time c = ru_now (call_use c)"

lemma run_calls_quota:
  assumes laws: "redis_laws R view" and w: "0 < w" "w < 2 ^ 63" and ids: "no_colon com" "no_colon pk"
  shows "sorted (t # map call_time cs) \<Longrightarrow> list_all well_keyed cs \<Longrightarrow>
    list_all (\<lambda>c. call_of com pk lt c \<longrightarrow> budget w L c) cs \<Longrightarrow> list_all (\<lambda>c. call_time c \<le> T) cs \<Longrightarrow> T < t + 1000 * w \<Longrightarrow>
    calls_admitted (call_of com pk lt) cs (fst (run_calls R cs db)) \<le> quota_left L T (view db t (rate_limit_key com pk lt))"
proof (induction cs arbitrary: t db)
  case (Cons c cs)
  let ?k = "rate_limit_key com pk lt" and ?t = "call_time c"
  obtain ok db' where call: "do_call R c db = (ok, db')" by fastforce
  obtain oks db'' where rest: "run_calls R cs db' = (oks, db'')" by fastforce
  from Cons.prems have "t \<le> ?t" "?t \<le> T" by auto
  then have aged: "quota_left L T (view db ?t ?k) \<le> quota_left L T (view db t ?k)"
    by (intro quota_left_ages redis_lawsD [OF laws])
  have IH: "calls_admitted (call_of com pk lt) cs oks \<le> quota_left L T (view db' ?t ?k)"
    using Cons.IH [of ?t db'] Cons.prems \<open>t \<le> ?t\<close> rest by simp
  have "of_bool (call_of com pk lt c \<and> ok) + quota_left L T (view db' ?t ?k) \<le> quota_left L T (view db ?t ?k)"
  proof (cases "call_of com pk lt c")
    case True
    then show ?thesis
      using principal_call_quota [OF laws w True _ _ call, of L T] Cons.prems \<open>t \<le> ?t\<close> by (simp add: call_time_def)
  next
    case False
    then have "call_key c \<noteq> ?k" using call_of_key [of c com pk lt] ids Cons.prems(2) by simp
    from other_keys_kept [OF laws call this] False show ?thesis by simp
  qed
  with aged IH show ?case by (simp add: call rest)
qed simp

lemma principal_call_answered:
  assumes "redis_laws R view" "0 < w" "w < 2 ^ 63" "ru_outcome u = Answered" "ru_repair u = Answered"
    and "do_call R (PrincipalCall u com pk lt w limit) db = (ok, db')"
  shows "(ok \<longleftrightarrow> used (view db (ru_now u) (rate_limit_key com pk lt)) < limit) \<and>
    used (view db' (ru_now u) (rate_limit_key com pk lt)) = used (view db (ru_now u) (rate_limit_key com pk lt)) + 1"
proof -
  obtain r db1 where run: "run_rate_limit R u (rate_limit_key com pk lt) w limit db = (r, db1)" by fastforce
  from assms(6) check_principal_admitted [OF run] have "ok = admitted r" "db' = db1" by auto
  with run_rate_limit_answered [OF assms(1-5) run] show ?thesis by simp
qed

text \<open>A principal's call that the service answers, with a positive window and a limit of at least \<open>L\<close>.\<close>

fun served :: "nat \<Rightarrow> redis_call \<Rightarrow> bool" where
  "served L (PrincipalCall u _ _ _ w limit) \<longleftrightarrow>
     ru_outcome u = Answered \<and> ru_repair u = Answered \<and> 0 < w \<and> w < 2 ^ 63 \<and> L \<le> limit"
| "served _ _ \<longleftrightarrow> False"

lemma run_calls_served:
  assumes laws: "redis_laws R view" and ids: "no_colon com" "no_colon pk"
  shows "sorted (t # map call_time cs) \<Longrightarrow> list_all well_keyed cs \<Longrightarrow>
    list_all (\<lambda>c. call_of com pk lt c \<longrightarrow> served L c) cs \<Longrightarrow>
    used (view db t (rate_limit_key com pk lt)) + length (filter (call_of com pk lt) cs) \<le> L \<Longrightarrow>
    calls_admitted (call_of com pk lt) cs (fst (run_calls R cs db)) = length (filter (call_of com pk lt) cs)"
proof (induction cs arbitrary: t db)
  case (Cons c cs)
  let ?k = "rate_limit_key com pk lt" and ?t = "call_time c"
  obtain ok db' where call: "do_call R c db = (ok, db')" by fastforce
  obtain oks db'' where rest: "run_calls R cs db' = (oks, db'')" by fastforce
  from Cons.prems have "t \<le> ?t" by auto
  then have aged: "used (view db ?t ?k) \<le> used (view db t ?k)" by (intro used_ages redis_lawsD [OF laws])
  have "(call_of com pk lt c \<longrightarrow> ok) \<and> used (view db' ?t ?k) = used (view db ?t ?k) + of_bool (call_of com pk lt c)"
  proof (cases "call_of com pk lt c")
    case True
    with Cons.prems(3) obtain u w limit where c: "c = PrincipalCall u com pk lt w limit" "served L c" by (cases c) auto
    with principal_call_answered [OF laws, of w u com pk lt limit db ok db'] call True aged Cons.prems(4) show ?thesis
      by (simp add: call_time_def)
  next
    case False
    then have "call_key c \<noteq> ?k" using call_of_key [of c com pk lt] ids Cons.prems(2) by simp
    from other_keys_kept [OF laws call this] False show ?thesis by simp
  qed
  moreover from this aged Cons.prems(4)
  have "used (view db' ?t ?k) + length (filter (call_of com pk lt) cs) \<le> L" by (auto split: if_splits)
  with Cons.IH [of ?t db'] Cons.prems \<open>t \<le> ?t\<close>
  have "calls_admitted (call_of com pk lt) cs (fst (run_calls R cs db')) = length (filter (call_of com pk lt) cs)" by simp
  ultimately show ?case by (auto simp: call rest)
qed simp

section \<open>Replays\<close>

lemma mark_accepted:
  assumes laws: "redis_laws R view" and mark: "try_mark_in_scope R u scope i ttl db = (Ok True, db')"
  shows "view db (ru_now u) (nip98_replay_key_for_scope scope i) = None \<and>
    (\<exists>v. view db' (ru_now u) (nip98_replay_key_for_scope scope i) = Some (v, Some (ru_now u + 1000 * replay_ttl ttl)))"
proof -
  let ?k = "nip98_replay_key_for_scope scope i"
  have "rd_set_nx_ex R (ru_now u) ?k ''1'' (replay_ttl ttl) db = (Some ''OK'', db')"
    using mark by (auto simp: try_mark_in_scope_def replay_ttl_def split: prod.splits redis_outcome.splits option.splits if_splits)
  moreover have "0 < replay_ttl ttl" using replay_ttl_bounds(1) [of ttl] by simp
  ultimately show ?thesis
    using redis_lawsD(5) [OF laws] unfolding set_nx_law_def by (metis option.distinct(1))
qed

lemma alive_until: "keys_age view \<Longrightarrow> view db t k = Some (v, Some e) \<Longrightarrow> t \<le> t' \<Longrightarrow> t' < e \<Longrightarrow> view db t' k = Some (v, Some e)"
  unfolding keys_age_def by (metis not_less old.prod.inject option.inject)

lemma set_nx_taken:
  assumes "redis_laws R view" "0 < s" "view db t k \<noteq> None"
  shows "view (snd (rd_set_nx_ex R t k x s db)) t k = view db t k"
proof -
  obtain reply db' where set: "rd_set_nx_ex R t k x s db = (reply, db')" by fastforce
  with redis_lawsD(5) [OF assms(1)] assms(2)
  have "if view db t k = None then reply = Some ''OK'' \<and> (\<exists>v. view db' t k = Some (v, Some (t + 1000 * s)))
    else reply = None \<and> view db' t k = view db t k"
    unfolding set_nx_law_def by blast
  with set assms(3) show ?thesis by simp
qed

lemma mark_kept:
  assumes laws: "redis_laws R view" and key: "no_colon scope" "well_keyed c" and call: "do_call R c db = (ok, db')"
    and alive: "view db (call_time c) (nip98_replay_key_for_scope scope i) = Some x"
  shows "view db' (call_time c) (nip98_replay_key_for_scope scope i) = Some x"
proof (cases "call_key c = nip98_replay_key_for_scope scope i")
  case True
  let ?k = "nip98_replay_key_for_scope scope i"
  from True key obtain u ttl where c: "c = MarkCall u scope i ttl"
    using rate_key_not_replay_key [of _ scope] ip_key_not_replay_key [of scope] by (cases c) (auto simp: replay_key_inj)
  with call have "db' \<in> {db, snd (rd_set_nx_ex R (ru_now u) ?k ''1'' (replay_ttl ttl) db)}"
    by (auto simp: try_mark_in_scope_def replay_ttl_def Let_def split: prod.splits redis_outcome.splits option.splits if_splits)
  moreover have "view (snd (rd_set_nx_ex R (ru_now u) ?k ''1'' (replay_ttl ttl) db)) (ru_now u) ?k = view db (ru_now u) ?k"
    if "view db (ru_now u) ?k \<noteq> None"
    using set_nx_taken [OF laws _ that] replay_ttl_bounds(1) [of ttl] by simp
  ultimately show ?thesis using alive c by (auto simp: call_time_def)
next
  case False
  with other_keys_kept [OF laws call] alive show ?thesis by simp
qed

lemma mark_survives:
  assumes laws: "redis_laws R view" and scope: "no_colon scope"
  shows "view db t (nip98_replay_key_for_scope scope i) = Some (v, Some e) \<Longrightarrow> sorted (t # map call_time cs @ [t']) \<Longrightarrow>
    list_all well_keyed cs \<Longrightarrow> t' < e \<Longrightarrow>
    view (snd (run_calls R cs db)) t' (nip98_replay_key_for_scope scope i) = Some (v, Some e)"
proof (induction cs arbitrary: t db)
  case Nil
  then show ?case using alive_until [OF redis_lawsD(1) [OF laws] Nil.prems(1), of t'] by simp
next
  case (Cons c cs)
  let ?k = "nip98_replay_key_for_scope scope i"
  obtain ok db' where call: "do_call R c db = (ok, db')" by fastforce
  have "view db (call_time c) ?k = Some (v, Some e)"
    using alive_until [OF redis_lawsD(1) [OF laws] Cons.prems(1)] Cons.prems(2,4) by auto
  with mark_kept [OF laws scope _ call] Cons.prems(3) have "view db' (call_time c) ?k = Some (v, Some e)" by simp
  with Cons.IH [of db' "call_time c"] Cons.prems show ?case by (auto simp: call split: prod.split)
qed

lemma abs_diff_le: "abs_diff a b \<le> n \<longleftrightarrow> unat a \<le> unat b + n \<and> unat b \<le> unat a + n"
  by (auto simp: abs_diff_def word_le_nat_alt)

text \<open>What a request that passes the gates has shown.\<close>

lemma http_gates_passed:
  assumes "http_gates R H limits tok now a m com rq db = (Ok (pk, i), db')"
  obtains db1 where "verify_bridge_auth H (of_nat (now div 1000)) rq tok = Ok (pk, i)"
    "enforce_http_admission R limits a com pk db = (Ok (), db1)" "check_nip98_replay R m com i db1 = (Ok (), db')"
  using assms by (auto simp: http_gates_def and_then_Inr split: sum.splits prod.splits)

definition header_event :: "http_env \<Rightarrow> http_request \<Rightarrow> event option" where
  "header_event H rq =
     Option.bind (hr_authorization rq) (\<lambda>a. Option.bind (strip_prefix ''Nostr '' a) (\<lambda>s. Option.bind (he_base64 H s) (\<lambda>b.
       Option.bind (he_utf8 H b) (\<lambda>json. case ae_event_from_json (he_auth H) json of Inr ev \<Rightarrow> Some ev | Inl _ \<Rightarrow> None))))"

lemma bridge_auth_fresh:
  assumes "verify_bridge_auth H now rq True = Ok (pk, i)"
  shows "\<exists>ev. header_event H rq = Some ev \<and> ev_id ev = i \<and> abs_diff now (ev_created_at ev) \<le> 60"
proof -
  from assms obtain auth_str bytes json ev where
    auth: "Option.bind (hr_authorization rq) (strip_prefix ''Nostr '') = Some auth_str" "he_base64 H auth_str = Some bytes"
      "he_utf8 H bytes = Some json" "ae_event_from_json (he_auth H) json = Ok ev" "i = ev_id ev"
    and ok: "verify_nip98_event (he_auth H) now json (hr_url rq) (hr_method rq) (hr_body rq) = Ok pk"
    by (auto simp: verify_bridge_auth_def verify_bridge_auth_with_options_def and_then_Inr ok_or_Inr map_err_Inr
        split: option.splits if_splits)
  from ok auth(4) have "abs_diff now (ev_created_at ev) \<le> 60"
    by (auto simp: verify_nip98_event_def and_then_Inr TIMESTAMP_TOLERANCE_SECS_def split: if_splits)
  with auth show ?thesis by (auto simp: header_event_def bind_eq_Some_conv)
qed

lemma http_admission_call:
  "enforce_http_admission R limits a com pk db = (Ok (), db1) \<longleftrightarrow>
   do_call R (PrincipalCall a com pk ApiCalls 60 (human_api_calls_per_min limits)) db = (True, db1)"
  by (auto simp: enforce_http_admission_def is_ok_def split: prod.splits sum.splits admission_error.splits)

lemma check_replay_mark:
  "check_nip98_replay R m com i db = (Ok (), db') \<Longrightarrow> i \<noteq> ZERO_EVENT_ID \<Longrightarrow> try_mark_in_scope R m com i 120 db = (Ok True, db')"
  by (auto simp: check_nip98_replay_def try_mark_def DEFAULT_REPLAY_TTL_SECS_def split: prod.splits sum.splits bool.splits)

text \<open>Two accepted marks of one event in one scope are as far apart as the marker lives.\<close>

lemma marks_apart:
  assumes laws: "redis_laws R view" and "no_colon scope" "list_all well_keyed cs"
    and "try_mark_in_scope R m1 scope i ttl db = (Ok True, db')"
    and "try_mark_in_scope R m2 scope i ttl' (snd (run_calls R cs db')) = (Ok True, db'')"
    and "sorted (ru_now m1 # map call_time cs @ [ru_now m2])"
  shows "ru_now m1 + 1000 * replay_ttl ttl \<le> ru_now m2"
proof (rule ccontr)
  let ?k = "nip98_replay_key_for_scope scope i"
  assume "\<not> ru_now m1 + 1000 * replay_ttl ttl \<le> ru_now m2"
  moreover obtain v where "view db' (ru_now m1) ?k = Some (v, Some (ru_now m1 + 1000 * replay_ttl ttl))"
    using mark_accepted [OF laws assms(4)] by blast
  ultimately have "view (snd (run_calls R cs db')) (ru_now m2) ?k \<noteq> None"
    using mark_survives [OF laws assms(2), of db' "ru_now m1" i v _ cs "ru_now m2"] assms(3,6) by simp
  with mark_accepted [OF laws assms(5)] show False by simp
qed

lemma run_calls_append: "snd (run_calls R (cs @ [c]) db) = snd (do_call R c (snd (run_calls R cs db)))"
  by (induction cs arbitrary: db) (auto split: prod.splits, metis snd_conv)

section \<open>Properties\<close>

text \<open>
  C10: The fixed window bounds what a principal is admitted for. In any interval shorter than
  the window, over any interleaving of the calls of all processes, principals and kinds of
  limit, with lost answers and failed repairs, at most twice the limit of a principal's calls
  is admitted.
\<close>

theorem admission_bounded:
  assumes "redis_laws R view" "0 < w" "w < 2 ^ 63" "no_colon com" "no_colon pk"
    and "sorted (t # map call_time cs)" "list_all (\<lambda>c. call_time c < t + 1000 * w) cs" "list_all well_keyed cs"
    and "list_all (\<lambda>c. call_of com pk lt c \<longrightarrow> budget w L c) cs"
  shows "calls_admitted (call_of com pk lt) cs (fst (run_calls R cs db)) \<le> 2 * L"
proof -
  let ?T = "t + 1000 * w - 1"
  have "list_all (\<lambda>c. call_time c \<le> ?T) cs" using assms(7) by (auto simp: list_all_iff)
  then have "calls_admitted (call_of com pk lt) cs (fst (run_calls R cs db)) \<le> quota_left L ?T (view db t (rate_limit_key com pk lt))"
    using run_calls_quota [OF assms(1-6,8,9)] assms(2) by simp
  then show ?thesis using quota_left_le by (rule order_trans)
qed

text \<open>
  C27: Nobody else can use up a principal's quota. When the service answers, a principal whose
  key has room for its calls has every one of them admitted, whatever calls of other
  principals, communities and kinds are interleaved.
\<close>

theorem quota_is_private:
  assumes "redis_laws R view" "no_colon com" "no_colon pk"
    and "sorted (t # map call_time cs)" "list_all well_keyed cs" "list_all (\<lambda>c. call_of com pk lt c \<longrightarrow> served L c) cs"
    and "used (view db t (rate_limit_key com pk lt)) + length (filter (call_of com pk lt) cs) \<le> L"
  shows "calls_admitted (call_of com pk lt) cs (fst (run_calls R cs db)) = length (filter (call_of com pk lt) cs)"
  using assms by (rule run_calls_served)

text \<open>
  C11: An HTTP authorization is used once, up to the last second of its life. When the same
  authorization header passes the gates of a community twice, whatever happens in between, the
  second request was marked no earlier than 60 seconds after the time the event was signed
  for, although it was verified no later than that second.
\<close>

theorem replay_only_in_the_last_second:
  assumes laws: "redis_laws R view" and "no_colon com" "no_colon pk2"
    and first: "http_gates R H limits True now1 a1 m1 com rq1 db1 = (Ok (pk1, i), db2)" "i \<noteq> ZERO_EVENT_ID"
    and calls: "list_all well_keyed cs"
    and second: "http_gates R H limits True now2 a2 m2 com rq2 (snd (run_calls R cs db2)) = (Ok (pk2, i2), db4)"
    and same: "hr_authorization rq1 = hr_authorization rq2"
    and times: "now1 \<le> ru_now m1" "sorted (ru_now m1 # map call_time cs @ [ru_now a2, ru_now m2])"
      "now2 \<le> ru_now m2" "ru_now m2 div 1000 < 2 ^ 64"
  shows "\<exists>ev. header_event H rq1 = Some ev \<and> ev_id ev = i \<and>
    now2 div 1000 \<le> unat (ev_created_at ev) + 60 \<and> unat (ev_created_at ev) + 60 \<le> ru_now m2 div 1000"
proof -
  obtain b1 where one: "verify_bridge_auth H (of_nat (now1 div 1000)) rq1 True = Ok (pk1, i)" "check_nip98_replay R m1 com i b1 = (Ok (), db2)"
    using http_gates_passed [OF first(1)] by metis
  obtain b2 where two: "verify_bridge_auth H (of_nat (now2 div 1000)) rq2 True = Ok (pk2, i2)"
    "enforce_http_admission R limits a2 com pk2 (snd (run_calls R cs db2)) = (Ok (), b2)" "check_nip98_replay R m2 com i2 b2 = (Ok (), db4)"
    using http_gates_passed [OF second] by metis
  have "header_event H rq1 = header_event H rq2" using same by (simp add: header_event_def)
  then obtain ev where ev: "header_event H rq1 = Some ev" "ev_id ev = i" "i2 = i"
    and fresh: "abs_diff (of_nat (now1 div 1000)) (ev_created_at ev) \<le> 60" "abs_diff (of_nat (now2 div 1000)) (ev_created_at ev) \<le> 60"
    using bridge_auth_fresh [OF one(1)] bridge_auth_fresh [OF two(1)] by auto
  let ?cs = "cs @ [PrincipalCall a2 com pk2 ApiCalls 60 (human_api_calls_per_min limits)]"
  have "snd (run_calls R ?cs db2) = b2" using two(2) by (simp only: http_admission_call run_calls_append snd_conv)
  then have "ru_now m1 + 1000 * replay_ttl 120 \<le> ru_now m2"
    using marks_apart [OF laws assms(2), of ?cs m1 i 120 b1 db2 m2 120 db4]
      check_replay_mark [OF one(2) first(2)] check_replay_mark [OF two(3)] ev first(2) calls times assms(2,3)
    by (simp add: call_time_def)
  then have late: "ru_now m1 div 1000 + 120 \<le> ru_now m2 div 1000" using replay_ttl_bounds(1) [of 120] by linarith
  have secs: "unat (of_nat (n div 1000) :: u64) = n div 1000" if "n \<le> ru_now m2" for n
    using times(4) div_le_mono [OF that, of 1000] by (simp add: unsigned_of_nat take_bit_nat_eq_self)
  have "now1 \<le> ru_now m2" using times by auto
  with fresh secs times(1,3) late have "now2 div 1000 \<le> unat (ev_created_at ev) + 60" "unat (ev_created_at ev) + 60 \<le> ru_now m2 div 1000"
    using div_le_mono [OF times(1), of 1000] by (auto simp: abs_diff_le)
  with ev show ?thesis by blast
qed

section \<open>A concrete store\<close>

text \<open>Keys with value and expiry; a key is gone when the clock has passed its expiry.\<close>

type_synonym store = "(string, nat \<times> nat option) hashmap"

definition store_view :: "store view" where
  "store_view db t k =
     (case map_of db k of
        Some (v, Some e) \<Rightarrow> if t > e then None else Some (v, Some e)
      | x \<Rightarrow> x)"

definition store_redis :: "store redis" where
  "store_redis = \<lparr>
     rd_incr = (\<lambda>t k db. case store_view db t k of
        None \<Rightarrow> (1, hm_insert k (1, None) db) | Some (v, e) \<Rightarrow> (v + 1, hm_insert k (v + 1, e) db)),
     rd_expire = (\<lambda>t k s db. case store_view db t k of
        None \<Rightarrow> db | Some (v, _) \<Rightarrow> if 0 < s then hm_insert k (v, Some (t + 1000 * nat s)) db else hm_remove k db),
     rd_ttl = (\<lambda>t k db. case store_view db t k of None \<Rightarrow> -2 | Some (_, None) \<Rightarrow> -1 | Some (_, Some e) \<Rightarrow> int ((e - t + 500) div 1000)),
     rd_set_nx_ex = (\<lambda>t k x s db. if store_view db t k = None then (Some ''OK'', hm_insert k (1, Some (t + 1000 * s)) db) else (None, db))\<rparr>"

lemma store_view_insert:
  "store_view (hm_insert k (v, e) db) t k' =
     (if k' = k then (case e of Some e \<Rightarrow> if t > e then None else Some (v, Some e) | None \<Rightarrow> Some (v, None)) else store_view db t k')"
  by (simp add: store_view_def split: option.split)

lemma store_view_remove: "store_view (hm_remove k db) t k' = (if k' = k then None else store_view db t k')"
  by (simp add: store_view_def)

lemma store_view_alive: "store_view db t k = Some (v, Some e) \<Longrightarrow> t \<le> e"
  by (auto simp: store_view_def split: option.splits if_splits)

lemma store_laws: "redis_laws store_redis store_view"
  unfolding redis_laws_def
proof (intro conjI)
  show "keys_age store_view"
    by (auto simp: keys_age_def store_view_def split: option.splits prod.splits if_splits)
  show "incr_law store_redis store_view"
    by (auto simp: incr_law_def only_changes_def store_redis_def store_view_insert split: option.splits prod.splits
        dest: store_view_alive)
  show "expire_law store_redis store_view"
    by (auto simp: expire_law_def only_changes_def store_redis_def store_view_insert store_view_remove
        split: option.splits prod.splits)
  show "ttl_law store_redis store_view"
    by (auto simp: ttl_law_def store_redis_def split: option.splits)
  show "set_nx_law store_redis store_view"
    by (auto simp: set_nx_law_def only_changes_def store_redis_def store_view_insert split: if_splits)
qed

definition at_time :: "nat \<Rightarrow> redis_use" where
  "at_time t = \<lparr>ru_now = t, ru_outcome = Answered, ru_repair = Answered\<rparr>"

text \<open>Three calls with limit one; the window passes between the second and the third.\<close>

definition burst :: "redis_call list" where
  "burst = map (\<lambda>t. PrincipalCall (at_time t) ''com'' ''agent'' ApiCalls 60 1) [58000, 59000, 61000]"

theorem admission_bounded_witness:
  "calls_admitted (call_of ''com'' ''agent'' ApiCalls) burst (fst (run_calls store_redis burst [])) \<le> 2 * 1"
  by (rule admission_bounded [where t = 58000 and w = 60, OF store_laws])
    (simp_all add: burst_def at_time_def call_time_def no_colon_def)

theorem quota_is_private_witness:
  "calls_admitted (call_of ''com'' ''agent'' ApiCalls) [PrincipalCall (at_time 5) ''com'' ''other'' ApiCalls 60 1, PrincipalCall (at_time 6) ''com'' ''agent'' ApiCalls 60 1]
     (fst (run_calls store_redis [PrincipalCall (at_time 5) ''com'' ''other'' ApiCalls 60 1, PrincipalCall (at_time 6) ''com'' ''agent'' ApiCalls 60 1] [])) = 1"
  using quota_is_private [OF store_laws, of "''com''" "''agent''" 5
      "[PrincipalCall (at_time 5) ''com'' ''other'' ApiCalls 60 1, PrincipalCall (at_time 6) ''com'' ''agent'' ApiCalls 60 1]" ApiCalls 1 "[]"]
  by (simp add: at_time_def call_time_def no_colon_def store_view_def)

text \<open>A signed request for time 1060, and its acceptance at any time within a minute of it.\<close>

definition signed_request :: event where
  "signed_request = \<lparr>ev_id = ''e'', ev_pubkey = ''agent'', ev_created_at = 1060, ev_kind = 27235,
     ev_tags = [text_tag [''u'', ''http://h/query''], text_tag [''method'', ''POST'']], ev_content = []\<rparr>"

definition sample_http :: http_env where
  "sample_http = \<lparr>he_auth = sample_auth\<lparr>ae_to_lowercase := (\<lambda>s. s), ae_event_from_json := (\<lambda>_. Ok signed_request)\<rparr>,
     he_base64 = (\<lambda>_. Some []), he_utf8 = (\<lambda>_. Some ''{}''), he_pubkey_from_hex = (\<lambda>_. None), he_debug = (\<lambda>_. [])\<rparr>"

definition query_request :: http_request where
  "query_request = \<lparr>hr_authorization = Some ''Nostr e30='', hr_x_pubkey = None, hr_method = ''POST'', hr_url = ''http://h/query'', hr_body = None\<rparr>"

definition ask :: "nat \<Rightarrow> store \<Rightarrow> (pubkey \<times> event_id, http_error) result \<times> store" where
  "ask t db = http_gates store_redis sample_http rate_limit_config_default True t (at_time t) (at_time t) ''com'' query_request db"

lemma signed_request_verifies:
  assumes "1000 \<le> secs" "secs \<le> 1120"
  shows "verify_bridge_auth sample_http (of_nat secs) query_request True = Ok (''agent'', ''e'')"
proof -
  have "\<not> abs_diff (of_nat secs) 1060 > 60"
    using assms by (simp add: not_less abs_diff_le unsigned_of_nat take_bit_nat_eq_self)
  then show ?thesis
    by (simp add: verify_bridge_auth_def verify_bridge_auth_with_options_def verify_nip98_event_def query_request_def sample_http_def
        sample_auth_def signed_request_def strip_prefix_def text_tag_def find_tag_content_def verify_event_def is_ok_def
        TIMESTAMP_TOLERANCE_SECS_def normalize_url_def eq_ignore_ascii_case_def)
qed

lemma store_view_expired: "store_view db t k = Some (v, Some e) \<Longrightarrow> e < t' \<Longrightarrow> store_view db t' k = None"
  by (auto simp: store_view_def split: option.splits if_splits)

lemma short_id: "length i < 64 \<Longrightarrow> i \<noteq> ZERO_EVENT_ID"
  by (auto simp: ZERO_EVENT_ID_def)

lemma ask_accepted:
  assumes "1000 \<le> t div 1000" "t div 1000 \<le> 1120"
    and room: "used (store_view db t (rate_limit_key ''com'' ''agent'' ApiCalls)) < 300"
    and unseen: "store_view db t (nip98_replay_key_for_scope ''com'' ''e'') = None"
  shows "fst (ask t db) = Ok (''agent'', ''e'') \<and>
    (\<exists>v. store_view (snd (ask t db)) t (nip98_replay_key_for_scope ''com'' ''e'') = Some (v, Some (t + 120000))) \<and>
    used (store_view (snd (ask t db)) t (rate_limit_key ''com'' ''agent'' ApiCalls)) \<le> 
    used (store_view db t (rate_limit_key ''com'' ''agent'' ApiCalls)) + 1"
proof -
  let ?rk = "nip98_replay_key_for_scope ''com'' ''e''" and ?qk = "rate_limit_key ''com'' ''agent'' ApiCalls"
  have not_zero: "''e'' \<noteq> ZERO_EVENT_ID" by (rule short_id) simp
  let ?call = "PrincipalCall (at_time t) ''com'' ''agent'' ApiCalls 60 300"
  have keys: "?qk \<noteq> ?rk" by (rule rate_key_not_replay_key) (simp_all add: no_colon_def)
  obtain ok db1 where call: "do_call store_redis ?call db = (ok, db1)" by fastforce
  then have admission: "ok" "used (store_view db1 t ?qk) = used (store_view db t ?qk) + 1"
    using principal_call_answered [OF store_laws, of 60 "at_time t"] room by (fastforce simp: at_time_def)+
  have "store_view db1 t ?rk = None" using other_keys_kept [OF store_laws call] keys unseen by simp
  then have mark: "check_nip98_replay store_redis (at_time t) ''com'' ''e'' db1 = (Ok (), hm_insert ?rk (1, Some (t + 120000)) db1)"
    by (simp add: check_nip98_replay_def try_mark_def try_mark_in_scope_def store_redis_def at_time_def
        DEFAULT_REPLAY_TTL_SECS_def MAX_REPLAY_TTL_SECS_def not_zero)
  have "enforce_http_admission store_redis rate_limit_config_default (at_time t) ''com'' ''agent'' db = (Ok (), db1)"
    using call admission(1) by (simp only: http_admission_call) (simp add: rate_limit_config_default_def)
  with mark have "ask t db = (Ok (''agent'', ''e''), hm_insert ?rk (1, Some (t + 120000)) db1)"
    by (simp add: ask_def http_gates_def signed_request_verifies assms)
  with keys admission(2) show ?thesis by (simp add: store_view_insert)
qed

lemma asked_twice:
  "\<exists>db db'. ask 1000000 [] = (Ok (''agent'', ''e''), db) \<and> ask 1120001 db = (Ok (''agent'', ''e''), db')"
proof -
  let ?db = "snd (ask 1000000 [])" and ?rk = "nip98_replay_key_for_scope ''com'' ''e''" and ?qk = "rate_limit_key ''com'' ''agent'' ApiCalls"
  have first: "fst (ask 1000000 []) = Ok (''agent'', ''e'')" "\<exists>v. store_view ?db 1000000 ?rk = Some (v, Some 1120000)"
    "used (store_view ?db 1000000 ?qk) \<le> 1"
    using ask_accepted [of 1000000 "[]"] by (auto simp: store_view_def)
  have "store_view ?db 1120001 ?rk = None" using first(2) store_view_expired [of ?db 1000000 ?rk _ 1120000 1120001] by auto
  moreover have "used (store_view ?db 1120001 ?qk) \<le> 1"
    using used_ages [OF redis_lawsD(1) [OF store_laws], of 1000000 1120001 ?db ?qk] first(3) by simp
  ultimately have "fst (ask 1120001 ?db) = Ok (''agent'', ''e'')" using ask_accepted [of 1120001 ?db] by simp
  with first(1) show ?thesis by (metis prod.collapse)
qed


text \<open>The two requests meet the exact statement, with equality.\<close>

theorem replay_only_in_the_last_second_witness:
  "\<exists>ev. header_event sample_http query_request = Some ev \<and> ev_id ev = ''e'' \<and>
     (1120001 :: nat) div 1000 \<le> unat (ev_created_at ev) + 60 \<and> unat (ev_created_at ev) + 60 \<le> (1120001 :: nat) div 1000"
proof -
  from asked_twice obtain db db' where asked: "ask 1000000 [] = (Ok (''agent'', ''e''), db)" "ask 1120001 db = (Ok (''agent'', ''e''), db')"
    by blast
  show ?thesis
    using replay_only_in_the_last_second [where cs = "[]" and ?now2.0 = 1120001 and ?a2.0 = "at_time 1120001" and ?m2.0 = "at_time 1120001"
        and ?pk2.0 = "''agent''" and ?i2.0 = "''e''" and ?db4.0 = db' and ?rq2.0 = query_request,
        OF store_laws _ _ asked(1) [unfolded ask_def] short_id] asked(2)
    by (simp add: ask_def at_time_def no_colon_def)
qed

end
