(* ===== verification/Topics.thy ===== *)
theory Topics
  imports Events Prelude
begin

text \<open>
  Interest in cross-node topics (\<open>buzz-pubsub/src/topic.rs\<close>, the reference counts of \<open>lib.rs\<close>
  and the command loop of \<open>subscriber.rs\<close>). A node counts how many live subscriptions want a
  topic; the subscriber task turns the counts into Redis subscriptions. Sending a command is one
  step with the change of the count that causes it; the delay before an unsubscription is a
  list of timers that fire in any order. Whether Redis accepts a call is an argument.
  \<open>Uuid::parse_str\<close> belongs to the \<open>uuid\<close> crate and is an argument too.
\<close>

section \<open>Topic keys\<close>

definition BUZZ_PREFIX :: string where
  "BUZZ_PREFIX = ''buzz''"

datatype event_topic = ChannelTopic uuid | GlobalTopic

record event_topic_key =
  tk_community_id :: uuid
  tk_topic :: event_topic

definition from_context :: "uuid \<Rightarrow> event_topic \<Rightarrow> event_topic_key" where
  "from_context com topic = \<lparr>tk_community_id = com, tk_topic = topic\<rparr>"

definition redis_channel :: "event_topic_key \<Rightarrow> string" where
  "redis_channel key =
     (case tk_topic key of
        ChannelTopic channel_id \<Rightarrow> BUZZ_PREFIX @ '':'' @ tk_community_id key @ '':channel:'' @ channel_id
      | GlobalTopic \<Rightarrow> BUZZ_PREFIX @ '':'' @ tk_community_id key @ '':global'')"

datatype pubsub_error = InvalidChannelKey string

definition parse_scope ::
  "(string \<Rightarrow> uuid option) \<Rightarrow> string \<Rightarrow> string \<Rightarrow> string list \<Rightarrow> (event_topic, pubsub_error) result" where
  "parse_scope parse_uuid channel scope parts =
     (if scope = ''global'' then (if parts \<noteq> [] then Err (InvalidChannelKey channel) else Ok GlobalTopic)
      else if scope = ''channel'' then
        (case parts of
           [channel_id] \<Rightarrow> (case parse_uuid channel_id of Some i \<Rightarrow> Ok (ChannelTopic i) | None \<Rightarrow> Err (InvalidChannelKey channel))
         | _ \<Rightarrow> Err (InvalidChannelKey channel))
      else Err (InvalidChannelKey channel))"

definition parse_redis_channel ::
  "(string \<Rightarrow> uuid option) \<Rightarrow> string \<Rightarrow> (event_topic_key, pubsub_error) result" where
  "parse_redis_channel parse_uuid channel =
     (case split_on CHR '':'' channel of
        prefix' # community # scope # parts \<Rightarrow>
          if prefix' \<noteq> BUZZ_PREFIX then Err (InvalidChannelKey channel)
          else (case parse_uuid community of
                  None \<Rightarrow> Err (InvalidChannelKey channel)
                | Some community_id \<Rightarrow>
                    and_then (parse_scope parse_uuid channel scope parts) (\<lambda>topic.
                      Ok \<lparr>tk_community_id = community_id, tk_topic = topic\<rparr>))
      | _ \<Rightarrow> Err (InvalidChannelKey channel))"

definition channel_key :: "uuid \<Rightarrow> uuid \<Rightarrow> string" where
  "channel_key com channel_id = redis_channel (from_context com (ChannelTopic channel_id))"

definition global_key :: "uuid \<Rightarrow> string" where
  "global_key com = redis_channel (from_context com GlobalTopic)"

section \<open>Reference counts\<close>

datatype subscription_command = SubscribeTopic event_topic_key | UnsubscribeIfIdle event_topic_key

text \<open>\<open>active_topics\<close> belongs to the connection of the subscriber task; \<open>None\<close> is no connection.\<close>

record topics =
  desired_topics :: "(event_topic_key, nat) hashmap"
  subscription_tx :: "subscription_command list"
  debounced :: "event_topic_key list"
  active_topics :: "string list option"

definition topics_new :: topics where
  "topics_new = \<lparr>desired_topics = [], subscription_tx = [], debounced = [], active_topics = None\<rparr>"

definition topic_refcount :: "uuid \<Rightarrow> event_topic \<Rightarrow> topics \<Rightarrow> nat" where
  "topic_refcount com topic tp =
     (case map_of (desired_topics tp) (from_context com topic) of Some n \<Rightarrow> n | None \<Rightarrow> 0)"

definition retain_topic :: "uuid \<Rightarrow> event_topic \<Rightarrow> topics \<Rightarrow> topics" where
  "retain_topic com topic tp =
     (let topic_key = from_context com topic;
          n = (case map_of (desired_topics tp) topic_key of Some n \<Rightarrow> n | None \<Rightarrow> 0);
          tp' = tp\<lparr>desired_topics := hm_insert topic_key (n + 1) (desired_topics tp)\<rparr>
      in if n = 0 then tp'\<lparr>subscription_tx := subscription_tx tp @ [SubscribeTopic topic_key]\<rparr> else tp')"

definition release_topic :: "uuid \<Rightarrow> event_topic \<Rightarrow> topics \<Rightarrow> topics" where
  "release_topic com topic tp =
     (let topic_key = from_context com topic
      in case map_of (desired_topics tp) topic_key of
           None \<Rightarrow> tp
         | Some n \<Rightarrow>
             if n - 1 = 0
             then tp\<lparr>desired_topics := hm_remove topic_key (desired_topics tp), debounced := debounced tp @ [topic_key]\<rparr>
             else tp\<lparr>desired_topics := hm_insert topic_key (n - 1) (desired_topics tp)\<rparr>)"

text \<open>The spawned task after its sleep.\<close>

definition debounce_fires :: "event_topic_key \<Rightarrow> topics \<Rightarrow> topics" where
  "debounce_fires key tp =
     (if key \<in> set (debounced tp)
      then tp\<lparr>debounced := remove1 key (debounced tp), subscription_tx := subscription_tx tp @ [UnsubscribeIfIdle key]\<rparr>
      else tp)"

section \<open>The subscriber task\<close>

definition desired_refcount :: "topics \<Rightarrow> event_topic_key \<Rightarrow> nat" where
  "desired_refcount tp key = (case map_of (desired_topics tp) key of Some n \<Rightarrow> n | None \<Rightarrow> 0)"

text \<open>A new connection subscribes to the topics wanted now; an error leaves it unconnected.\<close>

definition connect_and_subscribe :: "bool \<Rightarrow> topics \<Rightarrow> topics" where
  "connect_and_subscribe ok tp =
     tp\<lparr>active_topics := if ok then Some (map redis_channel (map fst (filter (\<lambda>(_, n). n > 0) (desired_topics tp)))) else None\<rparr>"

definition handle_command :: "bool \<Rightarrow> subscription_command \<Rightarrow> string list \<Rightarrow> topics \<Rightarrow> topics" where
  "handle_command ok command active tp =
     (case command of
        SubscribeTopic key \<Rightarrow>
          (let channel = redis_channel key
           in if channel \<in> set active then tp
              else tp\<lparr>active_topics := if ok then Some (List.insert channel active) else None\<rparr>)
      | UnsubscribeIfIdle key \<Rightarrow>
          if desired_refcount tp key = 0 then
            (let channel = redis_channel key
             in if channel \<in> set active then tp\<lparr>active_topics := if ok then Some (removeAll channel active) else None\<rparr> else tp)
          else tp)"

text \<open>One command of the loop, when there is a connection and a command.\<close>

definition subscriber_step :: "bool \<Rightarrow> topics \<Rightarrow> topics" where
  "subscriber_step ok tp =
     (case (active_topics tp, subscription_tx tp) of
        (Some active, command # rest) \<Rightarrow> handle_command ok command active (tp\<lparr>subscription_tx := rest\<rparr>)
      | _ \<Rightarrow> tp)"

definition stream_ended :: "topics \<Rightarrow> topics" where
  "stream_ended tp = tp\<lparr>active_topics := None\<rparr>"

record channel_event =
  che_community_id :: uuid
  che_topic :: event_topic
  che_event :: event

text \<open>A message of the stream: what is broadcast to the node, if anything.\<close>

definition subscriber_message ::
  "(string \<Rightarrow> uuid option) \<Rightarrow> (string \<Rightarrow> event option) \<Rightarrow> string \<Rightarrow> string option \<Rightarrow> channel_event option" where
  "subscriber_message parse_uuid event_from_json channel_name payload =
     (case payload of
        None \<Rightarrow> None
      | Some payload \<Rightarrow>
          (case parse_redis_channel parse_uuid channel_name of
             Inl _ \<Rightarrow> None
           | Inr key \<Rightarrow>
               (case event_from_json payload of
                  None \<Rightarrow> None
                | Some ev \<Rightarrow> Some \<lparr>che_community_id = tk_community_id key, che_topic = tk_topic key, che_event = ev\<rparr>)))"

definition BACKOFF_INITIAL_SECS :: nat where
  "BACKOFF_INITIAL_SECS = 1"

definition BACKOFF_MAX_SECS :: nat where
  "BACKOFF_MAX_SECS = 30"

text \<open>The delay before the next attempt and the one after it, given whether the stream ended cleanly.\<close>

definition next_backoff :: "bool \<Rightarrow> nat \<Rightarrow> nat \<times> nat" where
  "next_backoff clean backoff_secs =
     (let backoff_secs = (if clean then BACKOFF_INITIAL_SECS else backoff_secs)
      in (backoff_secs, min (backoff_secs * 2) BACKOFF_MAX_SECS))"

end
