(* ===== verification/Requests.thy ===== *)
theory Requests
  imports Auth Delivery ReadGates EventStore Topics
begin

text \<open>
  The request handlers of a connection: REQ (\<open>buzz-relay/src/handlers/req.rs\<close>), COUNT
  (\<open>count.rs\<close>), CLOSE (\<open>close.rs\<close>), the cleanup when a connection ends (\<open>connection.rs\<close>) and the
  eviction of a connection from a channel (\<open>side_effects.rs\<close>). They compose authentication
  state, read gates, caches, the subscription registry, topic interest and the event store.

  What the database, the search index and the channels of the runtime answer during one
  handler is the record \<open>req_env\<close>. The messages a handler passes to \<open>conn.send\<close> are kept in
  order; the outcome of the n-th send is an argument. Conformance traces and metrics are not
  modelled.
\<close>

section \<open>State\<close>

record search_query =
  sq_community :: uuid
  sq_q :: string
  sq_channel_scope :: channel_scope
  sq_kinds :: "int list option"
  sq_authors :: "pubkey list option"
  sq_since :: "int option"
  sq_until :: "int option"
  sq_page :: nat
  sq_per_page :: nat

record req_env =
  re_wire :: wire_env
  re_sends :: "nat \<Rightarrow> try_send"
  re_delivery :: delivery_env
  re_parse_uuid :: "string \<Rightarrow> uuid option"
  re_in_range :: "int \<Rightarrow> bool"
  re_query :: "event_query \<Rightarrow> (stored_event list, string) result"
  re_count :: "event_query \<Rightarrow> (nat, string) result"
  re_search :: "search_query \<Rightarrow> (event_id list, string) result"
  re_fetch :: "uuid \<Rightarrow> event_id list \<Rightarrow> (stored_event list, string) result"

text \<open>\<open>nd_conn_subs\<close> is the \<open>subscriptions\<close> map of each connection.\<close>

record node =
  nd_relay :: relay_state
  nd_topics :: topics
  nd_conn_subs :: "(uuid, (string, nostr_filter list) hashmap) hashmap"

record handler_io =
  io_node :: node
  io_out :: "relay_message list"

definition conn_send :: "req_env \<Rightarrow> connection_state \<Rightarrow> relay_message \<Rightarrow> handler_io \<Rightarrow> bool \<times> handler_io" where
  "conn_send E conn msg io =
     (let relay = nd_relay (io_node io);
          (ok, cm) = send_to (re_sends E (length (io_out io))) (cs_conn_id conn) (we_text (re_wire E) msg) (rl_conns relay)
      in (ok, \<lparr>io_node = (io_node io)\<lparr>nd_relay := relay\<lparr>rl_conns := cm\<rparr>\<rparr>, io_out = io_out io @ [msg]\<rparr>))"

abbreviation conn_tell :: "req_env \<Rightarrow> connection_state \<Rightarrow> relay_message \<Rightarrow> handler_io \<Rightarrow> handler_io" where
  "conn_tell E conn msg io \<equiv> snd (conn_send E conn msg io)"

definition conn_subscriptions :: "node \<Rightarrow> uuid \<Rightarrow> (string, nostr_filter list) hashmap" where
  "conn_subscriptions nd conn_id = (case map_of (nd_conn_subs nd) conn_id of Some m \<Rightarrow> m | None \<Rightarrow> [])"

section \<open>Access of one request\<close>

definition MAX_SUBSCRIPTIONS :: nat where
  "MAX_SUBSCRIPTIONS = 1024"

definition FILTER_QUERY_CONCURRENCY :: nat where
  "FILTER_QUERY_CONCURRENCY = 4"

definition token_allows_channel :: "uuid list option \<Rightarrow> uuid \<Rightarrow> bool" where
  "token_allows_channel token_channel_ids ch = is_none_or (\<lambda>allowed. ch \<in> set allowed) token_channel_ids"

definition narrow_to_token :: "uuid list option \<Rightarrow> uuid list \<Rightarrow> uuid list" where
  "narrow_to_token token_channel_ids accessible =
     (case token_channel_ids of Some allowed \<Rightarrow> filter (\<lambda>ch. ch \<in> set allowed) accessible | None \<Rightarrow> accessible)"

text \<open>The loop that confirms requested channels the cache does not have.\<close>

fun confirm_channels ::
  "req_env \<Rightarrow> uuid \<Rightarrow> pubkey \<Rightarrow> uuid list option \<Rightarrow> uuid list \<Rightarrow> uuid list \<Rightarrow> (uuid list, string) result" where
  "confirm_channels E com pk token [] accessible = Ok accessible"
| "confirm_channels E com pk token (ch # chs) accessible =
     (let token_allows = token_allows_channel token ch
      in if \<not> token_allows \<or> ch \<in> set accessible
         then confirm_channels E com pk token chs (snd (resolve_request_local_access accessible ch token_allows None))
         else (case db_is_member (re_delivery E) com ch pk of
                 Inl e \<Rightarrow> Err e
               | Inr member \<Rightarrow>
                   confirm_channels E com pk token chs (snd (resolve_request_local_access accessible ch token_allows (Some member)))))"

text \<open>The three tests every accepted result passes.\<close>

definition accepts_result :: "nostr_filter \<Rightarrow> uuid list \<Rightarrow> pubkey \<Rightarrow> stored_event \<Rightarrow> bool" where
  "accepts_result f accessible reader stored =
     (if \<not> filters_match [f] stored then False
      else if (case se_channel_id stored of Some ch \<Rightarrow> ch \<notin> set accessible | None \<Rightarrow> False) then False
      else event_visible_to_reader (se_event stored) reader)"

section \<open>Search requests\<close>

definition SEARCH_PAGE_SIZE :: nat where
  "SEARCH_PAGE_SIZE = 100"

definition MAX_SEARCH_PAGES :: nat where
  "MAX_SEARCH_PAGES = (nat DEFAULT_MAX_PAGE_LIMIT + SEARCH_PAGE_SIZE - 1) div SEARCH_PAGE_SIZE"

text \<open>\<open>(l as u32).min(DEFAULT_MAX_PAGE_LIMIT as u32)\<close>.\<close>

definition search_limit :: "nostr_filter \<Rightarrow> nat" where
  "search_limit f =
     (case f_limit f of Some l \<Rightarrow> min (l mod 2 ^ 32) (nat DEFAULT_MAX_PAGE_LIMIT) | None \<Rightarrow> nat DEFAULT_MAX_PAGE_LIMIT)"

definition search_channel_scope ::
  "req_env \<Rightarrow> nostr_filter \<Rightarrow> uuid list \<Rightarrow> channel_scope \<Rightarrow> channel_scope option" where
  "search_channel_scope E f accessible all_channels_scope =
     (case h_values f of
        Some (v # vs) \<Rightarrow>
          (let valid = filter (\<lambda>i. i \<in> set accessible) (List.map_filter (re_parse_uuid E) (v # vs))
           in if valid = [] then None else Some (ScopeChannels valid))
      | _ \<Rightarrow> Some all_channels_scope)"

definition build_search_query :: "uuid \<Rightarrow> string \<Rightarrow> nostr_filter \<Rightarrow> channel_scope \<Rightarrow> nat \<Rightarrow> search_query" where
  "build_search_query com text f scope page =
     \<lparr>sq_community = com, sq_q = text, sq_channel_scope = scope, sq_kinds = map_option (map kind_column) (non_empty (f_kinds f)),
      sq_authors = non_empty (f_authors f), sq_since = map_option sint (f_since f), sq_until = map_option sint (f_until f),
      sq_page = page, sq_per_page = SEARCH_PAGE_SIZE\<rparr>"

type_synonym search_progress = "nat \<times> event_id list \<times> handler_io"

text \<open>The loop over the hits of a page; \<open>False\<close> when a send failed and the handler returns.\<close>

fun deliver_hits ::
  "req_env \<Rightarrow> connection_state \<Rightarrow> string \<Rightarrow> nostr_filter \<Rightarrow> uuid list \<Rightarrow> pubkey \<Rightarrow> nat \<Rightarrow> (event_id \<Rightarrow> stored_event option)
     \<Rightarrow> event_id list \<Rightarrow> search_progress \<Rightarrow> bool \<times> search_progress" where
  "deliver_hits E conn sub_id f accessible reader limit event_map [] st = (True, st)"
| "deliver_hits E conn sub_id f accessible reader limit event_map (i # is) (emitted, seen, io) =
     (if emitted \<ge> limit then (True, (emitted, seen, io))
      else (case event_map i of
              None \<Rightarrow> deliver_hits E conn sub_id f accessible reader limit event_map is (emitted, seen, io)
            | Some stored \<Rightarrow>
                if \<not> accepts_result f accessible reader stored \<or> ev_id (se_event stored) \<in> set seen
                then deliver_hits E conn sub_id f accessible reader limit event_map is (emitted, seen, io)
                else (let (ok, io) = conn_send E conn (Event sub_id (se_event stored)) io;
                          seen = ev_id (se_event stored) # seen
                      in if \<not> ok then (False, (emitted, seen, io))
                         else deliver_hits E conn sub_id f accessible reader limit event_map is (emitted + 1, seen, io))))"

fun search_pages ::
  "req_env \<Rightarrow> connection_state \<Rightarrow> string \<Rightarrow> nostr_filter \<Rightarrow> uuid list \<Rightarrow> pubkey \<Rightarrow> nat \<Rightarrow> (nat \<Rightarrow> search_query)
     \<Rightarrow> nat list \<Rightarrow> search_progress \<Rightarrow> bool \<times> search_progress" where
  "search_pages E conn sub_id f accessible reader limit query [] st = (True, st)"
| "search_pages E conn sub_id f accessible reader limit query (page # pages) (emitted, seen, io) =
     (if emitted \<ge> limit then (True, (emitted, seen, io))
      else (case re_search E (query page) of
              Inl _ \<Rightarrow> (True, (emitted, seen, io))
            | Inr hits \<Rightarrow>
                if hits = [] then (True, (emitted, seen, io))
                else (case re_fetch E (cs_community conn) hits of
                        Inl _ \<Rightarrow> (True, (emitted, seen, io))
                      | Inr events \<Rightarrow>
                          (let event_map = map_of (rev (map (\<lambda>se. (ev_id (se_event se), se)) events));
                               (alive, st) = deliver_hits E conn sub_id f accessible reader limit event_map hits (emitted, seen, io)
                           in if \<not> alive then (False, st)
                              else if length hits < SEARCH_PAGE_SIZE then (True, st)
                              else search_pages E conn sub_id f accessible reader limit query pages st))))"

fun search_filters ::
  "req_env \<Rightarrow> connection_state \<Rightarrow> string \<Rightarrow> uuid list \<Rightarrow> pubkey \<Rightarrow> channel_scope \<Rightarrow> nostr_filter list
     \<Rightarrow> event_id list \<times> handler_io \<Rightarrow> handler_io" where
  "search_filters E conn sub_id accessible reader all_scope [] (seen, io) = conn_tell E conn (Eose sub_id) io"
| "search_filters E conn sub_id accessible reader all_scope (f # fs) (seen, io) =
     (let skip = search_filters E conn sub_id accessible reader all_scope fs (seen, io)
      in case f_search f of
           None \<Rightarrow> skip
         | Some text \<Rightarrow>
             if text = [] then skip
             else if search_limit f = 0 then skip
             else (case search_channel_scope E f accessible all_scope of
                     None \<Rightarrow> skip
                   | Some scope \<Rightarrow>
                       (case search_pages E conn sub_id f accessible reader (search_limit f)
                               (build_search_query (cs_community conn) text f scope) [1..<MAX_SEARCH_PAGES + 1] (0, seen, io) of
                          (False, (_, _, io)) \<Rightarrow> io
                        | (True, (_, seen, io)) \<Rightarrow> search_filters E conn sub_id accessible reader all_scope fs (seen, io))))"

definition handle_search_req ::
  "req_env \<Rightarrow> connection_state \<Rightarrow> string \<Rightarrow> nostr_filter list \<Rightarrow> uuid list \<Rightarrow> bool \<Rightarrow> pubkey \<Rightarrow> handler_io \<Rightarrow> handler_io" where
  "handle_search_req E conn sub_id filters accessible include_global reader io =
     (case build_search_channel_scope_filter accessible include_global of
        None \<Rightarrow> conn_tell E conn (Eose sub_id) io
      | Some scope \<Rightarrow> search_filters E conn sub_id accessible reader scope filters ([], io))"

section \<open>Historical delivery\<close>

definition req_filter_query ::
  "req_env \<Rightarrow> uuid \<Rightarrow> pubkey \<Rightarrow> uuid list \<Rightarrow> uuid option \<Rightarrow> nostr_filter \<Rightarrow> event_query" where
  "req_filter_query E com reader accessible channel_id f =
     (let per_filter_channel = or_option (extract_channel_id_from_filter (re_parse_uuid E) f) channel_id;
          params = filter_to_query_params (re_in_range E) f per_filter_channel com;
          params = apply_channel_scope_to_query (re_parse_uuid E) params f per_filter_channel accessible
      in if filter_can_match_shared_gated_kinds f then params\<lparr>eq_shared_gated_reader := Some reader\<rparr> else params)"

fun deliver_events ::
  "req_env \<Rightarrow> connection_state \<Rightarrow> string \<Rightarrow> nostr_filter \<Rightarrow> uuid list \<Rightarrow> pubkey \<Rightarrow> stored_event list
     \<Rightarrow> event_id list \<times> handler_io \<Rightarrow> bool \<times> event_id list \<times> handler_io" where
  "deliver_events E conn sub_id f accessible reader [] st = (True, st)"
| "deliver_events E conn sub_id f accessible reader (stored # events) (seen, io) =
     (if \<not> accepts_result f accessible reader stored \<or> ev_id (se_event stored) \<in> set seen
      then deliver_events E conn sub_id f accessible reader events (seen, io)
      else (let (ok, io) = conn_send E conn (Event sub_id (se_event stored)) io;
                seen = ev_id (se_event stored) # seen
            in if \<not> ok then (False, (seen, io)) else deliver_events E conn sub_id f accessible reader events (seen, io)))"

fun deliver_filters ::
  "req_env \<Rightarrow> connection_state \<Rightarrow> string \<Rightarrow> uuid list \<Rightarrow> pubkey \<Rightarrow> uuid option \<Rightarrow> nostr_filter list
     \<Rightarrow> event_id list \<times> handler_io \<Rightarrow> handler_io" where
  "deliver_filters E conn sub_id accessible reader channel_id [] (seen, io) = conn_tell E conn (Eose sub_id) io"
| "deliver_filters E conn sub_id accessible reader channel_id (f # fs) (seen, io) =
     (case re_query E (req_filter_query E (cs_community conn) reader accessible channel_id f) of
        Inl _ \<Rightarrow> conn_tell E conn (Eose sub_id) io
      | Inr events \<Rightarrow>
          (case deliver_events E conn sub_id f accessible reader events (seen, io) of
             (False, (_, io)) \<Rightarrow> io
           | (True, st) \<Rightarrow> deliver_filters E conn sub_id accessible reader channel_id fs st))"

section \<open>Registration\<close>

definition release_subscription_topics :: "uuid \<Rightarrow> scope \<Rightarrow> topics \<Rightarrow> topics" where
  "release_subscription_topics com scope tp =
     (if is_global scope then release_topic com GlobalTopic tp
      else fold (\<lambda>ch. release_topic com (ChannelTopic ch)) (channel_ids scope) tp)"

text \<open>The subscription goes into the connection's map, the registry and the reference counts.\<close>

definition register_request ::
  "connection_state \<Rightarrow> string \<Rightarrow> nostr_filter list \<Rightarrow> uuid list option \<Rightarrow> node \<Rightarrow> node" where
  "register_request conn sub_id filters authorized nd =
     (let com = cs_community conn;
          relay = nd_relay nd;
          own = hm_insert sub_id filters (conn_subscriptions nd (cs_conn_id conn));
          (replaced, registry) = (case authorized of
             Some chs \<Rightarrow> register_channels_scoped com (cs_conn_id conn) sub_id filters chs (rl_registry relay)
           | None \<Rightarrow> register_scoped com (cs_conn_id conn) sub_id filters None (rl_registry relay));
          tp = (case replaced of Some r \<Rightarrow> release_subscription_topics com (rs_scope r) (nd_topics nd) | None \<Rightarrow> nd_topics nd);
          tp = (case authorized of
                  Some chs \<Rightarrow> fold (\<lambda>ch. retain_topic com (ChannelTopic ch)) chs tp
                | None \<Rightarrow> retain_topic com GlobalTopic tp)
      in nd\<lparr>nd_relay := relay\<lparr>rl_registry := registry\<rparr>, nd_topics := tp,
            nd_conn_subs := hm_insert (cs_conn_id conn) own (nd_conn_subs nd)\<rparr>)"

section \<open>REQ\<close>

text \<open>Who asks and with which channel limit, or what is answered.\<close>

definition authorize_req ::
  "connection_state \<Rightarrow> string \<Rightarrow> node \<Rightarrow> (pubkey \<times> uuid list option, relay_message list) result" where
  "authorize_req conn sub_id nd =
     (case cs_auth_state conn of
        Authenticated ctx \<Rightarrow>
          if ac_scopes ctx \<noteq> [] \<and> MessagesRead \<notin> set (ac_scopes ctx)
          then Err [Notice ''restricted: insufficient scope'', ClosedSub sub_id ''restricted: insufficient scope'']
          else (let subs = conn_subscriptions nd (cs_conn_id conn)
                in if sub_id \<notin> set (hm_keys subs) \<and> length subs \<ge> MAX_SUBSCRIPTIONS
                   then Err [ClosedSub sub_id ''error: too many subscriptions'']
                   else Ok (ac_pubkey ctx, ac_channel_ids ctx))
      | _ \<Rightarrow> Err [Notice ''auth-required: authenticate before subscribing'', ClosedSub sub_id ''auth-required: not authenticated''])"

text \<open>The gates on sensitive kinds, for requests that are not bound to one channel.\<close>

definition req_gate_refusal :: "nostr_filter list \<Rightarrow> pubkey \<Rightarrow> uuid option \<Rightarrow> string option" where
  "req_gate_refusal filters reader channel_id =
     (if channel_id \<noteq> None then None
      else if \<not> p_gated_filters_authorized filters reader
      then Some ''restricted: p-gated events require #p matching your pubkey''
      else if \<not> engram_filters_authorized filters reader
      then Some ''restricted: agent-engram reads require authors=[self] or #p=[self]''
      else if \<not> author_only_filters_authorized filters reader
      then Some ''restricted: author-only kinds require authors=[self]''
      else None)"

text \<open>After the access of the request is known.\<close>

definition serve_req ::
  "req_env \<Rightarrow> connection_state \<Rightarrow> string \<Rightarrow> nostr_filter list \<Rightarrow> pubkey \<Rightarrow> uuid list option \<Rightarrow> uuid option
     \<Rightarrow> uuid list option \<Rightarrow> uuid list \<Rightarrow> handler_io \<Rightarrow> handler_io" where
  "serve_req E conn sub_id filters reader token channel_id requested accessible io =
     (let authorized = map_option (filter (\<lambda>ch. ch \<in> set accessible)) requested
      in if authorized = Some [] then conn_tell E conn (ClosedSub sub_id ''restricted: not a channel member'') io
         else (case req_gate_refusal filters reader channel_id of
                 Some reason \<Rightarrow> conn_tell E conn (ClosedSub sub_id reason) io
               | None \<Rightarrow>
                   if list_ex (\<lambda>f. f_search f \<noteq> None) filters then
                     (if list_ex (\<lambda>f. f_search f = None) filters
                      then conn_tell E conn (ClosedSub sub_id ''error: mixed search and non-search filters not supported'') io
                      else handle_search_req E conn sub_id filters accessible (token = None) reader io)
                   else deliver_filters E conn sub_id accessible reader channel_id filters
                          ([], io\<lparr>io_node := register_request conn sub_id filters authorized (io_node io)\<rparr>)))"

definition handle_req ::
  "req_env \<Rightarrow> string \<Rightarrow> nostr_filter list \<Rightarrow> connection_state \<Rightarrow> node \<Rightarrow> handler_io" where
  "handle_req E sub_id filters conn nd =
     (let io = \<lparr>io_node = nd, io_out = []\<rparr>;
          parse = re_parse_uuid E;
          com = cs_community conn
      in case authorize_req conn sub_id nd of
           Inl msgs \<Rightarrow> fold (conn_tell E conn) msgs io
         | Inr (reader, token) \<Rightarrow>
             (case extract_channel_ids_from_filters_limited parse filters of
                Inl _ \<Rightarrow> conn_tell E conn (ClosedSub sub_id ''restricted: too many explicit channels'') io
              | Inr requested \<Rightarrow>
                  (let (accessible, relay) =
                         (if filters_are_nip43_membership_only filters then (Ok [], nd_relay nd)
                          else get_accessible_channel_ids_cached (re_delivery E) com reader (nd_relay nd));
                       io = io\<lparr>io_node := nd\<lparr>nd_relay := relay\<rparr>\<rparr>
                   in case and_then accessible (\<lambda>ids.
                             confirm_channels E com reader token (case requested of Some chs \<Rightarrow> chs | None \<Rightarrow> [])
                               (narrow_to_token token ids)) of
                        Inl _ \<Rightarrow> conn_tell E conn (ClosedSub sub_id ''error: database error'') io
                      | Inr accessible \<Rightarrow>
                          serve_req E conn sub_id filters reader token (extract_channel_id_from_filters parse filters)
                            requested accessible io)))"

section \<open>COUNT\<close>

text \<open>The query of one filter; \<open>None\<close> when none of the channels it names is accessible.\<close>

definition count_query ::
  "req_env \<Rightarrow> uuid \<Rightarrow> pubkey \<Rightarrow> uuid list \<Rightarrow> nostr_filter \<Rightarrow> event_query option" where
  "count_query E com reader accessible f =
     (let parse = re_parse_uuid E;
          query = build_event_query_from_filter parse (re_in_range E) f com;
          with_reader = (\<lambda>q. if filter_can_match_shared_gated_kinds f then q\<lparr>eq_shared_gated_reader := Some reader\<rparr> else q)
      in case extract_channel_ids_from_filters parse [f] of
           Some requested \<Rightarrow>
             (let authorized = filter (\<lambda>ch. ch \<in> set accessible) requested
              in if authorized = [] then None
                 else (let ch_id = (if length requested = 1 then Some (hd authorized) else None)
                       in Some (with_reader (apply_channel_scope_to_query parse query f ch_id accessible))))
         | None \<Rightarrow> Some (with_reader (query\<lparr>eq_channel_ids := Some accessible\<rparr>)))"

text \<open>Whether SQL alone may count the filter.\<close>

definition count_pushable :: "nostr_filter \<Rightarrow> pubkey \<Rightarrow> bool" where
  "count_pushable f reader =
     (let needs_author_only = filter_can_match_author_only_kinds f;
          needs_shared = filter_can_match_shared_gated_kinds f;
          needs_result_gated = (filter_can_match_result_gated_kinds f \<and> \<not> result_gated_count_safe_for_pushdown f reader)
      in filter_fully_pushable f \<and> (\<not> needs_author_only \<or> authors_only_self f reader) \<and> \<not> needs_result_gated \<and> \<not> needs_shared)"

text \<open>The number of one filter, or the reason the request is closed. A query without a named channel drops its limit.\<close>

definition count_filter ::
  "req_env \<Rightarrow> pubkey \<Rightarrow> nostr_filter \<Rightarrow> event_query \<Rightarrow> (nat, string) result" where
  "count_filter E reader f query =
     (if count_pushable f reader
      then map_err (\<lambda>e. ''error: '' @ e)
             (re_count E (if h_values f = None then query\<lparr>eq_limit := None\<rparr> else query))
      else (case re_query E (apply_count_fallback_limit query) of
              Inl e \<Rightarrow> Err (''error: '' @ e)
            | Inr events \<Rightarrow>
                if count_fallback_exceeded (length events) then Err ''restricted: count filter requires narrower constraints''
                else Ok (length (filter (\<lambda>se. filters_match [f] se \<and> event_visible_to_reader (se_event se) reader) events))))"

fun count_filters ::
  "req_env \<Rightarrow> uuid \<Rightarrow> pubkey \<Rightarrow> uuid list option \<Rightarrow> nostr_filter list \<Rightarrow> uuid list \<Rightarrow> nat \<Rightarrow> (nat, string) result" where
  "count_filters E com reader token [] accessible acc = Ok acc"
| "count_filters E com reader token (f # fs) accessible acc =
     (let requested = (case extract_channel_ids_from_filters (re_parse_uuid E) [f] of Some chs \<Rightarrow> chs | None \<Rightarrow> [])
      in case confirm_channels E com reader token requested accessible of
           Inl _ \<Rightarrow> Err ''error: database error''
         | Inr accessible \<Rightarrow>
             (case count_query E com reader accessible f of
                None \<Rightarrow> count_filters E com reader token fs accessible acc
              | Some query \<Rightarrow>
                  and_then (count_filter E reader f query) (\<lambda>n. count_filters E com reader token fs accessible (acc + n))))"

definition handle_count :: "req_env \<Rightarrow> string \<Rightarrow> nostr_filter list \<Rightarrow> connection_state \<Rightarrow> node \<Rightarrow> handler_io" where
  "handle_count E sub_id filters conn nd =
     (let io = \<lparr>io_node = nd, io_out = []\<rparr>;
          com = cs_community conn;
          close = (\<lambda>reason. conn_tell E conn (ClosedSub sub_id reason))
      in case cs_auth_state conn of
           Authenticated ctx \<Rightarrow>
             (let reader = ac_pubkey ctx; token = ac_channel_ids ctx
              in if \<not> p_gated_filters_authorized filters reader
                 then close ''restricted: p-gated kinds require #p tag matching your pubkey'' io
                 else if \<not> engram_filters_authorized filters reader
                 then close ''restricted: agent-engram reads require authors=[self] or #p=[self]'' io
                 else if \<not> author_only_filters_authorized filters reader
                 then close ''restricted: author-only kinds require authors=[self]'' io
                 else if \<not> is_ok (extract_channel_ids_from_filters_limited (re_parse_uuid E) filters)
                 then close ''restricted: too many explicit channels'' io
                 else
                   (case get_accessible_channel_ids_cached (re_delivery E) com reader (nd_relay nd) of
                      (Inl _, relay) \<Rightarrow> close ''error: database error'' (io\<lparr>io_node := nd\<lparr>nd_relay := relay\<rparr>\<rparr>)
                    | (Inr ids, relay) \<Rightarrow>
                        (let io = io\<lparr>io_node := nd\<lparr>nd_relay := relay\<rparr>\<rparr>
                         in case count_filters E com reader token filters (narrow_to_token token ids) 0 of
                              Inl reason \<Rightarrow> close reason io
                            | Inr n \<Rightarrow> conn_tell E conn (CountResult sub_id n) io)))
         | _ \<Rightarrow> close ''auth-required: not authenticated'' io)"

section \<open>CLOSE, disconnect and eviction\<close>

definition release_removed :: "uuid \<Rightarrow> removed_subscription \<Rightarrow> topics \<Rightarrow> topics" where
  "release_removed com removed tp =
     fold (\<lambda>ch. release_topic com (ChannelTopic ch)) (channel_ids (rs_scope removed))
       (if is_global (rs_scope removed) then release_topic com GlobalTopic tp else tp)"

definition handle_close :: "req_env \<Rightarrow> string \<Rightarrow> connection_state \<Rightarrow> node \<Rightarrow> handler_io" where
  "handle_close E sub_id conn nd =
     (let own = hm_remove sub_id (conn_subscriptions nd (cs_conn_id conn));
          relay = nd_relay nd;
          (removed, registry) = remove_subscription (cs_conn_id conn) sub_id (rl_registry relay);
          tp = (case removed of Some r \<Rightarrow> release_removed (cs_community conn) r (nd_topics nd) | None \<Rightarrow> nd_topics nd);
          nd' = nd\<lparr>nd_relay := relay\<lparr>rl_registry := registry\<rparr>, nd_topics := tp,
                   nd_conn_subs := hm_insert (cs_conn_id conn) own (nd_conn_subs nd)\<rparr>
      in conn_tell E conn (ClosedSub sub_id '''') \<lparr>io_node = nd', io_out = []\<rparr>)"

text \<open>
  The end of \<open>handle_active_connection\<close>, without the presence entry. The connection's own map
  lives on until the last handler that holds it returns.
\<close>

definition connection_ended :: "connection_state \<Rightarrow> node \<Rightarrow> node" where
  "connection_ended conn nd =
     (let relay = nd_relay nd;
          (removed, registry) = remove_connection (cs_conn_id conn) (rl_registry relay)
      in nd\<lparr>nd_relay := relay\<lparr>rl_registry := registry, rl_conns := cm_deregister (cs_conn_id conn) (rl_conns relay)\<rparr>,
            nd_topics := fold (release_removed (cs_community conn)) removed (nd_topics nd)\<rparr>)"

definition evict_conn_channel_subscriptions ::
  "req_env \<Rightarrow> uuid \<Rightarrow> uuid \<Rightarrow> uuid \<Rightarrow> node \<Rightarrow> node" where
  "evict_conn_channel_subscriptions E com channel_id conn_id nd =
     (let relay = nd_relay nd;
          (removed, registry) = remove_channel_subscriptions_scoped com conn_id channel_id (rl_registry relay);
          gone = map cu_sub_id (filter cu_removed removed);
          own = (if map_of (connections (rl_conns relay)) conn_id = None then nd_conn_subs nd
                 else hm_insert conn_id (filter (\<lambda>(s, _). s \<notin> set gone) (conn_subscriptions nd conn_id)) (nd_conn_subs nd));
          tp = fold (\<lambda>_. release_topic com (ChannelTopic channel_id)) removed (nd_topics nd);
          cm = fold (\<lambda>(i, s) cm. snd (send_to (re_sends E i) conn_id
                 (we_text (re_wire E) (ClosedSub s ''restricted: channel access revoked'')) cm)) (List.enumerate 0 gone) (rl_conns relay)
      in if removed = [] then nd
         else nd\<lparr>nd_relay := relay\<lparr>rl_registry := registry, rl_conns := cm\<rparr>, nd_topics := tp, nd_conn_subs := own\<rparr>)"

end
