(* ===== verification/TopicsCorrect.thy ===== *)
theory TopicsCorrect
  imports Topics
begin

text \<open>
  The subscriptions a node holds at Redis follow its reference counts: whatever the order of
  retains, releases, timers, commands, failures and reconnections, a wanted topic is subscribed
  or about to be, and when nothing is pending the node is subscribed to exactly what it wants.
\<close>

section \<open>Keys\<close>

fun plain_topic :: "event_topic \<Rightarrow> bool" where
  "plain_topic (ChannelTopic ch) = no_colon ch"
| "plain_topic GlobalTopic = True"

definition plain_key :: "event_topic_key \<Rightarrow> bool" where
  "plain_key key \<longleftrightarrow> no_colon (tk_community_id key) \<and> plain_topic (tk_topic key)"

lemma redis_channel_split:
  assumes "plain_key key"
  shows "split_on CHR '':'' (redis_channel key) =
    BUZZ_PREFIX # tk_community_id key # (case tk_topic key of ChannelTopic ch \<Rightarrow> [''channel'', ch] | GlobalTopic \<Rightarrow> [''global''])"
proof (cases "tk_topic key")
  case (ChannelTopic ch)
  have "redis_channel key = join_with CHR '':'' [BUZZ_PREFIX, tk_community_id key, ''channel'', ch]"
    using ChannelTopic by (simp add: redis_channel_def BUZZ_PREFIX_def)
  with ChannelTopic assms show ?thesis
    by (simp add: split_join plain_key_def no_colon_def BUZZ_PREFIX_def del: join_with.simps)
next
  case GlobalTopic
  have "redis_channel key = join_with CHR '':'' [BUZZ_PREFIX, tk_community_id key, ''global'']"
    using GlobalTopic by (simp add: redis_channel_def BUZZ_PREFIX_def)
  with GlobalTopic assms show ?thesis
    by (simp add: split_join plain_key_def no_colon_def BUZZ_PREFIX_def del: join_with.simps)
qed

lemma redis_channel_inj:
  assumes "plain_key a" "plain_key b" shows "redis_channel a = redis_channel b \<longleftrightarrow> a = b"
proof
  assume "redis_channel a = redis_channel b"
  with redis_channel_split [OF assms(1)] redis_channel_split [OF assms(2)]
  have "tk_community_id a = tk_community_id b"
    "(case tk_topic a of ChannelTopic ch \<Rightarrow> [''channel'', ch] | GlobalTopic \<Rightarrow> [''global'']) =
     (case tk_topic b of ChannelTopic ch \<Rightarrow> [''channel'', ch] | GlobalTopic \<Rightarrow> [''global''])"
    by simp_all
  moreover from this(2) have "tk_topic a = tk_topic b" by (cases "tk_topic a"; cases "tk_topic b") simp_all
  ultimately show "a = b" by simp
qed simp

fun topic_ids :: "event_topic \<Rightarrow> uuid list" where
  "topic_ids (ChannelTopic ch) = [ch]"
| "topic_ids GlobalTopic = []"

text \<open>
  Topic names are unambiguous. The name of a topic parses back to exactly that topic, for
  ids that the uuid parser reads back.
\<close>

theorem topic_name_round_trip:
  assumes "plain_key key" "parse_uuid (tk_community_id key) = Some (tk_community_id key)"
    and "\<forall>ch\<in>set (topic_ids (tk_topic key)). parse_uuid ch = Some ch"
  shows "parse_redis_channel parse_uuid (redis_channel key) = Ok key"
proof (cases "tk_topic key")
  case (ChannelTopic ch)
  with assms redis_channel_split [OF assms(1)] show ?thesis by (cases key) (simp add: parse_redis_channel_def parse_scope_def)
next
  case GlobalTopic
  with assms redis_channel_split [OF assms(1)] show ?thesis by (cases key) (simp add: parse_redis_channel_def parse_scope_def)
qed

theorem topic_name_round_trip_witness:
  "parse_redis_channel Some (redis_channel \<lparr>tk_community_id = ''a1'', tk_topic = ChannelTopic ''b2''\<rparr>) =
     Ok \<lparr>tk_community_id = ''a1'', tk_topic = ChannelTopic ''b2''\<rparr>"
  by (rule topic_name_round_trip) (simp_all add: plain_key_def no_colon_def)

section \<open>Steps\<close>

inductive topics_step :: "topics \<Rightarrow> topics \<Rightarrow> bool" where
  retains: "plain_key (from_context com t) \<Longrightarrow> topics_step tp (retain_topic com t tp)"
| releases: "topics_step tp (release_topic com t tp)"
| timer: "topics_step tp (debounce_fires key tp)"
| command: "topics_step tp (subscriber_step ok tp)"
| reconnects: "active_topics tp = None \<Longrightarrow> topics_step tp (connect_and_subscribe ok tp)"
| disconnects: "topics_step tp (stream_ended tp)"

inductive_cases topics_stepE: "topics_step tp tp'"

text \<open>An unsubscription is on its way, behind every subscription.\<close>

definition settles :: "event_topic_key \<Rightarrow> topics \<Rightarrow> bool" where
  "settles key tp \<longleftrightarrow> key \<in> set (debounced tp) \<or>
     (\<exists>before after. subscription_tx tp = before @ UnsubscribeIfIdle key # after \<and> SubscribeTopic key \<notin> set after)"

definition is_active :: "event_topic_key \<Rightarrow> topics \<Rightarrow> bool" where
  "is_active key tp \<longleftrightarrow> (\<exists>active. active_topics tp = Some active \<and> redis_channel key \<in> set active)"

definition plain_tables :: "topics \<Rightarrow> bool" where
  "plain_tables tp \<longleftrightarrow>
     hm_wf (desired_topics tp) \<and>
     (\<forall>key n. map_of (desired_topics tp) key = Some n \<longrightarrow> 0 < n \<and> plain_key key) \<and>
     (\<forall>key. SubscribeTopic key \<in> set (subscription_tx tp) \<or> UnsubscribeIfIdle key \<in> set (subscription_tx tp) \<or>
        key \<in> set (debounced tp) \<longrightarrow> plain_key key) \<and>
     (\<forall>active. active_topics tp = Some active \<longrightarrow> set active \<subseteq> redis_channel ` Collect plain_key)"

text \<open>What is wanted is subscribed or about to be; what is not is about to be dropped.\<close>

definition wanted_covered :: "topics \<Rightarrow> bool" where
  "wanted_covered tp \<longleftrightarrow>
     (\<forall>key. active_topics tp \<noteq> None \<longrightarrow> 0 < desired_refcount tp key \<longrightarrow>
        is_active key tp \<or> SubscribeTopic key \<in> set (subscription_tx tp))"

definition idle_settles :: "topics \<Rightarrow> bool" where
  "idle_settles tp \<longleftrightarrow>
     (\<forall>key. plain_key key \<longrightarrow> desired_refcount tp key = 0 \<longrightarrow> is_active key tp \<or> SubscribeTopic key \<in> set (subscription_tx tp) \<longrightarrow>
        settles key tp)"

definition topics_inv :: "topics \<Rightarrow> bool" where
  "topics_inv tp \<longleftrightarrow> plain_tables tp \<and> wanted_covered tp \<and> idle_settles tp"

lemma refcount_retain:
  "desired_refcount (retain_topic com t tp) key = desired_refcount tp key + of_bool (key = from_context com t)"
  by (simp add: desired_refcount_def retain_topic_def Let_def split: option.split)

lemma refcount_release:
  "(\<forall>key n. map_of (desired_topics tp) key = Some n \<longrightarrow> 0 < n) \<Longrightarrow>
   desired_refcount (release_topic com t tp) key = desired_refcount tp key - of_bool (key = from_context com t)"
  by (auto simp: desired_refcount_def release_topic_def Let_def split: option.split)

text \<open>Appending a command for another key, or an unsubscription, keeps what settles.\<close>

lemma settles_append:
  "settles key tp \<Longrightarrow> subscription_tx tp' = subscription_tx tp @ [c] \<Longrightarrow> c \<noteq> SubscribeTopic key \<Longrightarrow>
   set (debounced tp) \<subseteq> set (debounced tp') \<Longrightarrow> settles key tp'"
  unfolding settles_def by (metis (no_types, lifting) Cons_eq_appendI UnE append_assoc set_ConsD set_append subsetD empty_iff empty_set)

lemma settles_cong:
  "settles key tp \<Longrightarrow> subscription_tx tp' = subscription_tx tp \<Longrightarrow> set (debounced tp) \<subseteq> set (debounced tp') \<Longrightarrow> settles key tp'"
  unfolding settles_def by auto

lemma settles_tail:
  assumes "settles key tp" "subscription_tx tp = c # rest" "subscription_tx tp' = rest" "debounced tp' = debounced tp"
    and "c = UnsubscribeIfIdle key \<Longrightarrow> SubscribeTopic key \<in> set rest"
  shows "settles key tp'"
  using assms unfolding settles_def by (metis Cons_eq_append_conv list.inject)

section \<open>The invariant\<close>

lemma plain_wanted: "plain_tables tp \<Longrightarrow> 0 < desired_refcount tp key \<Longrightarrow> plain_key key"
  by (auto simp: plain_tables_def desired_refcount_def split: option.splits)

lemma inv_retain:
  assumes "topics_inv tp" "plain_key (from_context com t)" shows "topics_inv (retain_topic com t tp)"
proof -
  let ?k = "from_context com t" and ?tp = "retain_topic com t tp"
  have same: "active_topics ?tp = active_topics tp" "debounced ?tp = debounced tp"
    "subscription_tx ?tp = subscription_tx tp @ (if desired_refcount tp ?k = 0 then [SubscribeTopic ?k] else [])"
    by (simp_all add: retain_topic_def desired_refcount_def Let_def)
  then have active: "is_active key ?tp = is_active key tp" for key by (simp add: is_active_def)
  have "plain_tables ?tp"
    using assms unfolding topics_inv_def plain_tables_def same by (auto simp: retain_topic_def Let_def split: if_splits)
  moreover have "wanted_covered ?tp"
    using assms(1) unfolding topics_inv_def wanted_covered_def active same refcount_retain by auto
  moreover have "idle_settles ?tp"
    unfolding idle_settles_def active refcount_retain
  proof (intro allI impI)
    fix key
    assume idle: "plain_key key" "desired_refcount tp key + of_bool (key = ?k) = 0"
      "is_active key tp \<or> SubscribeTopic key \<in> set (subscription_tx ?tp)"
    then have "key \<noteq> ?k" by auto
    with idle assms(1) have "settles key tp"
      unfolding topics_inv_def idle_settles_def same by (auto split: if_splits)
    with \<open>key \<noteq> ?k\<close> show "settles key ?tp"
      using settles_append [of key tp ?tp] settles_cong [of key tp ?tp] same by (auto split: if_splits)
  qed
  ultimately show ?thesis by (simp add: topics_inv_def)
qed

lemma inv_release:
  assumes "topics_inv tp" shows "topics_inv (release_topic com t tp)"
proof -
  let ?k = "from_context com t" and ?tp = "release_topic com t tp"
  have same: "active_topics ?tp = active_topics tp" "subscription_tx ?tp = subscription_tx tp"
    "set (debounced tp) \<subseteq> set (debounced ?tp)"
    by (auto simp: release_topic_def Let_def split: option.split)
  then have active: "is_active key ?tp = is_active key tp" for key by (simp add: is_active_def)
  have pos: "\<forall>key n. map_of (desired_topics tp) key = Some n \<longrightarrow> 0 < n"
    using assms unfolding topics_inv_def plain_tables_def by blast
  note count = refcount_release [OF pos, of com t]
  have "plain_tables ?tp"
    using assms unfolding topics_inv_def plain_tables_def same
    by (auto simp: release_topic_def Let_def split: option.splits if_splits)
  moreover have "wanted_covered ?tp"
    using assms unfolding topics_inv_def wanted_covered_def active same count by (auto split: if_splits)
  moreover have "idle_settles ?tp"
    unfolding idle_settles_def active count same
  proof (intro allI impI)
    fix key
    assume idle: "plain_key key" "desired_refcount tp key - of_bool (key = ?k) = 0"
      "is_active key tp \<or> SubscribeTopic key \<in> set (subscription_tx tp)"
    show "settles key ?tp"
    proof (cases "desired_refcount tp key = 0")
      case True
      with idle assms have "settles key tp" unfolding topics_inv_def idle_settles_def by blast
      with same show ?thesis by (auto intro: settles_cong)
    next
      case False
      with idle(2) have "key = ?k" "desired_refcount tp ?k = 1" by (cases "key = ?k"; simp)+
      then have "key \<in> set (debounced ?tp)"
        by (auto simp: release_topic_def desired_refcount_def Let_def split: option.splits)
      then show ?thesis by (simp add: settles_def)
    qed
  qed
  ultimately show ?thesis by (simp add: topics_inv_def)
qed

lemma inv_timer:
  assumes "topics_inv tp" shows "topics_inv (debounce_fires key tp)"
proof (cases "key \<in> set (debounced tp)")
  case True
  let ?tp = "debounce_fires key tp"
  have same: "active_topics ?tp = active_topics tp" "desired_topics ?tp = desired_topics tp"
    "subscription_tx ?tp = subscription_tx tp @ [UnsubscribeIfIdle key]" "debounced ?tp = remove1 key (debounced tp)"
    using True by (simp_all add: debounce_fires_def)
  then have eqs: "is_active k ?tp = is_active k tp" "desired_refcount ?tp k = desired_refcount tp k" for k
    by (simp_all add: is_active_def desired_refcount_def)
  have settled: "settles k ?tp" if "settles k tp" for k
  proof (cases "k = key")
    case True
    then show ?thesis unfolding settles_def same by fastforce
  next
    case False
    with that show ?thesis
      unfolding settles_def same by (metis (no_types, lifting) Cons_eq_appendI append_assoc in_set_remove1 set_append Un_iff
          empty_iff empty_set set_ConsD subscription_command.distinct(1))
  qed
  have "plain_tables ?tp"
    using assms True set_remove1_subset [of key "debounced tp"] unfolding topics_inv_def plain_tables_def same by auto
  moreover have "wanted_covered ?tp" "idle_settles ?tp"
    using assms settled unfolding topics_inv_def wanted_covered_def idle_settles_def eqs same by auto
  ultimately show ?thesis by (simp add: topics_inv_def)
qed (use assms in \<open>simp add: debounce_fires_def\<close>)

lemma inv_connect:
  assumes "topics_inv tp" shows "topics_inv (connect_and_subscribe ok tp)"
proof (cases ok)
  case True
  let ?tp = "connect_and_subscribe ok tp"
  let ?wanted = "map redis_channel (map fst (filter (\<lambda>(_, n). n > 0) (desired_topics tp)))"
  have tables: "plain_tables tp" using assms by (simp add: topics_inv_def)
  have same: "active_topics ?tp = Some ?wanted" "desired_topics ?tp = desired_topics tp"
    "subscription_tx ?tp = subscription_tx tp" "debounced ?tp = debounced tp"
    using True by (simp_all add: connect_and_subscribe_def)
  have look: "(k, n) \<in> set (desired_topics tp) \<longleftrightarrow> map_of (desired_topics tp) k = Some n" for k n
    using tables hm_wf_lookup [of "desired_topics tp"] unfolding plain_tables_def by blast
  have wanted: "set ?wanted = redis_channel ` {k. 0 < desired_refcount tp k}"
    using look by (force simp: desired_refcount_def image_iff split: option.splits)
  have count: "desired_refcount ?tp k = desired_refcount tp k" for k using same by (simp add: desired_refcount_def)
  have active: "is_active k ?tp \<longleftrightarrow> 0 < desired_refcount tp k" if "plain_key k" for k
    using wanted redis_channel_inj that plain_wanted [OF tables] by (auto simp: is_active_def same simp del: set_map)
  have settles: "settles k ?tp = settles k tp" for k by (simp add: settles_def same)
  have "plain_tables ?tp"
    using tables wanted plain_wanted [OF tables] unfolding plain_tables_def same by auto
  moreover have "wanted_covered ?tp"
    using active plain_wanted [OF tables] by (auto simp: wanted_covered_def count)
  moreover have "idle_settles ?tp"
    using assms active unfolding topics_inv_def idle_settles_def count settles same by auto
  ultimately show ?thesis by (simp add: topics_inv_def)
next
  case False
  then show ?thesis
    using assms unfolding topics_inv_def plain_tables_def wanted_covered_def idle_settles_def
    by (simp add: connect_and_subscribe_def is_active_def desired_refcount_def settles_def)
qed

text \<open>Losing the connection, at any point of the loop.\<close>

lemma inv_disconnect:
  assumes "plain_tables tp" "idle_settles (tp\<lparr>active_topics := None\<rparr>)" shows "topics_inv (tp\<lparr>active_topics := None\<rparr>)"
  using assms unfolding topics_inv_def plain_tables_def wanted_covered_def by simp

lemma idle_settles_disconnect: "idle_settles tp \<Longrightarrow> idle_settles (tp\<lparr>active_topics := None\<rparr>)"
  unfolding idle_settles_def by (simp add: is_active_def desired_refcount_def settles_def)

text \<open>Taking a subscription off the queue.\<close>

lemma inv_subscribe:
  assumes inv: "topics_inv tp" and active: "active_topics tp = Some active" and queue: "subscription_tx tp = SubscribeTopic k # rest"
  shows "topics_inv (tp\<lparr>subscription_tx := rest, active_topics := Some (List.insert (redis_channel k) active)\<rparr>)" (is "topics_inv ?tp")
    and "idle_settles (tp\<lparr>subscription_tx := rest, active_topics := None\<rparr>)"
proof -
  have tables: "plain_tables tp" and k: "plain_key k" using inv queue by (auto simp: topics_inv_def plain_tables_def)
  have count: "desired_refcount ?tp key = desired_refcount tp key" for key by (simp add: desired_refcount_def)
  have act: "is_active key ?tp \<longleftrightarrow> key = k \<or> is_active key tp" if "plain_key key" for key
    using that k active redis_channel_inj by (auto simp: is_active_def)
  have settled: "settles key (tp\<lparr>subscription_tx := rest, active_topics := a\<rparr>)" if "settles key tp" for key a
    by (rule settles_tail [OF that queue]) simp_all
  have idle: "settles key tp" if "plain_key key" "desired_refcount tp key = 0"
    "key = k \<or> is_active key tp \<or> SubscribeTopic key \<in> set rest" for key
    using inv that queue unfolding topics_inv_def idle_settles_def by auto
  have "plain_tables ?tp" using tables k active queue unfolding plain_tables_def by auto
  moreover have "wanted_covered ?tp"
    unfolding wanted_covered_def count
  proof (intro allI impI)
    fix key
    assume wanted: "0 < desired_refcount tp key"
    with inv active queue have "is_active key tp \<or> key = k \<or> SubscribeTopic key \<in> set rest"
      unfolding topics_inv_def wanted_covered_def by auto
    with act [OF plain_wanted [OF tables wanted]] show "is_active key ?tp \<or> SubscribeTopic key \<in> set (subscription_tx ?tp)" by auto
  qed
  moreover have "idle_settles ?tp"
    using settled [of _ "Some (List.insert (redis_channel k) active)"] idle act unfolding idle_settles_def count by auto
  ultimately show "topics_inv ?tp" by (simp add: topics_inv_def)
  show "idle_settles (tp\<lparr>subscription_tx := rest, active_topics := None\<rparr>)"
    using settled [of _ None] idle unfolding idle_settles_def by (auto simp: desired_refcount_def is_active_def)
qed

text \<open>Taking an unsubscription off the queue; it acts when the topic is idle.\<close>

lemma inv_unsubscribe:
  assumes inv: "topics_inv tp" and active: "active_topics tp = Some active" and queue: "subscription_tx tp = UnsubscribeIfIdle k # rest"
    and active': "active' = (if desired_refcount tp k = 0 then removeAll (redis_channel k) active else active)"
  shows "topics_inv (tp\<lparr>subscription_tx := rest, active_topics := Some active'\<rparr>)" (is "topics_inv ?tp")
    and "idle_settles (tp\<lparr>subscription_tx := rest, active_topics := None\<rparr>)"
proof -
  have tables: "plain_tables tp" using inv by (simp add: topics_inv_def)
  have count: "desired_refcount ?tp key = desired_refcount tp key" for key by (simp add: desired_refcount_def)
  have k: "plain_key k" using tables queue by (simp add: plain_tables_def)
  have act: "is_active key ?tp \<longleftrightarrow> is_active key tp \<and> (key = k \<longrightarrow> 0 < desired_refcount tp k)" if "plain_key key" for key
    using redis_channel_inj [OF that k] active active' by (auto simp: is_active_def)
  have settled: "settles key (tp\<lparr>subscription_tx := rest, active_topics := a\<rparr>)"
    if "settles key tp" "key = k \<Longrightarrow> SubscribeTopic key \<in> set rest" for key a
    by (rule settles_tail [OF that(1) queue]) (use that(2) in auto)
  have idle: "settles key tp" if "plain_key key" "desired_refcount tp key = 0" "is_active key tp \<or> SubscribeTopic key \<in> set rest" for key
    using inv that queue unfolding topics_inv_def idle_settles_def by auto
  have "plain_tables ?tp" using tables active active' queue unfolding plain_tables_def by auto
  moreover have "wanted_covered ?tp"
    unfolding wanted_covered_def count
  proof (intro allI impI)
    fix key
    assume wanted: "0 < desired_refcount tp key"
    with inv active queue have "is_active key tp \<or> SubscribeTopic key \<in> set rest"
      unfolding topics_inv_def wanted_covered_def by auto
    with act [OF plain_wanted [OF tables wanted]] wanted
    show "is_active key ?tp \<or> SubscribeTopic key \<in> set (subscription_tx ?tp)" by auto
  qed
  moreover have "idle_settles ?tp"
    unfolding idle_settles_def count
  proof (intro allI impI)
    fix key
    assume "plain_key key" "desired_refcount tp key = 0" "is_active key ?tp \<or> SubscribeTopic key \<in> set (subscription_tx ?tp)"
    then show "settles key ?tp"
      using act [of key] idle [of key] settled [of key "Some active'"] by (cases "key = k") auto
  qed
  ultimately show "topics_inv ?tp" by (simp add: topics_inv_def)
  show "idle_settles (tp\<lparr>subscription_tx := rest, active_topics := None\<rparr>)"
    unfolding idle_settles_def
  proof (intro allI impI)
    fix key
    assume "plain_key key" "desired_refcount (tp\<lparr>subscription_tx := rest, active_topics := None\<rparr>) key = 0"
      "is_active key (tp\<lparr>subscription_tx := rest, active_topics := None\<rparr>) \<or>
       SubscribeTopic key \<in> set (subscription_tx (tp\<lparr>subscription_tx := rest, active_topics := None\<rparr>))"
    then show "settles key (tp\<lparr>subscription_tx := rest, active_topics := None\<rparr>)"
      using idle [of key] settled [of key None] by (auto simp: desired_refcount_def is_active_def)
  qed
qed


lemma inv_command:
  assumes inv: "topics_inv tp" shows "topics_inv (subscriber_step ok tp)"
proof (cases "active_topics tp = None \<or> subscription_tx tp = []")
  case True
  with inv show ?thesis by (auto simp: subscriber_step_def split: option.splits list.splits)
next
  case False
  then obtain active c rest where active: "active_topics tp = Some active" and queue: "subscription_tx tp = c # rest"
    by (auto simp: neq_Nil_conv)
  have tables: "plain_tables (tp\<lparr>subscription_tx := rest\<rparr>)" using inv queue by (auto simp: topics_inv_def plain_tables_def)
  have step: "subscriber_step ok tp = handle_command ok c active (tp\<lparr>subscription_tx := rest\<rparr>)"
    by (simp add: subscriber_step_def active queue)
  have keep: "tp\<lparr>subscription_tx := rest, active_topics := Some active\<rparr> = tp\<lparr>subscription_tx := rest\<rparr>"
    using active by (cases tp) simp
  show ?thesis
  proof (cases c)
    case (SubscribeTopic k)
    note parts = inv_subscribe [OF inv active queue [unfolded SubscribeTopic]]
    have same: "List.insert (redis_channel k) active = active" if "redis_channel k \<in> set active" using that by simp
    show ?thesis
      using parts inv_disconnect [OF tables] keep same unfolding step SubscribeTopic
      by (auto simp: handle_command_def Let_def split: if_splits)
  next
    case (UnsubscribeIfIdle k)
    note parts = inv_unsubscribe [OF inv active queue [unfolded UnsubscribeIfIdle] refl]
    have same: "removeAll (redis_channel k) active = active" if "redis_channel k \<notin> set active" using that by simp
    show ?thesis
      using parts inv_disconnect [OF tables] keep same unfolding step UnsubscribeIfIdle
      by (auto simp: handle_command_def desired_refcount_def Let_def split: if_splits)
  qed
qed

interpretation interest: step_system "\<lambda>tp. tp = topics_new" topics_step topics_inv
proof
  show "topics_inv tp" if "tp = topics_new" for tp
    using that by (simp add: topics_new_def topics_inv_def plain_tables_def wanted_covered_def idle_settles_def is_active_def)
  show "topics_inv tp'" if "topics_inv tp" "topics_step tp tp'" for tp tp'
    using that(2,1)
  proof (cases rule: topics_step.cases)
    case disconnects
    with that(1) show ?thesis
      unfolding stream_ended_def by (auto simp: topics_inv_def [of tp] intro: inv_disconnect idle_settles_disconnect)
  qed (auto intro: inv_retain inv_release inv_timer inv_command inv_connect)
qed

lemma follows_interest:
  assumes "topics_step\<^sup>*\<^sup>* topics_new tp" "active_topics tp = Some active"
  shows "(\<forall>key. 0 < desired_refcount tp key \<longrightarrow>
      redis_channel key \<in> set active \<or> SubscribeTopic key \<in> set (subscription_tx tp)) \<and>
    (subscription_tx tp = [] \<and> debounced tp = [] \<longrightarrow> set active = redis_channel ` {key. 0 < desired_refcount tp key})"
proof -
  have inv: "plain_tables tp" "wanted_covered tp" "idle_settles tp"
    using interest.reachable_inv [OF refl assms(1)] by (simp_all add: topics_inv_def)
  have covered: "\<forall>key. 0 < desired_refcount tp key \<longrightarrow>
      redis_channel key \<in> set active \<or> SubscribeTopic key \<in> set (subscription_tx tp)"
    using inv(2) assms(2) by (auto simp: wanted_covered_def is_active_def)
  moreover have "set active = redis_channel ` {key. 0 < desired_refcount tp key}" if quiet: "subscription_tx tp = [] \<and> debounced tp = []"
  proof
    show "set active \<subseteq> redis_channel ` {key. 0 < desired_refcount tp key}"
    proof
      fix ch
      assume "ch \<in> set active"
      with inv(1) assms(2) obtain key where key: "ch = redis_channel key" "plain_key key"
        unfolding plain_tables_def by auto
      with \<open>ch \<in> set active\<close> inv(3) assms(2) quiet have "0 < desired_refcount tp key"
        by (auto simp: idle_settles_def is_active_def settles_def)
      with key show "ch \<in> redis_channel ` {key. 0 < desired_refcount tp key}" by blast
    qed
  qed (use covered quiet in auto)
  ultimately show ?thesis by blast
qed

section \<open>Property\<close>

text \<open>
  C8: The subscriptions at Redis follow the reference counts. In every state a node reaches by
  retains, releases, timers, commands, failed calls, disconnections and reconnections: while
  connected, a topic somebody wants is subscribed or its subscription is queued; and when no
  command and no timer is pending, the node is subscribed to exactly the topics it wants.
\<close>

theorem subscriptions_follow_interest:
  assumes "topics_step\<^sup>*\<^sup>* topics_new tp" "active_topics tp = Some active"
  shows "(\<forall>key. 0 < desired_refcount tp key \<longrightarrow>
      redis_channel key \<in> set active \<or> SubscribeTopic key \<in> set (subscription_tx tp)) \<and>
    (subscription_tx tp = [] \<and> debounced tp = [] \<longrightarrow> set active = redis_channel ` {key. 0 < desired_refcount tp key})"
  by (rule follows_interest [OF assms])

theorem subscriptions_follow_interest_witness:
  "let tp = subscriber_step True (retain_topic ''a1'' GlobalTopic (connect_and_subscribe True topics_new))
   in set (the (active_topics tp)) = redis_channel ` {key. 0 < desired_refcount tp key}"
proof -
  let ?tp = "subscriber_step True (retain_topic ''a1'' GlobalTopic (connect_and_subscribe True topics_new))"
  have "topics_step topics_new (connect_and_subscribe True topics_new)"
    by (rule reconnects) (simp add: topics_new_def)
  moreover have "topics_step (connect_and_subscribe True topics_new) (retain_topic ''a1'' GlobalTopic (connect_and_subscribe True topics_new))"
    by (rule retains) (simp add: plain_key_def from_context_def no_colon_def)
  moreover have "topics_step (retain_topic ''a1'' GlobalTopic (connect_and_subscribe True topics_new)) ?tp" by (rule command)
  ultimately have "topics_step\<^sup>*\<^sup>* topics_new ?tp" by (meson converse_rtranclp_into_rtranclp rtranclp.rtrancl_refl)
  moreover have "\<exists>active. active_topics ?tp = Some active" "subscription_tx ?tp = []" "debounced ?tp = []"
    by (simp_all add: subscriber_step_def retain_topic_def connect_and_subscribe_def topics_new_def handle_command_def Let_def)
  ultimately show ?thesis using subscriptions_follow_interest [of ?tp] by (auto simp: Let_def)
qed

end
