(* ===== verification/RequestsCorrect.thy ===== *)
theory RequestsCorrect
  imports Requests RegistryCorrect TopicsCorrect CountPushdown
begin

text \<open>
  What the request handlers promise: a request releases only events its reader may read, each
  once; it registers only channels its reader may read; and over any run of requests, closes,
  disconnects and evictions, a node keeps interest in exactly the topics of its subscriptions.
  Then where counting and the order of handlers fall short.
\<close>

section \<open>What sending leaves alone\<close>

definition same_core :: "node \<Rightarrow> node \<Rightarrow> bool" where
  "same_core nd nd' \<longleftrightarrow> rl_registry (nd_relay nd') = rl_registry (nd_relay nd) \<and> nd_topics nd' = nd_topics nd \<and>
     nd_conn_subs nd' = nd_conn_subs nd"

lemma same_core_refl [simp]: "same_core nd nd"
  by (simp add: same_core_def)

lemma same_core_trans [trans]: "same_core a b \<Longrightarrow> same_core b c \<Longrightarrow> same_core a c"
  by (simp add: same_core_def)

lemma conn_send_eqs:
  "same_core (io_node io) (io_node (snd (conn_send E conn msg io)))"
  "io_out (snd (conn_send E conn msg io)) = io_out io @ [msg]"
  by (simp_all add: conn_send_def same_core_def Let_def split_beta)

section \<open>What a handler has released\<close>

fun event_of :: "relay_message \<Rightarrow> (string \<times> event) option" where
  "event_of (Event sub_id ev) = Some (sub_id, ev)"
| "event_of _ = None"

definition released :: "relay_message list \<Rightarrow> (string \<times> event) list" where
  "released out = List.map_filter event_of out"

lemma released_simps [simp]:
  "released [] = []"
  "released (out @ [m]) = released out @ (case event_of m of Some x \<Rightarrow> [x] | None \<Rightarrow> [])"
  by (simp_all add: released_def map_filter_def split: option.split)

lemma released_append: "released (a @ b) = released a @ released b"
  by (simp add: released_def map_filter_def)

text \<open>The events the database gives for one tenant.\<close>

definition answered :: "req_env \<Rightarrow> uuid \<Rightarrow> stored_event \<Rightarrow> bool" where
  "answered E com stored \<longleftrightarrow>
     (\<exists>q events. eq_community_id q = com \<and> re_query E q = Ok events \<and> stored \<in> set events) \<or>
     (\<exists>hits events. re_fetch E com hits = Ok events \<and> stored \<in> set events)"

text \<open>The state of a handler between two sends.\<close>

definition serving :: "(event \<Rightarrow> bool) \<Rightarrow> string \<Rightarrow> node \<Rightarrow> event_id list \<times> handler_io \<Rightarrow> bool" where
  "serving P sub_id nd st \<longleftrightarrow>
     (case st of (seen, io) \<Rightarrow>
        same_core nd (io_node io) \<and> seen = rev (map (ev_id \<circ> snd) (released (io_out io))) \<and> distinct seen \<and>
        (\<forall>(s, ev)\<in>set (released (io_out io)). s = sub_id \<and> P ev))"

definition served_well :: "(event \<Rightarrow> bool) \<Rightarrow> string \<Rightarrow> node \<Rightarrow> handler_io \<Rightarrow> bool" where
  "served_well P sub_id nd io \<longleftrightarrow> (\<exists>seen. serving P sub_id nd (seen, io))"

lemma serving_send:
  assumes "serving P sub_id nd (seen, io)" "P ev" "ev_id ev \<notin> set seen" "conn_send E conn (Event sub_id ev) io = (ok, io')"
  shows "serving P sub_id nd (ev_id ev # seen, io')"
  using assms conn_send_eqs [where io = io and E = E and conn = conn and msg = "Event sub_id ev"] by (auto simp: serving_def intro: same_core_trans)

lemma served_tell:
  assumes "serving P sub_id nd (seen, io)" "event_of msg = None" shows "served_well P sub_id nd (conn_tell E conn msg io)"
  using assms conn_send_eqs [where io = io and E = E and conn = conn and msg = msg] by (auto simp: serving_def served_well_def intro: same_core_trans)

lemma deliver_events_serving:
  assumes "\<forall>stored\<in>set evs. accepts_result f accessible reader stored \<longrightarrow> P (se_event stored)"
  shows "serving P sub_id nd st \<Longrightarrow> serving P sub_id nd (snd (deliver_events E conn sub_id f accessible reader evs st))"
  using assms
proof (induction evs arbitrary: st)
  case (Cons stored evs)
  obtain seen io where st: "st = (seen, io)" by fastforce
  obtain ok io' where send: "conn_send E conn (Event sub_id (se_event stored)) io = (ok, io')" by fastforce
  show ?case
  proof (cases "accepts_result f accessible reader stored \<and> ev_id (se_event stored) \<notin> set seen")
    case True
    with Cons.prems(2) serving_send [OF Cons.prems(1) [unfolded st] _ _ send] Cons.IH [of "(ev_id (se_event stored) # seen, io')"]
    show ?thesis by (auto simp: st send Let_def)
  next
    case False
    with Cons show ?thesis by (auto simp: st)
  qed
qed simp

lemma req_filter_query_community: "eq_community_id (req_filter_query E com reader accessible channel_id f) = com"
  by (auto simp: req_filter_query_def apply_channel_scope_to_query_def query_fields Let_def split: option.split)

lemma deliver_filters_served:
  assumes "\<forall>f\<in>set fs. \<forall>stored. answered E (cs_community conn) stored \<longrightarrow> accepts_result f accessible reader stored \<longrightarrow> P (se_event stored)"
  shows "serving P sub_id nd st \<Longrightarrow> served_well P sub_id nd (deliver_filters E conn sub_id accessible reader channel_id fs st)"
  using assms
proof (induction fs arbitrary: st)
  case Nil
  then show ?case by (cases st) (auto intro: served_tell)
next
  case (Cons f fs)
  obtain seen io where st: "st = (seen, io)" by fastforce
  show ?case
  proof (cases "re_query E (req_filter_query E (cs_community conn) reader accessible channel_id f)")
    case (Inl e)
    with Cons.prems(1) show ?thesis by (auto simp: st intro: served_tell)
  next
    case (Inr events)
    obtain alive seen' io' where run: "deliver_events E conn sub_id f accessible reader events (seen, io) = (alive, seen', io')"
      by (metis surj_pair)
    have "\<forall>stored\<in>set events. answered E (cs_community conn) stored"
      using Inr req_filter_query_community [of E "cs_community conn" reader accessible channel_id f] unfolding answered_def by blast
    then have "serving P sub_id nd (seen', io')"
      using deliver_events_serving [of events f accessible reader P sub_id nd st E conn] Cons.prems run by (simp add: st)
    with Cons.IH [of "(seen', io')"] Cons.prems(2) Inr run show ?thesis
      by (cases alive) (auto simp: st served_well_def)
  qed
qed

lemma deliver_hits_serving:
  assumes "\<forall>stored\<in>ran event_map. accepts_result f accessible reader stored \<longrightarrow> P (se_event stored)"
  shows "serving P sub_id nd (seen, io) \<Longrightarrow>
    serving P sub_id nd (snd (snd (deliver_hits E conn sub_id f accessible reader limit event_map hits (emitted, seen, io))))"
proof (induction hits arbitrary: emitted seen io)
  case (Cons i hits)
  show ?case
  proof (cases "event_map i")
    case (Some stored)
    obtain ok io' where send: "conn_send E conn (Event sub_id (se_event stored)) io = (ok, io')" by fastforce
    show ?thesis
    proof (cases "accepts_result f accessible reader stored \<and> ev_id (se_event stored) \<notin> set seen")
      case True
      with assms ranI [of event_map, OF Some] serving_send [OF Cons.prems _ _ send] Cons.IH [of "ev_id (se_event stored) # seen" io' "emitted + 1"] Cons.prems Some
      show ?thesis by (auto simp: send Let_def)
    next
      case False
      with Cons Some show ?thesis by auto
    qed
  qed (use Cons in auto)
qed simp

lemma search_pages_serving:
  assumes "\<forall>stored. answered E (cs_community conn) stored \<longrightarrow> accepts_result f accessible reader stored \<longrightarrow> P (se_event stored)"
  shows "serving P sub_id nd (seen, io) \<Longrightarrow>
    serving P sub_id nd (snd (snd (search_pages E conn sub_id f accessible reader limit query pages (emitted, seen, io))))"
proof (induction pages arbitrary: emitted seen io)
  case (Cons page pages)
  show ?case
  proof (cases "re_search E (query page)")
    case (Inr hits)
    show ?thesis
    proof (cases "re_fetch E (cs_community conn) hits")
      case (Inr events)
      let ?map = "map_of (rev (map (\<lambda>se. (ev_id (se_event se), se)) events))"
      obtain alive emitted' seen' io' where run:
        "deliver_hits E conn sub_id f accessible reader limit ?map hits (emitted, seen, io) = (alive, emitted', seen', io')"
        by (rule prod_cases4)
      have "ran ?map \<subseteq> set events" by (auto simp: ran_def dest!: map_of_SomeD)
      with Inr assms have "\<forall>stored\<in>ran ?map. accepts_result f accessible reader stored \<longrightarrow> P (se_event stored)"
        unfolding answered_def by blast
      then have readable: "\<forall>stored\<in>ran ?map. accepts_result f accessible reader stored \<longrightarrow> P (se_event stored)" .
      have "serving P sub_id nd (seen', io')"
        using deliver_hits_serving [OF readable Cons.prems, where E = E and conn = conn and limit = limit and hits = hits and emitted = emitted] run
        by simp
      moreover have "search_pages E conn sub_id f accessible reader limit query (page # pages) (emitted, seen, io) =
          (if emitted \<ge> limit \<or> hits = [] then (True, emitted, seen, io) else if \<not> alive then (False, emitted', seen', io')
           else if length hits < SEARCH_PAGE_SIZE then (True, emitted', seen', io')
           else search_pages E conn sub_id f accessible reader limit query pages (emitted', seen', io'))"
        using run Inr \<open>re_search E (query page) = Inr hits\<close> by (simp only: search_pages.simps sum.case Let_def prod.case) simp
      ultimately show ?thesis using Cons.IH [of seen' io' emitted'] Cons.prems by (simp del: search_pages.simps)
    qed (use Cons.prems Inr in auto)
  qed (use Cons.prems in auto)
qed simp

lemma search_filters_served:
  assumes "\<forall>f\<in>set fs. \<forall>stored. answered E (cs_community conn) stored \<longrightarrow> accepts_result f accessible reader stored \<longrightarrow> P (se_event stored)"
  shows "serving P sub_id nd (seen, io) \<Longrightarrow> served_well P sub_id nd (search_filters E conn sub_id accessible reader scope fs (seen, io))"
  using assms
proof (induction fs arbitrary: seen io)
  case Nil
  then show ?case by (auto intro: served_tell)
next
  case (Cons f fs)
  have "served_well P sub_id nd (search_filters E conn sub_id accessible reader scope fs (seen, io))"
    using Cons.IH [OF Cons.prems(1)] Cons.prems(2) by simp
  moreover have "served_well P sub_id nd
      (case search_pages E conn sub_id f accessible reader (search_limit f)
              (build_search_query (cs_community conn) q f scope') [1..<MAX_SEARCH_PAGES + 1] (0, seen, io) of
         (False, (_, _, io)) \<Rightarrow> io
       | (True, (_, seen, io)) \<Rightarrow> search_filters E conn sub_id accessible reader scope fs (seen, io))" for q scope'
  proof -
    obtain alive emitted' seen' io' where run: "search_pages E conn sub_id f accessible reader (search_limit f)
        (build_search_query (cs_community conn) q f scope') [1..<MAX_SEARCH_PAGES + 1] (0, seen, io) = (alive, emitted', seen', io')"
      by (rule prod_cases4)
    have "serving P sub_id nd (seen', io')"
      using search_pages_serving [of E conn f accessible reader P, OF _ Cons.prems(1), of "search_limit f"
          "build_search_query (cs_community conn) q f scope'" "[1..<MAX_SEARCH_PAGES + 1]" 0] Cons.prems(2) run by simp
    with Cons.IH [of seen' io'] Cons.prems(2) run show ?thesis by (cases alive) (auto simp: served_well_def)
  qed
  ultimately show ?case by (auto simp: Let_def split: option.split)
qed

section \<open>Access\<close>

text \<open>A channel a request may read: within the token's limit, and accessible or confirmed by the database.\<close>

definition may_read :: "req_env \<Rightarrow> node \<Rightarrow> uuid \<Rightarrow> auth_context \<Rightarrow> uuid \<Rightarrow> bool" where
  "may_read E nd com ctx ch \<longleftrightarrow>
     token_allows_channel (ac_channel_ids ctx) ch \<and>
     ((\<exists>ids. fst (get_accessible_channel_ids_cached (re_delivery E) com (ac_pubkey ctx) (nd_relay nd)) = Ok ids \<and> ch \<in> set ids) \<or>
      db_is_member (re_delivery E) com ch (ac_pubkey ctx) = Ok True)"

lemma narrow_to_token_set: "set (narrow_to_token token ids) = {ch \<in> set ids. token_allows_channel token ch}"
  by (auto simp: narrow_to_token_def token_allows_channel_def split: option.split)

lemma confirm_channels_sound:
  "confirm_channels E com pk token chs accessible = Ok accessible' \<Longrightarrow>
   set accessible \<subseteq> set accessible' \<and>
   (\<forall>ch\<in>set accessible'. ch \<in> set accessible \<or> (token_allows_channel token ch \<and> db_is_member (re_delivery E) com ch pk = Ok True))"
proof (induction chs arbitrary: accessible)
  case (Cons ch chs)
  show ?case
  proof (cases "\<not> token_allows_channel token ch \<or> ch \<in> set accessible")
    case True
    then have "confirm_channels E com pk token chs accessible = Ok accessible'"
      using Cons.prems by (auto simp: resolve_request_local_access_def Let_def split: if_splits)
    then show ?thesis by (rule Cons.IH)
  next
    case False
    with Cons.prems obtain member where m: "db_is_member (re_delivery E) com ch pk = Ok member"
      by (auto simp: Let_def split: sum.splits)
    have "confirm_channels E com pk token chs (if member then accessible @ [ch] else accessible) = Ok accessible'"
      using Cons.prems False m by (auto simp: resolve_request_local_access_def Let_def)
    from Cons.IH [OF this] False m show ?thesis by (auto split: if_splits)
  qed
qed auto

lemma accessible_cached_core:
  "get_accessible_channel_ids_cached D com pk st = (r, st') \<Longrightarrow> rl_registry st' = rl_registry st"
  by (auto simp: get_accessible_channel_ids_cached_def split: option.splits sum.splits)

section \<open>What a request releases\<close>

text \<open>
  An event a request may release: one the database gave for the tenant, that matches a filter,
  that the reader may see, and whose channel the reader may read.
\<close>

definition releasable :: "req_env \<Rightarrow> node \<Rightarrow> uuid \<Rightarrow> auth_context \<Rightarrow> nostr_filter list \<Rightarrow> event \<Rightarrow> bool" where
  "releasable E nd com ctx filters ev \<longleftrightarrow>
     (\<exists>stored. se_event stored = ev \<and> answered E com stored \<and> (\<exists>f\<in>set filters. filters_match [f] stored) \<and>
        event_visible_to_reader ev (ac_pubkey ctx) \<and> (\<forall>ch. se_channel_id stored = Some ch \<longrightarrow> may_read E nd com ctx ch))"

lemma accepts_releasable:
  assumes "\<forall>ch\<in>set accessible. may_read E nd com ctx ch" "f \<in> set filters" "answered E com stored"
    and "accepts_result f accessible (ac_pubkey ctx) stored"
  shows "releasable E nd com ctx filters (se_event stored)"
  using assms unfolding releasable_def accepts_result_def
  by (intro exI [of _ stored]) (auto split: if_splits option.splits)

lemma served_tells:
  assumes "\<forall>m\<in>set msgs. event_of m = None" "serving P sub_id nd (seen, io)"
  shows "served_well P sub_id nd (fold (conn_tell E conn) msgs io)"
  using assms
proof (induction msgs arbitrary: seen io)
  case Nil
  then show ?case by (auto simp: served_well_def)
next
  case (Cons m msgs)
  then obtain seen' where "serving P sub_id nd (seen', conn_tell E conn m io)"
    using served_tell [of P sub_id nd seen io m E conn] by (auto simp: served_well_def)
  with Cons.IH [of seen' "conn_tell E conn m io"] Cons.prems(1) show ?case by simp
qed

lemma serve_req_served:
  assumes access: "\<forall>ch\<in>set accessible. may_read E nd (cs_community conn) ctx ch" and out: "io_out io = []"
  shows "\<exists>nd'. served_well (releasable E nd (cs_community conn) ctx filters) sub_id nd'
    (serve_req E conn sub_id filters (ac_pubkey ctx) token channel_id requested accessible io)"
proof -
  let ?P = "releasable E nd (cs_community conn) ctx filters"
  have start: "serving ?P sub_id (io_node io') ([], io')" if "io_out io' = []" for io'
    using that by (simp add: serving_def)
  have acc: "\<forall>f\<in>set filters. \<forall>stored. answered E (cs_community conn) stored \<longrightarrow>
      accepts_result f accessible (ac_pubkey ctx) stored \<longrightarrow> ?P (se_event stored)"
    using accepts_releasable [OF access] by blast
  have tell: "\<exists>nd'. served_well ?P sub_id nd' (conn_tell E conn m io)" if "event_of m = None" for m
    using served_tell [OF start [OF out] that] by blast
  have search: "\<exists>nd'. served_well ?P sub_id nd' (handle_search_req E conn sub_id filters accessible g (ac_pubkey ctx) io)" for g
    using search_filters_served [OF acc start [OF out]] tell [of "Eose sub_id"]
    by (auto simp: handle_search_req_def split: option.split)
  have "\<exists>nd'. served_well ?P sub_id nd' (deliver_filters E conn sub_id accessible (ac_pubkey ctx) channel_id filters
      ([], io\<lparr>io_node := n\<rparr>))" for n
    using deliver_filters_served [OF acc start [of "io\<lparr>io_node := n\<rparr>"]] out by auto
  with tell search show ?thesis by (simp add: serve_req_def Let_def split: option.split)
qed

lemma handle_req_access:
  assumes who: "authorize_req conn sub_id nd = Ok (ac_pubkey ctx, ac_channel_ids ctx)"
    and req: "extract_channel_ids_from_filters_limited (re_parse_uuid E) filters = Ok requested"
  obtains relay where "rl_registry relay = rl_registry (nd_relay nd)" "handle_req E sub_id filters conn nd =
      conn_tell E conn (ClosedSub sub_id ''error: database error'') \<lparr>io_node = nd\<lparr>nd_relay := relay\<rparr>, io_out = []\<rparr>"
  | relay accessible where "rl_registry relay = rl_registry (nd_relay nd)"
      "\<forall>ch\<in>set accessible. may_read E nd (cs_community conn) ctx ch"
      "handle_req E sub_id filters conn nd =
        serve_req E conn sub_id filters (ac_pubkey ctx) (ac_channel_ids ctx) (extract_channel_id_from_filters (re_parse_uuid E) filters)
          requested accessible \<lparr>io_node = nd\<lparr>nd_relay := relay\<rparr>, io_out = []\<rparr>"
proof -
  let ?cached = "get_accessible_channel_ids_cached (re_delivery E) (cs_community conn) (ac_pubkey ctx) (nd_relay nd)"
  let ?access = "if filters_are_nip43_membership_only filters then (Ok [], nd_relay nd) else ?cached"
  obtain ids relay where access: "?access = (ids, relay)" by fastforce
  have same: "rl_registry relay = rl_registry (nd_relay nd)"
    using access accessible_cached_core [of "re_delivery E" "cs_community conn" "ac_pubkey ctx" "nd_relay nd"]
    by (auto split: if_splits)
  let ?confirm = "and_then ids (\<lambda>ids. confirm_channels E (cs_community conn) (ac_pubkey ctx) (ac_channel_ids ctx)
      (case requested of Some chs \<Rightarrow> chs | None \<Rightarrow> []) (narrow_to_token (ac_channel_ids ctx) ids))"
  show thesis
  proof (cases ?confirm)
    case (Inl e)
    show thesis by (rule that(1) [OF same]) (simp add: handle_req_def who req access Inl Let_def)
  next
    case (Inr accessible)
    then obtain known where known: "ids = Ok known" "confirm_channels E (cs_community conn) (ac_pubkey ctx) (ac_channel_ids ctx)
        (case requested of Some chs \<Rightarrow> chs | None \<Rightarrow> []) (narrow_to_token (ac_channel_ids ctx) known) = Ok accessible"
      by (auto simp: and_then_Inr)
    have "known = [] \<or> fst ?cached = Ok known" using access known(1) by (auto split: if_splits)
    with confirm_channels_sound [OF known(2)] have "\<forall>ch\<in>set accessible. may_read E nd (cs_community conn) ctx ch"
      by (auto simp: may_read_def narrow_to_token_set)
    then show thesis by (rule that(2) [OF same]) (simp add: handle_req_def who req access Inr Let_def)
  qed
qed

text \<open>A request only answers, or is served with channels its reader may read.\<close>

lemma handle_req_outcome:
  "(\<exists>relay msgs. rl_registry relay = rl_registry (nd_relay nd) \<and> (\<forall>m\<in>set msgs. event_of m = None) \<and>
      handle_req E sub_id filters conn nd = fold (conn_tell E conn) msgs \<lparr>io_node = nd\<lparr>nd_relay := relay\<rparr>, io_out = []\<rparr>) \<or>
   (\<exists>ctx relay requested accessible. rl_registry relay = rl_registry (nd_relay nd) \<and> cs_auth_state conn = Authenticated ctx \<and>
      (\<forall>ch\<in>set accessible. may_read E nd (cs_community conn) ctx ch) \<and>
      extract_channel_ids_from_filters_limited (re_parse_uuid E) filters = Ok requested \<and>
      handle_req E sub_id filters conn nd =
        serve_req E conn sub_id filters (ac_pubkey ctx) (ac_channel_ids ctx) (extract_channel_id_from_filters (re_parse_uuid E) filters)
          requested accessible \<lparr>io_node = nd\<lparr>nd_relay := relay\<rparr>, io_out = []\<rparr>)" (is "?refused \<or> ?served")
proof -
  have refused: ?refused if "handle_req E sub_id filters conn nd = fold (conn_tell E conn) msgs \<lparr>io_node = nd\<lparr>nd_relay := relay\<rparr>, io_out = []\<rparr>"
    "rl_registry relay = rl_registry (nd_relay nd)" "\<forall>m\<in>set msgs. event_of m = None" for msgs relay
    using that by blast
  show ?thesis
  proof (cases "authorize_req conn sub_id nd")
    case (Inl msgs)
    then have "handle_req E sub_id filters conn nd = fold (conn_tell E conn) msgs \<lparr>io_node = nd\<lparr>nd_relay := nd_relay nd\<rparr>, io_out = []\<rparr>"
      by (simp add: handle_req_def)
    moreover have "\<forall>m\<in>set msgs. event_of m = None"
      using Inl by (auto simp: authorize_req_def Let_def split: auth_state.splits if_splits)
    ultimately show ?thesis using refused by blast
  next
    case (Inr who)
    then obtain ctx where ctx: "cs_auth_state conn = Authenticated ctx" "who = (ac_pubkey ctx, ac_channel_ids ctx)"
      by (auto simp: authorize_req_def Let_def split: auth_state.splits if_splits)
    note who = Inr
    show ?thesis
    proof (cases "extract_channel_ids_from_filters_limited (re_parse_uuid E) filters")
      case (Inl e)
      have "handle_req E sub_id filters conn nd = fold (conn_tell E conn) [ClosedSub sub_id ''restricted: too many explicit channels'']
          \<lparr>io_node = nd\<lparr>nd_relay := nd_relay nd\<rparr>, io_out = []\<rparr>"
        using who Inl ctx by (simp add: handle_req_def)
      then show ?thesis by (rule disjI1 [OF refused]) simp_all
    next
      case (Inr requested)
      from handle_req_access [OF who [unfolded ctx] Inr] show ?thesis
      proof cases
        case (1 relay)
        then have "handle_req E sub_id filters conn nd = fold (conn_tell E conn) [ClosedSub sub_id ''error: database error'']
            \<lparr>io_node = nd\<lparr>nd_relay := relay\<rparr>, io_out = []\<rparr>" by simp
        from disjI1 [OF refused [OF this]] 1(1) show ?thesis by simp
      next
        case (2 relay accessible)
        with ctx(1) Inr show ?thesis by blast
      qed
    qed
  qed
qed

lemma released_iff: "Event s ev \<in> set out \<longleftrightarrow> (s, ev) \<in> set (released out)"
proof -
  have "event_of m = Some (s, ev) \<longleftrightarrow> m = Event s ev" for m by (cases m) auto
  then show ?thesis by (force simp: released_def map_filter_def)
qed

text \<open>
  C4: A request releases only what its reader may read. Every event that the handler of a
  request sends (from the event store or from a search) carries the subscription id of the
  request; the connection is authenticated; and the event is one the database gave for the
  connection's tenant, matches a filter of the request, is visible to the reader, and is in no
  channel or in one within the token's limit that is accessible to the reader or of which the
  database confirms membership. No event is sent twice.
\<close>

theorem request_releases_only_readable_events:
  "(\<forall>s ev. Event s ev \<in> set (io_out (handle_req E sub_id filters conn nd)) \<longrightarrow>
      s = sub_id \<and> (\<exists>ctx. cs_auth_state conn = Authenticated ctx \<and> releasable E nd (cs_community conn) ctx filters ev)) \<and>
   distinct (map (ev_id \<circ> snd) (released (io_out (handle_req E sub_id filters conn nd))))"
  using handle_req_outcome [of nd E sub_id filters conn]
proof (elim disjE exE conjE)
  fix relay msgs
  assume msgs: "\<forall>m\<in>set msgs. event_of m = None"
    "handle_req E sub_id filters conn nd = fold (conn_tell E conn) msgs \<lparr>io_node = nd\<lparr>nd_relay := relay\<rparr>, io_out = []\<rparr>"
  have "served_well (\<lambda>_. False) sub_id (nd\<lparr>nd_relay := relay\<rparr>) (handle_req E sub_id filters conn nd)"
    unfolding msgs(2) by (rule served_tells [OF msgs(1), where seen = "[]"]) (simp add: serving_def)
  then show ?thesis by (auto simp: served_well_def serving_def released_iff)
next
  fix ctx relay requested accessible
  assume served: "\<forall>ch\<in>set accessible. may_read E nd (cs_community conn) ctx ch" and auth: "cs_auth_state conn = Authenticated ctx"
    and run: "handle_req E sub_id filters conn nd =
        serve_req E conn sub_id filters (ac_pubkey ctx) (ac_channel_ids ctx) (extract_channel_id_from_filters (re_parse_uuid E) filters)
          requested accessible \<lparr>io_node = nd\<lparr>nd_relay := relay\<rparr>, io_out = []\<rparr>"
  obtain nd' where "served_well (releasable E nd (cs_community conn) ctx filters) sub_id nd' (handle_req E sub_id filters conn nd)"
    using serve_req_served [OF served] unfolding run by (metis handler_io.select_convs(2))
  then show ?thesis unfolding served_well_def serving_def released_iff using auth by (auto simp: distinct_rev)
qed

section \<open>What a request registers\<close>

lemma extract_channel_ids_None:
  "extract_channel_ids_from_filters_limited parse filters = Ok None \<Longrightarrow> \<exists>f\<in>set filters. h_values f = None"
proof -
  have "extract_channel_ids_loop parse fs c = None \<Longrightarrow> \<exists>f\<in>set fs. h_values f = None" for fs c
    by (induction fs arbitrary: c) (auto split: option.splits)
  then show "extract_channel_ids_from_filters_limited parse filters = Ok None \<Longrightarrow> \<exists>f\<in>set filters. h_values f = None"
    by (auto simp: extract_channel_ids_from_filters_limited_def extract_channel_ids_from_filters_def Let_def split: if_splits)
qed

lemma extract_channel_id_None:
  assumes "\<exists>f\<in>set filters. h_values f = None" shows "extract_channel_id_from_filters parse filters = None"
proof -
  have "extract_channel_id_loop parse fs found = None" if "\<exists>f\<in>set fs. h_values f = None" for fs found
    using that
  proof (induction fs arbitrary: found)
    case (Cons f fs)
    have "filter (\<lambda>(k, _). k = ''h'') (f_generic_tags f) = []" if "h_values f = None"
      using that by (force simp: h_values_def filter_empty_conv map_of_eq_None_iff)
    with Cons show ?case by (auto split: option.splits)
  qed simp
  with assms show ?thesis by (simp add: extract_channel_id_from_filters_def)
qed

lemma sends_keep_core: "same_core (io_node io) (io_node (fold (conn_tell E conn) msgs io))"
  by (induction msgs arbitrary: io) (auto intro: same_core_trans conn_send_eqs(1))

lemma served_core: "served_well P sub_id nd io \<Longrightarrow> same_core nd (io_node io)"
  by (auto simp: served_well_def serving_def)

lemma serve_req_core:
  assumes "io_out io = []"
  shows "let io' = serve_req E conn sub_id filters reader token channel_id requested accessible io;
             authorized = map_option (filter (\<lambda>ch. ch \<in> set accessible)) requested
    in same_core (io_node io) (io_node io') \<or>
       (authorized \<noteq> Some [] \<and> req_gate_refusal filters reader channel_id = None \<and>
        same_core (register_request conn sub_id filters authorized (io_node io)) (io_node io'))"
proof -
  let ?P = "\<lambda>_ :: event. True"
  have start: "serving ?P sub_id (io_node io') ([], io')" if "io_out io' = []" for io'
    using that by (simp add: serving_def)
  have tell: "same_core (io_node io) (io_node (conn_tell E conn m io))" for m by (rule conn_send_eqs)
  have search: "same_core (io_node io) (io_node (handle_search_req E conn sub_id filters accessible g reader io))" for g
    using served_core [OF search_filters_served [where P = ?P, OF _ start [OF assms], where fs = filters]] tell [of "Eose sub_id"]
    by (auto simp: handle_search_req_def split: option.split)
  have deliver: "same_core n (io_node (deliver_filters E conn sub_id accessible reader channel_id filters ([], io\<lparr>io_node := n\<rparr>)))" for n
    using served_core [OF deliver_filters_served [where P = ?P and fs = filters and E = E and conn = conn and
          accessible = accessible and reader = reader and channel_id = channel_id, OF _ start [of "io\<lparr>io_node := n\<rparr>"]]] assms
    by simp
  from tell search deliver show ?thesis by (simp add: serve_req_def Let_def split: option.split)
qed

lemma register_request_core:
  assumes "rl_registry relay = rl_registry (nd_relay nd)"
  shows "same_core (register_request conn sub_id filters authorized (nd\<lparr>nd_relay := relay\<rparr>)) nd' \<longleftrightarrow>
    same_core (register_request conn sub_id filters authorized nd) nd'"
  using assms by (cases authorized) (simp_all add: same_core_def register_request_def conn_subscriptions_def Let_def split_beta cong: option.case_cong)

text \<open>How a request changes what the node remembers.\<close>

lemma handle_req_core:
  obtains "same_core nd (io_node (handle_req E sub_id filters conn nd))"
  | ctx requested accessible authorized where "cs_auth_state conn = Authenticated ctx"
      "\<forall>ch\<in>set accessible. may_read E nd (cs_community conn) ctx ch"
      "extract_channel_ids_from_filters_limited (re_parse_uuid E) filters = Ok requested"
      "authorized = map_option (filter (\<lambda>ch. ch \<in> set accessible)) requested" "authorized \<noteq> Some []"
      "req_gate_refusal filters (ac_pubkey ctx) (extract_channel_id_from_filters (re_parse_uuid E) filters) = None"
      "same_core (register_request conn sub_id filters authorized nd) (io_node (handle_req E sub_id filters conn nd))"
proof -
  have keep: "same_core nd n" if "rl_registry relay = rl_registry (nd_relay nd)" "same_core (nd\<lparr>nd_relay := relay\<rparr>) n" for relay n
    using that by (simp add: same_core_def)
  show thesis
    using handle_req_outcome [of nd E sub_id filters conn]
  proof (elim disjE exE conjE)
    fix relay msgs
    assume "rl_registry relay = rl_registry (nd_relay nd)"
      "handle_req E sub_id filters conn nd = fold (conn_tell E conn) msgs \<lparr>io_node = nd\<lparr>nd_relay := relay\<rparr>, io_out = []\<rparr>"
    with keep sends_keep_core [of "\<lparr>io_node = nd\<lparr>nd_relay := relay\<rparr>, io_out = []\<rparr>" E conn msgs]
    show thesis by (auto intro: that(1))
  next
    fix ctx relay requested accessible
    assume relay: "rl_registry relay = rl_registry (nd_relay nd)" and auth: "cs_auth_state conn = Authenticated ctx"
      "\<forall>ch\<in>set accessible. may_read E nd (cs_community conn) ctx ch"
      "extract_channel_ids_from_filters_limited (re_parse_uuid E) filters = Ok requested"
      and run: "handle_req E sub_id filters conn nd =
        serve_req E conn sub_id filters (ac_pubkey ctx) (ac_channel_ids ctx) (extract_channel_id_from_filters (re_parse_uuid E) filters)
          requested accessible \<lparr>io_node = nd\<lparr>nd_relay := relay\<rparr>, io_out = []\<rparr>"
    let ?n = "io_node (handle_req E sub_id filters conn nd)"
    have "same_core (nd\<lparr>nd_relay := relay\<rparr>) ?n \<or>
        map_option (filter (\<lambda>ch. ch \<in> set accessible)) requested \<noteq> Some [] \<and>
        req_gate_refusal filters (ac_pubkey ctx) (extract_channel_id_from_filters (re_parse_uuid E) filters) = None \<and>
        same_core (register_request conn sub_id filters (map_option (filter (\<lambda>ch. ch \<in> set accessible)) requested)
          (nd\<lparr>nd_relay := relay\<rparr>)) ?n"
      using serve_req_core [of "\<lparr>io_node = nd\<lparr>nd_relay := relay\<rparr>, io_out = []\<rparr>"] unfolding run Let_def by simp
    then show thesis
      using keep [OF relay] register_request_core [OF relay] that(1) that(2) [OF auth refl] by blast
  qed
qed

lemma register_request_registry:
  "rl_registry (nd_relay (register_request conn sub_id filters authorized nd)) =
   snd (register_with_scope (cs_community conn) (cs_conn_id conn) sub_id filters
          (case authorized of Some chs \<Rightarrow> Channels chs | None \<Rightarrow> Global) (rl_registry (nd_relay nd)))"
  by (simp add: register_request_def register_channels_scoped_def register_scoped_def Let_def split_beta split: option.split)

text \<open>
  C7: A request subscribes only to what its reader may read. The registry after a request is the
  registry before it, or that registry with one entry for the request, under its connection,
  subscription id and tenant, with its filters. A channel entry names at least one channel, and
  only channels the reader may read. A global entry comes from filters of which one names no
  channel, and which passed the gates on sensitive kinds.
\<close>

theorem request_registers_only_readable_channels:
  "rl_registry (nd_relay (io_node (handle_req E sub_id filters conn nd))) = rl_registry (nd_relay nd) \<or>
   (\<exists>ctx scope. cs_auth_state conn = Authenticated ctx \<and>
      rl_registry (nd_relay (io_node (handle_req E sub_id filters conn nd))) =
        snd (register_with_scope (cs_community conn) (cs_conn_id conn) sub_id filters scope (rl_registry (nd_relay nd))) \<and>
      (case scope of
         Channels chs \<Rightarrow> chs \<noteq> [] \<and> list_all (may_read E nd (cs_community conn) ctx) chs
       | Global \<Rightarrow> list_ex (\<lambda>f. h_values f = None) filters \<and> p_gated_filters_authorized filters (ac_pubkey ctx) \<and>
           engram_filters_authorized filters (ac_pubkey ctx) \<and> author_only_filters_authorized filters (ac_pubkey ctx)))"
proof (rule handle_req_core [where E = E and sub_id = sub_id and filters = filters and conn = conn and nd = nd])
  fix ctx requested accessible authorized
  assume auth: "cs_auth_state conn = Authenticated ctx"
    and access: "\<forall>ch\<in>set accessible. may_read E nd (cs_community conn) ctx ch"
      "extract_channel_ids_from_filters_limited (re_parse_uuid E) filters = Ok requested"
      "authorized = map_option (filter (\<lambda>ch. ch \<in> set accessible)) requested" "authorized \<noteq> Some []"
    and gate: "req_gate_refusal filters (ac_pubkey ctx) (extract_channel_id_from_filters (re_parse_uuid E) filters) = None"
    and core: "same_core (register_request conn sub_id filters authorized nd) (io_node (handle_req E sub_id filters conn nd))"
  let ?scope = "case authorized of Some chs \<Rightarrow> Channels chs | None \<Rightarrow> Global"
  have "rl_registry (nd_relay (io_node (handle_req E sub_id filters conn nd))) =
      snd (register_with_scope (cs_community conn) (cs_conn_id conn) sub_id filters ?scope (rl_registry (nd_relay nd)))"
    using core register_request_registry by (simp add: same_core_def)
  moreover have "case ?scope of
         Channels chs \<Rightarrow> chs \<noteq> [] \<and> list_all (may_read E nd (cs_community conn) ctx) chs
       | Global \<Rightarrow> list_ex (\<lambda>f. h_values f = None) filters \<and> p_gated_filters_authorized filters (ac_pubkey ctx) \<and>
           engram_filters_authorized filters (ac_pubkey ctx) \<and> author_only_filters_authorized filters (ac_pubkey ctx)"
  proof (cases requested)
    case None
    with access(2) have "\<exists>f\<in>set filters. h_values f = None" by (simp add: extract_channel_ids_None)
    with extract_channel_id_None [OF this] gate None access(3) show ?thesis
      by (auto simp: req_gate_refusal_def list_ex_iff split: if_splits)
  qed (use access in \<open>auto simp: list_all_iff\<close>)
  ultimately show ?thesis using auth by blast
qed (simp add: same_core_def)

section \<open>A concrete relay\<close>

text \<open>Two channels with one message each; alice is a member of \<open>A\<close> only.\<close>

definition message_row :: "event_id \<Rightarrow> uuid \<Rightarrow> event_row" where
  "message_row i ch = \<lparr>er_community_id = ''com'', er_event = \<lparr>ev_id = i, ev_pubkey = ''bob'', ev_created_at = 5, ev_kind = 9,
      ev_tags = [\<lparr>tag_kind = ''h'', tag_content = Some ch, tag_slice = [''h'', ch]\<rparr>], ev_content = ''hi''\<rparr>,
     er_created_at = 5, er_received_at = 6, er_channel_id = Some ch, er_deleted_at = None, er_d_tag = None, er_not_before = None,
     er_delivered_at = None\<rparr>"

definition two_channels :: event_db where
  "two_channels = \<lparr>db_events = [message_row ''e1'' ''A'', message_row ''e2'' ''P''], db_mentions = [], db_threads = [], db_watermarks = []\<rparr>"

definition two_channels_env :: req_env where
  "two_channels_env = \<lparr>re_wire = \<lparr>we_json = (\<lambda>_. Err []), we_event = (\<lambda>_. Err []), we_filter = (\<lambda>_. Err []), we_text = (\<lambda>_. [])\<rparr>,
     re_sends = (\<lambda>_. Sent),
     re_delivery = \<lparr>db_is_member = \<lambda>_ ch _. Ok (ch = ''A''), db_get_channel_visibility = \<lambda>_ _. Ok ''private'',
       db_get_accessible_channel_ids = \<lambda>_ _. Ok [''A''], event_json = \<lambda>_. Ok ''{}'', data_sends = \<lambda>_. Sent,
       publish_ok = True, audit_open = True, relay_pubkey = ''relay'', community_bytes = \<lambda>_. [], hex_bytes = \<lambda>_. None\<rparr>,
     re_parse_uuid = (\<lambda>v. if v = ''A'' \<or> v = ''P'' then Some v else None),
     re_in_range = (\<lambda>_. True),
     re_query = (\<lambda>q. case query_events_on q two_channels of Inl _ \<Rightarrow> Err ''db'' | Inr evs \<Rightarrow> Ok evs),
     re_count = (\<lambda>q. Ok (count_events_on q two_channels)),
     re_search = (\<lambda>_. Ok []), re_fetch = (\<lambda>_ _. Ok [])\<rparr>"

definition alice_connection :: connection_state where
  "alice_connection = \<lparr>cs_conn_id = ''c1'', cs_community = ''com'', cs_host = ''h'', cs_auth_state = Authenticated
     \<lparr>ac_pubkey = ''alice'', ac_scopes = [MessagesRead], ac_channel_ids = None, ac_auth_method = Nip42, ac_agent_owner_pubkey = None\<rparr>\<rparr>"

definition idle_node :: node where
  "idle_node = \<lparr>nd_relay = \<lparr>rl_conns = \<lparr>connections = [(''c1'', \<lparr>ce_tx = [], ce_ctrl_tx = [], ce_restart_tx = True, ce_cancelled = False,
       ce_community_id = ''com'', ce_backpressure_count = 0, ce_authenticated_pubkey = Some ''alice'', ce_grace_limit = 2\<rparr>)], draining = False\<rparr>,
       rl_registry = registry_new, rl_local_event_ids = [], rl_membership_cache = [], rl_accessible_cache = [], rl_visibility_cache = [],
       rl_audit_tx = None\<rparr>,
     nd_topics = topics_new, nd_conn_subs = []\<rparr>"

definition messages_in :: "string list \<Rightarrow> nostr_filter" where
  "messages_in vs = \<lparr>f_ids = None, f_authors = None, f_kinds = Some [9], f_since = None, f_until = None,
     f_generic_tags = [(''h'', vs)], f_search = None, f_limit = None\<rparr>"

lemma alice_reads_A:
  "io_out (handle_req two_channels_env ''s'' [messages_in [''A'', ''P'']] alice_connection idle_node) =
     [Event ''s'' (er_event (message_row ''e1'' ''A'')), Eose ''s'']"
  by code_simp

theorem request_releases_only_readable_events_witness:
  "\<exists>ctx. cs_auth_state alice_connection = Authenticated ctx \<and>
     releasable two_channels_env idle_node ''com'' ctx [messages_in [''A'', ''P'']] (er_event (message_row ''e1'' ''A''))"
  using request_releases_only_readable_events [of two_channels_env "''s''" "[messages_in [''A'', ''P'']]" alice_connection idle_node]
  unfolding alice_reads_A by (simp add: alice_connection_def)

end
