(* ===== verification/InterestCorrect.thy ===== *)
theory InterestCorrect
  imports RequestsCorrect
begin

text \<open>
  The composition of the request handlers, the subscription registry and the topic counts of a
  node: over any run of requests, counts, closes, disconnects, evictions, timers and subscriber
  commands, the count of a topic is the number of live subscriptions that want it. Then the
  bound on subscriptions, and what happens when the handler of a request runs after the one of
  the close that followed it.
\<close>

section \<open>Counting interest\<close>

definition scope_topics :: "scope \<Rightarrow> event_topic list" where
  "scope_topics sc = (if is_global sc then [GlobalTopic] else map ChannelTopic (channel_ids sc))"

fun wants_topic :: "sub_entry \<Rightarrow> event_topic_key \<Rightarrow> bool" where
  "wants_topic (fs, com, sc) key \<longleftrightarrow> tk_community_id key = com \<and> tk_topic key \<in> set (scope_topics sc)"

definition interested :: "registry \<Rightarrow> event_topic_key \<Rightarrow> conn_sub set" where
  "interested r key = {p. \<exists>e. lookup_sub r p = Some e \<and> wants_topic e key}"

lemma scope_topics_simps [simp]: "scope_topics Global = [GlobalTopic]" "scope_topics (Channels chs) = map ChannelTopic chs"
  by (simp_all add: scope_topics_def)

lemma channel_topic_wanted [simp]: "ChannelTopic ch \<in> set (scope_topics sc) \<longleftrightarrow> ch \<in> set (channel_ids sc)"
  by (cases sc) auto

lemma distinct_scope_topics: "distinct (channel_ids sc) \<Longrightarrow> distinct (scope_topics sc)"
  by (cases sc) (simp_all add: distinct_map inj_on_def)

lemma finite_lookup: "finite {p. lookup_sub r p \<noteq> None}"
proof (rule finite_subset)
  show "{p. lookup_sub r p \<noteq> None} \<subseteq> (\<Union>(c, m)\<in>set (subs r). Pair c ` fst ` set m)"
    by (force simp: lookup_sub_def split: option.splits dest: map_of_SomeD)
qed auto

lemma finite_interested [simp]: "finite (interested r key)"
  by (rule finite_subset [OF _ finite_lookup [of r]]) (auto simp: interested_def)

subsection \<open>Retaining and releasing several topics\<close>

abbreviation reached :: "topics \<Rightarrow> bool" where
  "reached tp \<equiv> topics_step\<^sup>*\<^sup>* topics_new tp"

lemma reached_step: "reached tp \<Longrightarrow> topics_step tp tp' \<Longrightarrow> reached tp'"
  by (rule rtranclp.rtrancl_into_rtrancl)

definition topic_uses :: "uuid \<Rightarrow> event_topic list \<Rightarrow> event_topic_key \<Rightarrow> nat" where
  "topic_uses com ts key = (if tk_community_id key = com then count_list ts (tk_topic key) else 0)"

lemma topic_uses_simps [simp]:
  "topic_uses com [] key = 0"
  "topic_uses com (t # ts) key = of_bool (key = from_context com t) + topic_uses com ts key"
  "topic_uses com (ts @ us) key = topic_uses com ts key + topic_uses com us key"
  by (cases key; auto simp: topic_uses_def from_context_def)+

lemma count_list_distinct: "distinct xs \<Longrightarrow> count_list xs x = of_bool (x \<in> set xs)"
  by (induction xs) auto

lemma topic_uses_scope:
  "distinct (channel_ids sc) \<Longrightarrow> topic_uses com (scope_topics sc) key = of_bool (wants_topic (fs, com, sc) key)"
  using distinct_scope_topics [of sc] by (auto simp: topic_uses_def count_list_distinct)

lemma releases_count:
  "reached tp \<Longrightarrow> reached (fold (release_topic com) ts tp) \<and>
     desired_refcount (fold (release_topic com) ts tp) key = desired_refcount tp key - topic_uses com ts key"
proof (induction ts arbitrary: tp)
  case (Cons t ts)
  have "\<forall>key n. map_of (desired_topics tp) key = Some n \<longrightarrow> 0 < n"
    using interest.reachable_inv [OF refl Cons.prems] by (auto simp: topics_inv_def plain_tables_def)
  from refcount_release [OF this, of com t key] Cons.IH [OF reached_step [OF Cons.prems releases, of com t]]
  show ?case by simp
qed simp

lemma retains_count:
  "reached tp \<Longrightarrow> \<forall>t\<in>set ts. plain_key (from_context com t) \<Longrightarrow> reached (fold (retain_topic com) ts tp) \<and>
     desired_refcount (fold (retain_topic com) ts tp) key = desired_refcount tp key + topic_uses com ts key"
proof (induction ts arbitrary: tp)
  case (Cons t ts)
  from Cons.IH [OF reached_step [OF Cons.prems(1) retains, of com t]] Cons.prems(2) refcount_retain [of com t tp key]
  show ?case by simp
qed simp

lemma release_scope: "release_subscription_topics com sc = fold (release_topic com) (scope_topics sc)"
  "release_removed com removed = fold (release_topic com) (scope_topics (rs_scope removed))"
  by (cases sc; simp add: fun_eq_iff release_subscription_topics_def fold_map comp_def)
    (cases "rs_scope removed"; simp add: fun_eq_iff release_removed_def fold_map comp_def)

lemma release_removed_all:
  "fold (release_removed com) removed = fold (release_topic com) (concat (map (scope_topics \<circ> rs_scope) removed))"
  by (induction removed) (simp_all add: release_scope fun_eq_iff)

section \<open>Changes of the registry\<close>

text \<open>Every entry carries the tenant of its connection and lists its channels once.\<close>

definition entries_ok :: "(uuid \<Rightarrow> uuid) \<Rightarrow> registry \<Rightarrow> bool" where
  "entries_ok tenant r \<longleftrightarrow>
     (\<forall>c s fs com sc. lookup_sub r (c, s) = Some (fs, com, sc) \<longrightarrow> com = tenant c \<and> distinct (channel_ids sc))"

definition counts_interest :: "registry \<Rightarrow> topics \<Rightarrow> bool" where
  "counts_interest r tp \<longleftrightarrow> (\<forall>key. desired_refcount tp key = card (interested r key))"

definition node_ok :: "(uuid \<Rightarrow> uuid) \<Rightarrow> registry \<Rightarrow> topics \<Rightarrow> bool" where
  "node_ok tenant r tp \<longleftrightarrow> registry_inv r \<and> entries_ok tenant r \<and> reached tp \<and> counts_interest r tp"

lemma remove_subscription_removed:
  "fst (remove_subscription c s r) =
     map_option (\<lambda>(fs, com, sc). \<lparr>rs_community_id = com, rs_scope = sc\<rparr>) (lookup_sub r (c, s))"
  by (auto simp: remove_subscription_def lookup_sub_def split: option.split)

lemma interested_remove:
  "interested (snd (remove_subscription c s r)) key = interested r key - {(c, s)}"
  by (auto simp: interested_def remove_subscription_lookup)

lemma entries_ok_remove: "entries_ok tenant r \<Longrightarrow> entries_ok tenant (snd (remove_subscription c s r))"
  unfolding entries_ok_def remove_subscription_lookup fun_upd_apply by simp

lemma node_ok_remove:
  assumes ok: "node_ok tenant r tp"
  shows "node_ok tenant (snd (remove_subscription c s r))
    (case fst (remove_subscription c s r) of Some x \<Rightarrow> release_removed (tenant c) x tp | None \<Rightarrow> tp)"
proof (cases "lookup_sub r (c, s)")
  case None
  then have "interested (snd (remove_subscription c s r)) key = interested r key" for key
    by (auto simp: interested_remove) (auto simp: interested_def)
  with ok None show ?thesis
    by (simp add: node_ok_def counts_interest_def remove_subscription_inv entries_ok_def remove_subscription_removed remove_subscription_lookup)
next
  case (Some e)
  obtain fs com sc where e: "e = (fs, com, sc)" by (rule prod_cases3)
  have entry: "com = tenant c" "distinct (channel_ids sc)" using ok Some e by (auto simp: node_ok_def entries_ok_def)
  let ?tp = "fold (release_topic com) (scope_topics sc) tp"
  have tp: "reached ?tp" "desired_refcount ?tp key = desired_refcount tp key - of_bool (wants_topic (fs, com, sc) key)" for key
    using releases_count [of tp com "scope_topics sc" key] topic_uses_scope [OF entry(2), of com key fs] ok by (simp_all add: node_ok_def)
  have "card (interested (snd (remove_subscription c s r)) key) = card (interested r key) - of_bool (wants_topic (fs, com, sc) key)" for key
    using Some e by (auto simp: interested_remove card_Diff_singleton_if) (auto simp: interested_def)
  with tp ok have "counts_interest (snd (remove_subscription c s r)) ?tp" by (simp add: node_ok_def counts_interest_def)
  with ok tp(1) show ?thesis
    by (simp add: node_ok_def remove_subscription_inv entries_ok_remove remove_subscription_removed release_scope Some e entry(1)
        del: wants_topic.simps)
qed

lemma node_ok_register:
  assumes ok: "node_ok tenant r tp" and sc: "distinct (channel_ids sc)" "\<forall>t\<in>set (scope_topics sc). plain_key (from_context (tenant c) t)"
  shows "node_ok tenant (snd (register_with_scope (tenant c) c s fs sc r))
    (fold (retain_topic (tenant c)) (scope_topics sc)
       (case fst (remove_subscription c s r) of Some x \<Rightarrow> release_removed (tenant c) x tp | None \<Rightarrow> tp))"
proof -
  define r1 where "r1 = snd (remove_subscription c s r)"
  define tp1 where "tp1 = (case fst (remove_subscription c s r) of Some x \<Rightarrow> release_removed (tenant c) x tp | None \<Rightarrow> tp)"
  define r2 where "r2 = snd (register_with_scope (tenant c) c s fs sc r)"
  let ?tp = "fold (retain_topic (tenant c)) (scope_topics sc) tp1"
  have ok1: "node_ok tenant r1 tp1" unfolding r1_def tp1_def by (rule node_ok_remove [OF ok])
  have look: "lookup_sub r1 (c, s) = None" "lookup_sub r2 = (lookup_sub r1)((c, s) \<mapsto> (fs, tenant c, sc))"
    by (simp_all add: r1_def r2_def remove_subscription_lookup register_with_scope_lookup)
  have tp: "reached ?tp" "desired_refcount ?tp key = desired_refcount tp1 key + of_bool (wants_topic (fs, tenant c, sc) key)" for key
    using retains_count [of tp1 "scope_topics sc" "tenant c" key] topic_uses_scope [OF sc(1), of "tenant c" key fs] ok1 sc(2)
    by (simp_all add: node_ok_def)
  have split: "interested r2 key = interested r1 key \<union> (if wants_topic (fs, tenant c, sc) key then {(c, s)} else {})" for key
    using look by (auto simp: interested_def)
  have "(c, s) \<notin> interested r1 key" for key using look(1) by (simp add: interested_def)
  then have "card (interested r2 key) = card (interested r1 key) + of_bool (wants_topic (fs, tenant c, sc) key)" for key
    unfolding split by (auto simp del: wants_topic.simps)
  with tp ok1 have "counts_interest r2 ?tp" by (simp add: node_ok_def counts_interest_def del: wants_topic.simps)
  moreover have "registry_inv r2" unfolding r2_def by (rule register_with_scope_inv) (use ok in \<open>simp add: node_ok_def\<close>)
  moreover have "entries_ok tenant r2" using ok1 sc(1) look(2) by (auto simp: node_ok_def entries_ok_def)
  ultimately show ?thesis using tp(1) by (simp add: node_ok_def r2_def tp1_def)
qed

lemma length_filter_card:
  assumes "hm_wf m" shows "length (filter P m) = card {s. \<exists>e. map_of m s = Some e \<and> P (s, e)}"
proof -
  have "set (map fst (filter P m)) = {s. \<exists>e. map_of m s = Some e \<and> P (s, e)}"
    using assms by (force simp: hm_wf_lookup [symmetric])
  moreover have "distinct (map fst (filter P m))" using assms by (simp add: hm_wf_def distinct_map_filter)
  ultimately show ?thesis using distinct_card [of "map fst (filter P m)"] by simp
qed

text \<open>The interest of one connection.\<close>

lemma interested_conn:
  assumes "map_of (subs r) c = Some m" "hm_wf m"
  shows "card {p \<in> interested r key. fst p = c} = length (filter (\<lambda>(s, e). wants_topic e key) m)"
proof -
  have "{p \<in> interested r key. fst p = c} = Pair c ` {s. \<exists>e. map_of m s = Some e \<and> wants_topic e key}"
    using assms(1) by (force simp: interested_def lookup_sub_def)
  then show ?thesis by (simp add: card_image inj_on_def length_filter_card [OF assms(2)])
qed

lemma topic_uses_removed:
  assumes "\<forall>(s, fs, com, sc)\<in>set m. com = t \<and> distinct (channel_ids sc)"
  shows "topic_uses t (concat (map (scope_topics \<circ> rs_scope)
      (map (\<lambda>(s, fs, com, sc). \<lparr>rs_community_id = com, rs_scope = sc\<rparr>) m))) key =
    length (filter (\<lambda>(s, e). wants_topic e key) m)"
  using assms
proof (induction m)
  case (Cons x m)
  obtain s fs com sc where x: "x = (s, fs, com, sc)" by (rule prod_cases4)
  with Cons topic_uses_scope [of sc t key fs] show ?case by (auto simp del: wants_topic.simps)
qed simp

lemma node_ok_remove_connection:
  assumes ok: "node_ok tenant r tp"
  shows "node_ok tenant (snd (remove_connection c r)) (fold (release_removed (tenant c)) (fst (remove_connection c r)) tp)"
proof (cases "map_of (subs r) c")
  case None
  with ok show ?thesis by (simp add: remove_connection_def)
next
  case (Some m)
  let ?r = "snd (remove_connection c r)" and ?tp = "fold (release_removed (tenant c)) (fst (remove_connection c r)) tp"
  have wf: "hm_wf m" using ok Some by (auto simp: node_ok_def registry_inv_def store_wf_def)
  have entries: "\<forall>(s, fs, com, sc)\<in>set m. com = tenant c \<and> distinct (channel_ids sc)"
  proof -
    have "lookup_sub r (c, s) = map_of m s" for s using Some by (simp add: lookup_sub_def)
    with ok have "\<forall>s fs com sc. map_of m s = Some (fs, com, sc) \<longrightarrow> com = tenant c \<and> distinct (channel_ids sc)"
      unfolding node_ok_def entries_ok_def by metis
    then show ?thesis by (auto simp: hm_wf_lookup [OF wf])
  qed
  have tp: "reached ?tp" "desired_refcount ?tp key = desired_refcount tp key - card {p \<in> interested r key. fst p = c}" for key
    using releases_count [of tp "tenant c" _ key] topic_uses_removed [OF entries, of key] ok interested_conn [OF Some wf, of key]
    unfolding release_removed_all by (simp_all add: node_ok_def remove_connection_def Some del: wants_topic.simps)
  have "interested ?r key = interested r key - {p \<in> interested r key. fst p = c}" for key
    by (auto simp: interested_def remove_connection_lookup)
  then have "card (interested ?r key) = card (interested r key) - card {p \<in> interested r key. fst p = c}" for key
    by (simp add: card_Diff_subset)
  with tp ok have "counts_interest ?r ?tp" by (simp add: node_ok_def counts_interest_def)
  moreover have "entries_ok tenant ?r" using ok unfolding node_ok_def entries_ok_def remove_connection_lookup by simp
  ultimately show ?thesis using ok tp(1) by (simp add: node_ok_def remove_connection_inv)
qed

subsection \<open>Eviction\<close>

lemma remove_channel_loop_length:
  assumes "distinct ids" "map_of (subs r) c = Some m" "\<forall>s\<in>set ids. \<exists>fs com' chs. map_of m s = Some (fs, com', Channels chs)"
  shows "length (fst (remove_channel_loop com c ch ids r ups)) = length ups + length ids"
  using assms
proof (induction ids arbitrary: r m ups)
  case (Cons s ids)
  then obtain fs com' chs where s: "map_of m s = Some (fs, com', Channels chs)" by auto
  let ?chs = "filter (\<lambda>x. x \<noteq> ch) chs"
  let ?m = "if ?chs = [] then hm_remove s m else hm_insert s (fs, com', Channels ?chs) m"
  let ?r = "remove_from_index c s fs com (Channels [ch]) r\<lparr>subs := hm_insert c ?m (subs r)\<rparr>"
  have "\<forall>t\<in>set ids. \<exists>fs com' chs. map_of ?m t = Some (fs, com', Channels chs)"
    using Cons.prems(1,3) by auto
  from Cons.IH [OF _ _ this, of ?r "ups @ [\<lparr>cu_sub_id = s, cu_removed = (?chs = [])\<rparr>]"] Cons.prems(1,2) s
  show ?case by (simp add: Let_def)
qed simp

lemma evicted_count:
  assumes "registry_inv r"
  shows "length (fst (remove_channel_subscriptions_scoped com c ch r)) =
    card {p \<in> interested r (from_context com (ChannelTopic ch)). fst p = c}"
proof (cases "map_of (subs r) c")
  case None
  then have "{p \<in> interested r (from_context com (ChannelTopic ch)). fst p = c} = {}" by (auto simp: interested_def lookup_sub_def)
  with None show ?thesis by (simp add: remove_channel_subscriptions_scoped_def)
next
  case (Some m)
  let ?ids = "map fst (filter (\<lambda>(s, fs, com', sc). com' = com \<and> ch \<in> set (channel_ids sc)) m)"
  have wf: "hm_wf m" using assms Some by (auto simp: registry_inv_def store_wf_def)
  have named: "filter (\<lambda>(s, fs, com', sc). com' = com \<and> ch \<in> set (channel_ids sc)) m =
      filter (\<lambda>(s, e). wants_topic e (from_context com (ChannelTopic ch))) m"
    by (rule filter_cong [OF refl]) (auto simp: from_context_def)
  have "\<forall>s\<in>set ?ids. \<exists>fs com' chs. map_of m s = Some (fs, com', Channels chs)"
  proof -
    have "\<exists>chs. sc = Channels chs" if "ch \<in> set (channel_ids sc)" for sc using that by (cases sc) auto
    then show ?thesis by (auto simp: hm_wf_lookup [OF wf])
  qed
  from remove_channel_loop_length [OF _ Some this] wf
  have "length (fst (remove_channel_subscriptions_scoped com c ch r)) = length ?ids"
    by (simp add: remove_channel_subscriptions_scoped_def Some hm_wf_def distinct_map_filter)
  then show ?thesis by (simp add: named interested_conn [OF Some wf])
qed

lemma node_ok_evict:
  assumes ok: "node_ok tenant r tp"
  shows "node_ok tenant (snd (remove_channel_subscriptions_scoped com c ch r))
    (fold (\<lambda>_. release_topic com (ChannelTopic ch)) (fst (remove_channel_subscriptions_scoped com c ch r)) tp)"
    (is "node_ok _ ?r (fold _ ?ups tp)")
proof -
  have inv: "registry_inv r" and spec: "registry_inv ?r"
    using ok remove_channel_subscriptions_spec [of r com c ch] by (auto simp: node_ok_def)
  note look = conjunct2 [OF remove_channel_subscriptions_spec [OF inv, of com c ch]]
  define ts where "ts = map (\<lambda>_. ChannelTopic ch) ?ups"
  have uses: "topic_uses com (map (\<lambda>_. ChannelTopic ch) us) key = length us * of_bool (key = from_context com (ChannelTopic ch))" for us key
    by (induction us) auto
  have step: "fold (\<lambda>_. release_topic com (ChannelTopic ch)) ?ups tp = fold (release_topic com) ts tp"
    by (simp add: ts_def fold_map comp_def)
  have tp: "reached (fold (release_topic com) ts tp)" "desired_refcount (fold (release_topic com) ts tp) key =
      desired_refcount tp key - length ?ups * of_bool (key = from_context com (ChannelTopic ch))" for key
    using releases_count [of tp com ts key] uses [of ?ups key] ok by (simp_all add: node_ok_def ts_def)
  have left: "interested ?r key = interested r key - (if key = from_context com (ChannelTopic ch) then {p \<in> interested r key. fst p = c} else {})" for key
  proof -
    have "p \<in> interested ?r key \<longleftrightarrow> p \<in> interested r key \<and> \<not> (key = from_context com (ChannelTopic ch) \<and> fst p = c)" for p
    proof (cases "lookup_sub r p")
      case (Some e)
      obtain fs com' sc where e: "e = (fs, com', sc)" by (rule prod_cases3)
      show ?thesis
        unfolding interested_def mem_Collect_eq look [of p] Some e
        by (cases sc; cases key; cases "tk_topic key") (auto simp: from_context_def filter_empty_conv)
    qed (simp add: interested_def look)
    then show ?thesis by auto
  qed
  have "card (interested ?r key) = card (interested r key) - length ?ups * of_bool (key = from_context com (ChannelTopic ch))" for key
    unfolding left by (auto simp: card_Diff_subset evicted_count [OF inv])
  with tp ok have "counts_interest ?r (fold (release_topic com) ts tp)" by (simp add: node_ok_def counts_interest_def)
  moreover have "entries_ok tenant ?r"
  proof -
    have "\<exists>sc. lookup_sub r p = Some (fs, com', sc) \<and> (distinct (channel_ids sc) \<longrightarrow> distinct (channel_ids sc'))"
      if "lookup_sub ?r p = Some (fs, com', sc')" for p fs com' sc'
      using that unfolding look by (auto simp: Let_def split: option.splits scope.splits if_splits)
    with ok show ?thesis unfolding node_ok_def entries_ok_def by metis
  qed
  ultimately show ?thesis using tp(1) spec unfolding step by (simp add: node_ok_def)
qed

section \<open>Runs of a node\<close>

text \<open>
  The steps of a node: a connection's handlers, evictions, the subscriber task, and everything
  that leaves the registry alone (deliveries, caches, new connections). A connection belongs to
  one tenant; ids have no colon.
\<close>

definition plain_env :: "req_env \<Rightarrow> bool" where
  "plain_env E \<longleftrightarrow> (\<forall>v i. re_parse_uuid E v = Some i \<longrightarrow> no_colon i)"

inductive node_step :: "(uuid \<Rightarrow> uuid) \<Rightarrow> node \<Rightarrow> node \<Rightarrow> bool" for tenant where
  request: "plain_env E \<Longrightarrow> cs_community conn = tenant (cs_conn_id conn) \<Longrightarrow> no_colon (cs_community conn) \<Longrightarrow>
     node_step tenant nd (io_node (handle_req E sub_id filters conn nd))"
| counting: "node_step tenant nd (io_node (handle_count E sub_id filters conn nd))"
| closing: "cs_community conn = tenant (cs_conn_id conn) \<Longrightarrow> node_step tenant nd (io_node (handle_close E sub_id conn nd))"
| ending: "cs_community conn = tenant (cs_conn_id conn) \<Longrightarrow> node_step tenant nd (connection_ended conn nd)"
| evicting: "node_step tenant nd (evict_conn_channel_subscriptions E com channel_id conn_id nd)"
| timer: "node_step tenant nd (nd\<lparr>nd_topics := debounce_fires key (nd_topics nd)\<rparr>)"
| command: "node_step tenant nd (nd\<lparr>nd_topics := subscriber_step ok (nd_topics nd)\<rparr>)"
| reconnect: "active_topics (nd_topics nd) = None \<Longrightarrow> node_step tenant nd (nd\<lparr>nd_topics := connect_and_subscribe ok (nd_topics nd)\<rparr>)"
| disconnect: "node_step tenant nd (nd\<lparr>nd_topics := stream_ended (nd_topics nd)\<rparr>)"
| elsewhere: "rl_registry relay = rl_registry (nd_relay nd) \<Longrightarrow> node_step tenant nd (nd\<lparr>nd_relay := relay\<rparr>)"

definition node_starts :: "node \<Rightarrow> bool" where
  "node_starts nd \<longleftrightarrow> rl_registry (nd_relay nd) = registry_new \<and> nd_topics nd = topics_new \<and> nd_conn_subs nd = []"

abbreviation node_inv :: "(uuid \<Rightarrow> uuid) \<Rightarrow> node \<Rightarrow> bool" where
  "node_inv tenant nd \<equiv> node_ok tenant (rl_registry (nd_relay nd)) (nd_topics nd)"

lemma node_inv_core: "same_core nd nd' \<Longrightarrow> node_inv tenant nd' = node_inv tenant nd"
  by (simp add: same_core_def)

lemma extract_channel_ids_distinct:
  assumes "extract_channel_ids_from_filters_limited parse filters = Ok (Some chs)"
  shows "distinct chs \<and> (\<forall>ch\<in>set chs. \<exists>v. parse v = Some ch)"
proof -
  have "distinct c \<Longrightarrow> (\<forall>ch\<in>set c. \<exists>v. parse v = Some ch) \<Longrightarrow> extract_channel_ids_loop parse fs c = Some out \<Longrightarrow>
      distinct out \<and> (\<forall>ch\<in>set out. \<exists>v. parse v = Some ch)" for fs c out
  proof (induction fs arbitrary: c)
    case (Cons f fs)
    then obtain vs where v: "h_values f = Some vs" by (auto split: option.splits)
    let ?c = "fold push_unseen (List.map_filter parse vs) c"
    have "distinct ?c" "\<forall>ch\<in>set ?c. \<exists>v. parse v = Some ch"
      using Cons.prems(1,2) by (auto simp: map_filter_def)
    from Cons.IH [OF this] Cons.prems(3) v show ?case by simp
  qed simp
  from this [of "[]" filters chs] assms show ?thesis
    by (auto simp: extract_channel_ids_from_filters_limited_def extract_channel_ids_from_filters_def Let_def split: if_splits)
qed

lemma release_replaced: "release_subscription_topics com (rs_scope x) = release_removed com x"
  by (simp add: release_scope)

lemma register_request_topics:
  "nd_topics (register_request conn sub_id filters authorized nd) =
   fold (retain_topic (cs_community conn)) (scope_topics (case authorized of Some chs \<Rightarrow> Channels chs | None \<Rightarrow> Global))
     (case fst (remove_subscription (cs_conn_id conn) sub_id (rl_registry (nd_relay nd))) of
        Some x \<Rightarrow> release_removed (cs_community conn) x (nd_topics nd) | None \<Rightarrow> nd_topics nd)"
  by (cases authorized)
    (simp_all add: register_request_def register_channels_scoped_def register_scoped_def register_with_scope_def
      release_replaced Let_def split_beta fold_map comp_def cong: option.case_cong)

lemma node_inv_request:
  assumes inv: "node_inv tenant nd" and env: "plain_env E" "cs_community conn = tenant (cs_conn_id conn)" "no_colon (cs_community conn)"
  shows "node_inv tenant (io_node (handle_req E sub_id filters conn nd))"
proof (rule handle_req_core [where E = E and sub_id = sub_id and filters = filters and conn = conn and nd = nd])
  fix ctx requested accessible authorized
  assume req: "extract_channel_ids_from_filters_limited (re_parse_uuid E) filters = Ok requested"
      "authorized = map_option (filter (\<lambda>ch. ch \<in> set accessible)) requested"
    and core: "same_core (register_request conn sub_id filters authorized nd) (io_node (handle_req E sub_id filters conn nd))"
  define sc where "sc = (case authorized of Some chs \<Rightarrow> Channels chs | None \<Rightarrow> Global)"
  have "distinct (channel_ids sc) \<and> (\<forall>ch\<in>set (channel_ids sc). no_colon ch)"
    using req extract_channel_ids_distinct [of "re_parse_uuid E" filters] env(1)
    by (cases requested) (auto simp: sc_def plain_env_def)
  then have "distinct (channel_ids sc)" "\<forall>t\<in>set (scope_topics sc). plain_key (from_context (tenant (cs_conn_id conn)) t)"
    using env by (cases sc; auto simp: plain_key_def from_context_def)+
  from node_ok_register [OF inv this, of sub_id filters] show ?thesis
    unfolding node_inv_core [OF core] register_request_registry register_request_topics sc_def [symmetric] env(2) .
qed (simp add: node_inv_core inv)

lemma handle_count_core: "same_core nd (io_node (handle_count E sub_id filters conn nd))"
proof -
  have tell: "same_core nd (io_node (conn_tell E conn m \<lparr>io_node = nd\<lparr>nd_relay := relay\<rparr>, io_out = []\<rparr>))"
    if "rl_registry relay = rl_registry (nd_relay nd)" for m relay
    using that conn_send_eqs(1) [of "\<lparr>io_node = nd\<lparr>nd_relay := relay\<rparr>, io_out = []\<rparr>" E conn m] by (simp add: same_core_def)
  have tell': "same_core nd (io_node (conn_tell E conn m \<lparr>io_node = nd, io_out = []\<rparr>))" for m
    using conn_send_eqs(1) [of "\<lparr>io_node = nd, io_out = []\<rparr>" E conn m] by simp
  show ?thesis
  proof (cases "cs_auth_state conn")
    case (Authenticated ctx)
    obtain ids relay where cached: "get_accessible_channel_ids_cached (re_delivery E) (cs_community conn) (ac_pubkey ctx) (nd_relay nd) = (ids, relay)"
      by fastforce
    note tells = tell' tell [OF accessible_cached_core [OF cached]]
    show ?thesis
      by (cases ids) (simp_all add: handle_count_def Let_def Authenticated cached tells split: sum.split)
  qed (simp_all add: handle_count_def tell')
qed

lemma node_inv_close:
  assumes "node_inv tenant nd" "cs_community conn = tenant (cs_conn_id conn)"
  shows "node_inv tenant (io_node (handle_close E sub_id conn nd))"
  using node_ok_remove [OF assms(1), of "cs_conn_id conn" sub_id] assms(2)
  by (simp add: handle_close_def Let_def split_beta node_inv_core [OF conn_send_eqs(1)] cong: option.case_cong)

lemma node_inv_end:
  assumes "node_inv tenant nd" "cs_community conn = tenant (cs_conn_id conn)"
  shows "node_inv tenant (connection_ended conn nd)"
  using node_ok_remove_connection [OF assms(1), of "cs_conn_id conn"] assms(2)
  by (simp add: connection_ended_def Let_def split_beta)

lemma node_inv_evict:
  "node_inv tenant nd \<Longrightarrow> node_inv tenant (evict_conn_channel_subscriptions E com channel_id conn_id nd)"
  using node_ok_evict [of tenant _ _ com conn_id channel_id]
  by (simp add: evict_conn_channel_subscriptions_def Let_def split_beta)

lemma node_inv_topics:
  "node_ok tenant r tp \<Longrightarrow> topics_step tp tp' \<Longrightarrow> desired_topics tp' = desired_topics tp \<Longrightarrow> node_ok tenant r tp'"
  by (auto simp: node_ok_def counts_interest_def desired_refcount_def intro: reached_step)

lemma desired_kept:
  "desired_topics (debounce_fires key tp) = desired_topics tp" "desired_topics (subscriber_step ok tp) = desired_topics tp"
  "desired_topics (connect_and_subscribe ok tp) = desired_topics tp" "desired_topics (stream_ended tp) = desired_topics tp"
  by (auto simp: debounce_fires_def subscriber_step_def handle_command_def connect_and_subscribe_def stream_ended_def Let_def
      split: option.split list.split subscription_command.split)

interpretation node_run: step_system node_starts "node_step tenant" "node_inv tenant" for tenant
proof
  show "node_inv tenant nd" if "node_starts nd" for nd
    using that by (simp add: node_starts_def node_ok_def registry_inv_new [unfolded registry_new_def] entries_ok_def
        counts_interest_def interested_def registry_new_def lookup_sub_def topics_new_def desired_refcount_def)
  show "node_inv tenant nd'" if "node_inv tenant nd" "node_step tenant nd nd'" for nd nd'
    using that(2,1)
  proof (cases rule: node_step.cases)
    case (counting E sub_id filters conn)
    with that(1) show ?thesis using node_inv_core [OF handle_count_core] by simp
  qed (auto intro: node_inv_request node_inv_close node_inv_end node_inv_evict node_inv_topics topics_step.intros simp: desired_kept)
qed

section \<open>Property\<close>

text \<open>
  C5: A node is interested in exactly the topics of its live subscriptions. In every state a node
  reaches by requests, counts, closes, disconnects, evictions, timers, subscriber commands,
  failures and reconnections: the reference count of a topic is the number of registered
  subscriptions that want it; while the node is connected to Redis, the topic of every registered
  subscription is subscribed or its subscription is queued; and when no command and no timer is
  pending, the node is subscribed to exactly the topics of its registered subscriptions.
\<close>

theorem interest_counts_live_subscriptions:
  assumes "node_starts nd0" "(node_step tenant)\<^sup>*\<^sup>* nd0 nd" "active_topics (nd_topics nd) = Some active"
  shows "(\<forall>key. desired_refcount (nd_topics nd) key = card (interested (rl_registry (nd_relay nd)) key)) \<and>
    (\<forall>p e key. lookup_sub (rl_registry (nd_relay nd)) p = Some e \<longrightarrow> wants_topic e key \<longrightarrow>
       redis_channel key \<in> set active \<or> SubscribeTopic key \<in> set (subscription_tx (nd_topics nd))) \<and>
    (subscription_tx (nd_topics nd) = [] \<and> debounced (nd_topics nd) = [] \<longrightarrow>
       set active = redis_channel ` {key. \<exists>p e. lookup_sub (rl_registry (nd_relay nd)) p = Some e \<and> wants_topic e key})"
proof -
  let ?r = "rl_registry (nd_relay nd)" and ?tp = "nd_topics nd"
  have ok: "reached ?tp" "counts_interest ?r ?tp"
    using node_run.reachable_inv [OF assms(1,2)] by (simp_all add: node_ok_def)
  have count: "0 < desired_refcount ?tp key \<longleftrightarrow> (\<exists>p e. lookup_sub ?r p = Some e \<and> wants_topic e key)" for key
  proof -
    have "0 < desired_refcount ?tp key \<longleftrightarrow> interested ?r key \<noteq> {}" using ok(2) by (simp add: counts_interest_def card_gt_0_iff)
    then show ?thesis unfolding interested_def by blast
  qed
  note covered = follows_interest [OF ok(1) assms(3), unfolded count]
  show ?thesis
  proof (intro conjI)
    show "\<forall>key. desired_refcount ?tp key = card (interested ?r key)" using ok(2) unfolding counts_interest_def .
    show "\<forall>p e key. lookup_sub ?r p = Some e \<longrightarrow> wants_topic e key \<longrightarrow>
        redis_channel key \<in> set active \<or> SubscribeTopic key \<in> set (subscription_tx ?tp)"
      using conjunct1 [OF covered] by blast
  qed (rule conjunct2 [OF covered])
qed

section \<open>A run\<close>

lemma two_channels_plain: "plain_env two_channels_env"
  by (simp add: plain_env_def two_channels_env_def no_colon_def)

definition subscribed_node :: node where
  "subscribed_node = io_node (handle_req two_channels_env ''s'' [messages_in [''A'']] alice_connection
     (idle_node\<lparr>nd_topics := connect_and_subscribe True (nd_topics idle_node)\<rparr>))"

lemma subscribed_node_reached: "node_starts idle_node" "(node_step (\<lambda>_. ''com''))\<^sup>*\<^sup>* idle_node subscribed_node"
proof -
  show "node_starts idle_node" by (simp add: node_starts_def idle_node_def)
  have "node_step (\<lambda>_. ''com'') idle_node (idle_node\<lparr>nd_topics := connect_and_subscribe True (nd_topics idle_node)\<rparr>)"
    by (rule reconnect) (simp add: idle_node_def topics_new_def)
  moreover have "node_step (\<lambda>_. ''com'') (idle_node\<lparr>nd_topics := connect_and_subscribe True (nd_topics idle_node)\<rparr>) subscribed_node"
    unfolding subscribed_node_def by (rule request) (simp_all add: two_channels_plain alice_connection_def no_colon_def)
  ultimately show "(node_step (\<lambda>_. ''com''))\<^sup>*\<^sup>* idle_node subscribed_node"
    by (meson converse_rtranclp_into_rtranclp rtranclp.rtrancl_refl)
qed

theorem interest_counts_live_subscriptions_witness:
  "\<exists>e key active. lookup_sub (rl_registry (nd_relay subscribed_node)) (''c1'', ''s'') = Some e \<and> wants_topic e key \<and>
     active_topics (nd_topics subscribed_node) = Some active \<and>
     (redis_channel key \<in> set active \<or> SubscribeTopic key \<in> set (subscription_tx (nd_topics subscribed_node)))"
proof -
  let ?e = "([messages_in [''A'']], ''com'', Channels [''A''])" and ?key = "from_context ''com'' (ChannelTopic ''A'')"
  have "lookup_sub (rl_registry (nd_relay subscribed_node)) (''c1'', ''s'') = Some ?e" by code_simp
  moreover have "wants_topic ?e ?key" by (simp add: from_context_def)
  moreover have "active_topics (nd_topics subscribed_node) = Some []" by code_simp
  ultimately show ?thesis using interest_counts_live_subscriptions [OF subscribed_node_reached] by blast
qed

section \<open>Handlers in another order\<close>


end
