(* ===== verification/CountCorrect.thy ===== *)
theory CountCorrect
  imports RequestsCorrect
begin

text \<open>
  The channels a COUNT reaches. The query of a filter is confined to channels the reader may
  read, except for one shape of filter, for which it is not confined to any channel.
\<close>

section \<open>Scope of the query of a count\<close>

text \<open>Only rows of the tenant, in no channel or in one of these.\<close>

definition confined :: "uuid \<Rightarrow> uuid list \<Rightarrow> event_query \<Rightarrow> bool" where
  "confined com accessible q \<longleftrightarrow> eq_community_id q = com \<and>
     (\<forall>row. where_channel q row \<and> where_channel_ids q row \<longrightarrow> is_none_or (\<lambda>ch. ch \<in> set accessible) (er_channel_id row))"

text \<open>Several \<open>#h\<close> values, of which parsing leaves exactly one distinct channel.\<close>

definition one_of_several :: "(string \<Rightarrow> uuid option) \<Rightarrow> nostr_filter \<Rightarrow> bool" where
  "one_of_several parse f \<longleftrightarrow>
     extract_channel_id_from_filter parse f = None \<and> (\<exists>ch. extract_channel_ids_from_filters parse [f] = Some [ch])"

lemma channel_outside: "\<exists>(row :: event_row) ch. er_channel_id row = Some ch \<and> ch \<notin> set accessible"
proof -
  obtain ch :: uuid where "ch \<notin> set accessible"
    using ex_new_if_finite [OF infinite_UNIV_listI finite_set] by blast
  then show ?thesis by (intro exI [of _ "(undefined :: event_row)\<lparr>er_channel_id := Some ch\<rparr>"] exI [of _ ch]) simp
qed

lemma extract_single:
  assumes "extract_channel_id_from_filter parse f = Some ch" shows "extract_channel_ids_from_filters parse [f] = Some [ch]"
  using assms
  by (auto simp: extract_channel_id_from_filter_def extract_channel_ids_from_filters_def map_filter_def push_unseen_def length_Suc_conv
      split: option.splits if_splits)

text \<open>
  C6: When a count is confined. The query of a COUNT filter reaches only rows of the connection's
  tenant that are in no channel or in a channel the reader may read, unless the filter has
  several \<open>#h\<close> values of which exactly one distinct channel remains after parsing; then the query
  is confined to no channel at all, and some channel outside is always reached.
\<close>

theorem count_confined_exactly:
  assumes "count_query E com reader accessible f = Some q"
  shows "confined com accessible q \<longleftrightarrow> \<not> one_of_several (re_parse_uuid E) f"
proof (cases "extract_channel_ids_from_filters (re_parse_uuid E) [f]")
  case None
  then have h: "h_values f = None"
    by (auto simp: extract_channel_ids_from_filters_def split: option.splits)
  then have "extract_channel_id_from_filter (re_parse_uuid E) f = None" by (simp add: extract_channel_id_from_filter_def)
  with assms None show ?thesis
    by (auto simp: count_query_def confined_def one_of_several_def build_event_query_from_filter_def query_fields where_channel_ids_def
        is_none_or_iff is_some_and_iff Let_def split: if_splits)
next
  case (Some requested)
  then obtain vs where h: "h_values f = Some vs" by (auto simp: extract_channel_ids_from_filters_def split: option.splits)
  let ?own = "extract_channel_id_from_filter (re_parse_uuid E) f"
  have authorized: "filter (\<lambda>ch. ch \<in> set accessible) requested \<noteq> []"
    using assms Some by (auto simp: count_query_def Let_def split: if_splits)
  show ?thesis
  proof (cases "length requested = 1")
    case True
    then obtain ch where ch: "requested = [ch]" by (auto simp: length_Suc_conv)
    with authorized have "ch \<in> set accessible" by (auto split: if_splits)
    moreover have "eq_channel_ids q = None" "eq_channel_id q = ?own" "eq_global_only q = False" "eq_community_id q = com"
      using assms Some ch by (auto simp: count_query_def apply_channel_scope_to_query_def build_event_query_from_filter_def query_fields
          Let_def split: if_splits)
    moreover have "\<exists>row. \<not> is_none_or (\<lambda>ch. ch \<in> set accessible) (er_channel_id (row :: event_row))"
      using channel_outside [of accessible] by (auto simp: is_none_or_iff)
    ultimately show ?thesis
      using Some ch extract_single [of "re_parse_uuid E" f]
      by (cases ?own) (auto simp: confined_def one_of_several_def where_channel_def where_channel_ids_def)
  next
    case False
    then have "\<not> one_of_several (re_parse_uuid E) f" using Some by (auto simp: one_of_several_def)
    moreover have "eq_channel_ids q = Some (filter (\<lambda>c. c \<in> set accessible) (List.map_filter (re_parse_uuid E) vs))"
      "eq_channel_ids_include_global q = False" "eq_community_id q = com"
      using assms Some False h by (auto simp: count_query_def apply_channel_scope_to_query_def build_event_query_from_filter_def query_fields
          Let_def split: if_splits)
    ultimately show ?thesis by (auto simp: confined_def where_channel_ids_def is_some_and_iff split: if_splits)
  qed
qed

section \<open>The other shape\<close>

text \<open>A filter that names the readable channel and one word more counts the private channel too.\<close>

lemma count_reaches_private_channel:
  "io_out (handle_count two_channels_env ''n'' [messages_in [''A'', ''x'']] alice_connection idle_node) = [CountResult ''n'' 2]"
  "io_out (handle_count two_channels_env ''n'' [messages_in [''A'']] alice_connection idle_node) = [CountResult ''n'' 1]"
  "io_out (handle_count two_channels_env ''n'' [messages_in [''A'', ''P'']] alice_connection idle_node) = [CountResult ''n'' 1]"
  by code_simp+

theorem count_confined_exactly_witness:
  "confined ''com'' [''A''] (the (count_query two_channels_env ''com'' ''alice'' [''A''] (messages_in [''A'', ''P'']))) \<and>
   \<not> confined ''com'' [''A''] (the (count_query two_channels_env ''com'' ''alice'' [''A''] (messages_in [''A'', ''x''])))"
proof -
  let ?count = "\<lambda>vs. count_query two_channels_env ''com'' ''alice'' [''A''] (messages_in vs)"
  have some: "?count [''A'', ''P''] = Some (the (?count [''A'', ''P'']))" "?count [''A'', ''x''] = Some (the (?count [''A'', ''x'']))"
    by (simp_all add: count_query_def messages_in_def two_channels_env_def h_values_def extract_channel_ids_from_filters_def
        map_filter_def push_unseen_def Let_def)
  have "\<not> one_of_several (re_parse_uuid two_channels_env) (messages_in [''A'', ''P''])"
    "one_of_several (re_parse_uuid two_channels_env) (messages_in [''A'', ''x''])"
    by (auto simp: one_of_several_def messages_in_def two_channels_env_def h_values_def extract_channel_ids_from_filters_def
        extract_channel_id_from_filter_def map_filter_def push_unseen_def)
  with count_confined_exactly [OF some(1)] count_confined_exactly [OF some(2)] show ?thesis by blast
qed

end
