(* ===== verification/Spec2Isabelle.thy ===== *)
theory Spec2Isabelle
  imports RegistryCorrect QueueCorrect GitPerms HonestPairing AuditCorrect DeliveryCorrect ThreadCounters CountPushdown
    AdmissionCorrect InterestCorrect CountCorrect
begin

text \<open>
  Verification of the Buzz workspace: a Nostr relay for teams, its agents and its clients,
  written in Rust. The development models the parts that carry the program's own decisions
  and proves what each of them promises.

  \<^bold>\<open>The program and how its parts interact.\<close> A client connects to the relay
  (\<open>crates/buzz-relay\<close>) over a websocket, authenticates, and subscribes with filters. The
  relay stores events, and when one arrives asks the subscription registry which live
  subscriptions of the same community it must reach; the kind registry and the read gates
  decide what a reader may see, and the audit log records what happened. A push to a hosted
  repository is decided by the git permissions. An agent harness (\<open>crates/buzz-acp\<close>) sits
  on the other side of a connection and queues the events of each channel into prompts for
  its agent. Two devices of a user exchange a secret by a pairing session
  (\<open>buzz-core/src/pairing\<close>) without trusting the relay that carries its messages.

  \<^bold>\<open>Theories.\<close>

  \<^item> \<open>Prelude\<close>: integer and identifier types, results with errors as values, hash maps as
    association lists, vectors under a key, the loop that pushes what it has not seen. Two
    interfaces: the locale \<open>multi_index\<close> (what \<open>push\<close>, \<open>retain\<close> and lookup of a per-key
    vector promise; interpreted as \<open>idx\<close> on the operations of the registry) and the locale
    \<open>step_system\<close> (an initial state, a step and an invariant; interpreted for the queue and
    for the audit log).
  \<^item> \<open>Events\<close>, \<open>Kinds\<close>, \<open>Filters\<close>: \<open>buzz-core/src/event.rs\<close>, \<open>kind.rs\<close>, \<open>filter.rs\<close>.
    All kind constants at 32 bits, the classes ingest branches on, the gate lists, filter
    matching with its early returns and the two result-level read gates. Shown: the classes
    are exclusive, the registry has no collisions (and three omissions), the gates fail
    closed, matching agrees with the declarative reading of NIP-01.
  \<^item> \<open>SubRegistry\<close>, \<open>RegistryCorrect\<close>: \<open>buzz-relay/src/subscription.rs\<close>, the store and its
    five indexes with one definition per method. Shown: every reachable registry keeps the
    indexes an exact mirror of the store, and indexed fan-out is a scan of the store; what
    replacing, revoking and disconnecting change, and what they leave alone.
  \<^item> \<open>EventQueue\<close>, \<open>QueueCorrect\<close>: the queue of \<open>buzz-acp/src/queue.rs\<close> (lines up to the
    prompt formatting), eight tables and every method that changes them. Shown: an invariant
    over the tables for every run, at most one prompt in flight per channel, no event lost or
    duplicated by a flush, every ready channel is flushed, retries, back-off and dead letters,
    and the agreement of \<open>has_flushable_work\<close> with \<open>flush_next\<close>.
  \<^item> \<open>Roles\<close>, \<open>GitPerms\<close>: \<open>buzz-core/src/channel.rs\<close> and \<open>git_perms.rs\<close>. Shown: the exact
    condition under which a ref update is allowed, that protection only restricts, that a
    push is all or nothing, and that the pattern parser and matcher implement the grammar.
  \<^item> \<open>Pairing\<close>, \<open>PairingCorrect\<close>, \<open>HonestPairing\<close>: the session state machine of
    \<open>buzz-core/src/pairing/session.rs\<close> with \<open>crypto.rs\<close>, \<open>types.rs\<close> and \<open>mod.rs\<close>. Shown, for
    every network and every clock: the transitions of each role, that a secret is accepted
    only after a matching transcript and the user's confirmation, replay protection, finality;
    and that two honest devices complete the exchange.
  \<^item> \<open>AuditLog\<close>, \<open>AuditCorrect\<close>: \<open>crates/buzz-audit\<close>. Shown: chains of untampered tables
    verify, appends extend exactly one chain, communities are independent, changing a
    verified range needs a SHA-256 collision, and where the hashed bytes are ambiguous.

  \<^item> \<open>Connections\<close>, \<open>ConnectionsCorrect\<close>: the connection manager and the community registry of
    \<open>buzz-relay/src/state.rs\<close>. Shown: when back-pressure cuts a client off, what a ban closes,
    that no connection outlives a drain and no socket an archived community, in every
    interleaving (\<open>step_system\<close> interpreted as \<open>manager\<close> and \<open>lifecycle\<close>).
  \<^item> \<open>ReadGates\<close>: the authorization gates and the channel extraction of
    \<open>buzz-relay/src/handlers/req.rs\<close>. Shown: filters that pass the gates match gated events
    only of those they concern.
  \<^item> \<open>Delivery\<close>, \<open>DeliveryCorrect\<close>: the live delivery of \<open>handlers/event.rs\<close>, which composes
    registry, gates, caches, connections and audit queue. Shown: delivery is total and exact,
    a stored event reaches only its readers, echoes are suppressed per community; and a
    counterexample where the path between nodes lacks a gate.
  \<^item> \<open>EventStore\<close>, \<open>EventStoreCorrect\<close>, \<open>ThreadCounters\<close>, \<open>CountPushdown\<close>: the event tables of
    \<open>buzz-db/src/event.rs\<close> and \<open>lib.rs\<close>, with the translation of filters to queries. Shown:
    replacement converges to the same version in every order, read states are never
    resurrected, thread counters are exact for every run, and a pushed-down count is what
    the filter matches, with the two cases where it is not.

  \<^item> \<open>Protocol\<close>: \<open>buzz-relay/src/protocol.rs\<close>. Shown: a frame parses to a message exactly when it
    has that message's form and limits.
  \<^item> \<open>Attestation\<close>: owner attestations of \<open>buzz-sdk/src/nip_oa.rs\<close> and their time bounds. Shown: the
    condition grammar is exactly the documented one and unambiguous, computed tags verify.
  \<^item> \<open>Auth\<close>, \<open>AuthCorrect\<close>: \<open>crates/buzz-auth\<close> (scopes, access, NIP-42, NIP-98), the membership gate
    and the AUTH handler. Shown: the exact condition under which a connection is authenticated,
    failing closed on every lookup; and that expired attestations still admit.
  \<^item> \<open>Admission\<close>, \<open>AdmissionCorrect\<close>: the Redis rate limiter, the seen-set of HTTP authorizations and
    the gates of socket and bridge. Shown, for every interleaving: the bound on admitted calls, that
    quotas are private, and when an authorization can be used twice.

  \<^item> \<open>Topics\<close>, \<open>TopicsCorrect\<close>: the topics of \<open>buzz-pubsub\<close> (names, reference counts, the subscriber
    task). Shown: names parse back, and in every interleaving, failures and reconnections
    included, the subscriptions at Redis follow the counts (\<open>step_system\<close> interpreted as \<open>interest\<close>).
  \<^item> \<open>Requests\<close>, \<open>RequestsCorrect\<close>, \<open>CountCorrect\<close>, \<open>InterestCorrect\<close>: the handlers of REQ, COUNT, CLOSE,
    disconnect and eviction (\<open>handlers/req.rs\<close>, \<open>count.rs\<close>, \<open>close.rs\<close>, \<open>connection.rs\<close>,
    \<open>side_effects.rs\<close>), which compose authentication state, gates, caches, registry, topics and
    event store. Shown: what a request releases and registers is what its reader may read; when
    the query of a count is confined to readable channels; that over every run of a node the
    count of a topic is the number of live subscriptions that want it (\<open>step_system\<close> interpreted
    as \<open>node_run\<close>); and two counterexamples, a count that reaches private channels and a request
    that outlives its close.

  Each model theory has the definitions, in the order of the code, with the source's names;
  the theory beside it has the lemmas and the properties. A property carries its number in the
  text before it.

  \<^bold>\<open>Conventions.\<close> A struct is a record, an enum a datatype, \<open>Result\<close> a sum with the error on
  the left; a method that changes its receiver returns the changed record; every early return
  is a branch. A method of a shared table (\<open>DashMap\<close>, a mutex) is one atomic step, and the
  statements quantify over every sequence of steps. The order of a hash map is the order of
  its list, and no statement fixes it. The clock, random bytes and answers of the database are
  arguments. Identifiers are their canonical text, except where bytes are hashed.

  \<^bold>\<open>Parameters and bounds.\<close> The cryptography of pairing is the record \<open>crypto_env\<close> and that
  of the audit log \<open>audit_env\<close>; authentication has \<open>oa_env\<close>, \<open>auth_env\<close>, \<open>gate_env\<close>, \<open>wire_env\<close>
  and \<open>http_env\<close>, and Redis is the record \<open>redis\<close> with \<open>redis_laws\<close>; the answers of database and search index
  during one request are \<open>delivery_env\<close> and \<open>req_env\<close>; the statements that need something of them (a signature
  verifies what it signed, decryption inverts encryption, a hash has 32 bytes) name it as a
  hypothesis and have a witness with concrete functions. No definition uses fuel: loops are
  structural recursion, and every function is total. Kinds, timestamps and counters keep their
  width where the code relies on it (\<open>u16\<close>, \<open>u32\<close>, \<open>u64\<close> words, \<open>i64\<close> bytes in hashes);
  queue lengths, nanoseconds and sequence numbers are unbounded, far from their limits in any
  run. The jitter factor of the back-off is exact rational arithmetic instead of \<open>f64\<close>.

  \<^bold>\<open>Not modelled, and why.\<close> Websocket, HTTP, SQL and process plumbing (frame loops, routing, the
  statements of the database crate beside events, the command line, the desktop application,
  media, voice, push and search clients): their behaviour is that of the services they call.
  Metrics, traces and log lines: no decision depends on them. The text of the prompts in
  \<open>queue.rs\<close>. A handler of a request is one step of a node; between its reads and its writes
  other handlers are not interleaved, except where a counterexample orders them.

  \<^bold>\<open>Plan.\<close> Next: ingest and its side effects (\<open>handlers/ingest.rs\<close>, \<open>side_effects.rs\<close>), pairing QR
  codes, the workflow engine's schema and step execution, the relay mesh membership tables, the
  conformance checker, and the prompt formatting of the queue.
\<close>

end
